theory Spec2Isabelle
  imports Complex_Main "HOL-Library.Monad_Syntax"
begin

section \<open>Python values\<close>

text \<open>
  A Python \<open>float\<close> is modelled as the not-a-number sentinel or a number; a number is an
  exact real. Rounding, overflow and the two infinities are outside this model: every
  concrete value used below (100, 300, 0.05, ...) is the same in both readings wherever
  the result is compared.
\<close>

datatype pyfloat = NaN | Fin real

text \<open>The exceptions of the program that the functions below can raise.\<close>

datatype error =
    ValueError string
  | RuntimeError string
  | NameError string
  | IndexError string
  | ZeroDivisionError
  | KeyboardInterrupt

fun is_nan :: "pyfloat \<Rightarrow> bool" where
  "is_nan NaN = True"
| "is_nan (Fin x) = False"

text \<open>\<open>a == b\<close>, \<open>a != b\<close>, \<open>a < b\<close> and \<open>a > b\<close> on floats: every comparison with the
  sentinel is false, except \<open>!=\<close>.\<close>

fun feq :: "pyfloat \<Rightarrow> pyfloat \<Rightarrow> bool" where
  "feq (Fin x) (Fin y) = (x = y)"
| "feq _ _ = False"

definition fne :: "pyfloat \<Rightarrow> pyfloat \<Rightarrow> bool" where
  "fne a b = (\<not> feq a b)"

fun flt :: "pyfloat \<Rightarrow> pyfloat \<Rightarrow> bool" where
  "flt (Fin x) (Fin y) = (x < y)"
| "flt _ _ = False"

definition fgt :: "pyfloat \<Rightarrow> pyfloat \<Rightarrow> bool" where
  "fgt a b = flt b a"

fun fadd :: "pyfloat \<Rightarrow> pyfloat \<Rightarrow> pyfloat" where
  "fadd (Fin x) (Fin y) = Fin (x + y)"
| "fadd _ _ = NaN"

fun fsub :: "pyfloat \<Rightarrow> pyfloat \<Rightarrow> pyfloat" where
  "fsub (Fin x) (Fin y) = Fin (x - y)"
| "fsub _ _ = NaN"

fun fmul :: "pyfloat \<Rightarrow> pyfloat \<Rightarrow> pyfloat" where
  "fmul (Fin x) (Fin y) = Fin (x * y)"
| "fmul _ _ = NaN"

text \<open>Float division raises \<open>ZeroDivisionError\<close> on a zero divisor, also for a
  not-a-number dividend.\<close>

fun fdiv :: "pyfloat \<Rightarrow> pyfloat \<Rightarrow> error + pyfloat" where
  "fdiv a (Fin y) =
     (if y = 0 then Inl ZeroDivisionError
      else (case a of Fin x \<Rightarrow> Inr (Fin (x / y)) | NaN \<Rightarrow> Inr NaN))"
| "fdiv a NaN = Inr NaN"

text \<open>\<open>x in (None, 0)\<close> for an optional float.\<close>

fun in_None_0 :: "pyfloat option \<Rightarrow> bool" where
  "in_None_0 None = True"
| "in_None_0 (Some v) = feq v (Fin 0)"

text \<open>\<open>x or float("nan")\<close> for an optional float: \<open>None\<close> and zero are falsy, the
  sentinel is truthy.\<close>

fun or_nan :: "pyfloat option \<Rightarrow> pyfloat" where
  "or_nan None = NaN"
| "or_nan (Some v) = (if feq v (Fin 0) then NaN else v)"

text \<open>\<open>str.upper()\<close>, on ASCII text: a string is a list of 8-bit characters, so letters
  beyond ASCII are outside the model.\<close>

definition upper_char :: "char \<Rightarrow> char" where
  "upper_char c =
     (case map_of (zip ''abcdefghijklmnopqrstuvwxyz'' ''ABCDEFGHIJKLMNOPQRSTUVWXYZ'') c of
        None \<Rightarrow> c
      | Some u \<Rightarrow> u)"

definition upper :: "string \<Rightarrow> string" where
  "upper s = map upper_char s"

section \<open>Data model\<close>

record Holding =
  symbol :: string
  shares :: pyfloat
  currency :: "string option"

record Row =
  symbol :: string
  shares :: pyfloat
  currency :: string
  usd_price :: pyfloat
  usd_value :: pyfloat
  jpy_price :: pyfloat
  jpy_value :: pyfloat
  per :: pyfloat
  usd_mom :: pyfloat
  usd_dod :: pyfloat
  jpy_mom :: pyfloat
  jpy_dod :: pyfloat
  usd_yoy :: pyfloat
  jpy_yoy :: pyfloat
  company_name :: "string option"

text \<open>
  The methods of \<open>YFinanceProvider\<close> that the valuation uses are network calls: each is a
  parameter here. The outer \<open>None\<close> of a result says that the call raised an exception
  (which every caller below swallows), the inner one is the method's own \<open>None\<close>.
  \<open>get_monthly_series\<close> is called outside any \<open>try\<close> by the monthly dataset builder, so
  it carries its error.
\<close>

record YFinanceProvider =
  previous_day_close :: "string \<Rightarrow> pyfloat option option"
  previous_month_close :: "string \<Rightarrow> pyfloat option option"
  previous_year_close :: "string \<Rightarrow> pyfloat option option"
  get_name :: "string \<Rightarrow> string option option"
  get_per :: "string \<Rightarrow> pyfloat option option"
  get_monthly_series :: "string \<Rightarrow> int \<Rightarrow> error + (string \<times> pyfloat) list"

section \<open>Valuation engine: \<open>build_rows\<close>\<close>

text \<open>\<open>(h.currency or "USD").upper()\<close>: an absent or empty currency is falsy.\<close>

definition ccy_of :: "Holding \<Rightarrow> string" where
  "ccy_of h =
     upper (case Holding.currency h of None \<Rightarrow> ''USD''
            | Some c \<Rightarrow> if c = [] then ''USD'' else c)"

text \<open>The local function \<open>pct\<close>. Its division cannot fail, the divisor being checked
  against zero first; the \<open>except\<close> branch gives the sentinel all the same.\<close>

definition pct :: "pyfloat option \<Rightarrow> pyfloat option \<Rightarrow> pyfloat" where
  "pct cur prev =
     (case (cur, prev) of
        (Some c, Some p) \<Rightarrow>
          if in_None_0 prev \<or> fne p p \<or> fne c c then NaN
          else (case fdiv (fsub c p) p of Inl e \<Rightarrow> NaN | Inr v \<Rightarrow> v)
      | _ \<Rightarrow> NaN)"

text \<open>The previous closes of a holding in both currencies, converted with the previous
  FX rate of the same period: \<open>None\<close> when the close or the rate is unavailable.\<close>

definition conv_mul :: "pyfloat option \<Rightarrow> pyfloat option \<Rightarrow> pyfloat option" where
  "conv_mul prev fx_prev =
     (case prev of None \<Rightarrow> None
      | Some p \<Rightarrow> if in_None_0 fx_prev then None else Some (fmul p (the fx_prev)))"

definition conv_div :: "pyfloat option \<Rightarrow> pyfloat option \<Rightarrow> pyfloat option option" where
  "conv_div prev fx_prev =
     (case prev of None \<Rightarrow> Some None
      | Some p \<Rightarrow> if in_None_0 fx_prev then Some None
                  else (case fdiv p (the fx_prev) of Inl e \<Rightarrow> None | Inr v \<Rightarrow> Some (Some v)))"

text \<open>The six change metrics of one holding, in the order
  \<open>(usd_mom, usd_dod, jpy_mom, jpy_dod, usd_yoy, jpy_yoy)\<close>. Any exception inside the
  \<open>try\<close> leaves all six at the sentinel: they are assigned after the last call that can
  raise.\<close>

definition changes ::
  "YFinanceProvider \<Rightarrow> pyfloat option \<Rightarrow> pyfloat option \<Rightarrow> pyfloat option \<Rightarrow>
   string \<Rightarrow> string \<Rightarrow> pyfloat \<Rightarrow> pyfloat \<Rightarrow>
   pyfloat \<times> pyfloat \<times> pyfloat \<times> pyfloat \<times> pyfloat \<times> pyfloat" where
  "changes p fx_d fx_m fx_y ticker ccy usd_p jpy_p =
     (case (do {
         d \<leftarrow> previous_day_close p ticker;
         m \<leftarrow> previous_month_close p ticker;
         y \<leftarrow> previous_year_close p ticker;
         if ccy = ''USD'' then
           Some (d, m, y, conv_mul d fx_d, conv_mul m fx_m, conv_mul y fx_y)
         else do {
           du \<leftarrow> conv_div d fx_d;
           mu \<leftarrow> conv_div m fx_m;
           yu \<leftarrow> conv_div y fx_y;
           Some (du, mu, yu, d, m, y)
         }
       }) of
        None \<Rightarrow> (NaN, NaN, NaN, NaN, NaN, NaN)
      | Some (d_usd, m_usd, y_usd, d_jpy, m_jpy, y_jpy) \<Rightarrow>
          (pct (Some usd_p) m_usd, pct (Some usd_p) d_usd,
           pct (Some jpy_p) m_jpy, pct (Some jpy_p) d_jpy,
           pct (Some usd_p) y_usd, pct (Some jpy_p) y_jpy))"

text \<open>The state of the loop over the holdings: the rows so far, the two running totals
  and the cache of company names.\<close>

record build_state =
  rows :: "Row list"
  total_usd :: pyfloat
  total_jpy :: pyfloat
  name_cache :: "string \<rightharpoonup> string option"

text \<open>One iteration of the loop. The unsupported currency is raised before anything of
  the holding is computed.\<close>

definition build_row ::
  "YFinanceProvider option \<Rightarrow> pyfloat option \<Rightarrow> pyfloat option \<Rightarrow> pyfloat option \<Rightarrow>
   (string \<rightharpoonup> pyfloat) \<Rightarrow> pyfloat option \<Rightarrow> build_state \<Rightarrow> Holding \<Rightarrow> error + build_state" where
  "build_row provider fx_d fx_m fx_y prices usd_jpy st h =
     (let price = (case prices (Holding.symbol h) of None \<Rightarrow> NaN | Some v \<Rightarrow> v);
          ccy = ccy_of h
      in if ccy \<noteq> ''USD'' \<and> ccy \<noteq> ''JPY'' then
           Inl (ValueError (Holding.symbol h @ '' currency='' @ ccy))
         else
           (case (if ccy = ''USD'' then Inr (price, fmul price (or_nan usd_jpy))
                  else if in_None_0 usd_jpy then Inr (NaN, price)
                  else (case fdiv price (the usd_jpy) of
                          Inl e \<Rightarrow> Inl e | Inr u \<Rightarrow> Inr (u, price))) of
              Inl e \<Rightarrow> Inl e
            | Inr (usd_p, jpy_p) \<Rightarrow>
               (let usd_v = fmul (Holding.shares h) usd_p;
                    jpy_v = fmul (Holding.shares h) jpy_p;
                    (u_mom, u_dod, j_mom, j_dod, u_yoy, j_yoy) =
                      (case provider of
                         None \<Rightarrow> (NaN, NaN, NaN, NaN, NaN, NaN)
                       | Some p \<Rightarrow>
                           changes p fx_d fx_m fx_y (Holding.symbol h) ccy usd_p jpy_p);
                    (comp_name, cache) =
                      (case provider of
                         None \<Rightarrow> (None, name_cache st)
                       | Some p \<Rightarrow>
                           (case name_cache st (Holding.symbol h) of
                              Some n \<Rightarrow> (n, name_cache st)
                            | None \<Rightarrow>
                                (let n = (case get_name p (Holding.symbol h) of
                                            None \<Rightarrow> None | Some r \<Rightarrow> r)
                                 in (n, (name_cache st)(Holding.symbol h \<mapsto> n)))));
                    per_val =
                      (case provider of
                         None \<Rightarrow> NaN
                       | Some p \<Rightarrow> (case get_per p (Holding.symbol h) of
                                     Some (Some pv) \<Rightarrow> pv | _ \<Rightarrow> NaN))
                in Inr \<lparr> rows = rows st @
                     [\<lparr> Row.symbol = Holding.symbol h, Row.shares = Holding.shares h,
                        Row.currency = ccy, usd_price = usd_p, usd_value = usd_v,
                        jpy_price = jpy_p, jpy_value = jpy_v, per = per_val,
                        usd_mom = u_mom, usd_dod = u_dod, jpy_mom = j_mom, jpy_dod = j_dod,
                        usd_yoy = u_yoy, jpy_yoy = j_yoy, company_name = comp_name \<rparr>],
                   total_usd = fadd (total_usd st) usd_v,
                   total_jpy = fadd (total_jpy st) jpy_v,
                   name_cache = cache \<rparr>)))"

fun build_rows_loop ::
  "YFinanceProvider option \<Rightarrow> pyfloat option \<Rightarrow> pyfloat option \<Rightarrow> pyfloat option \<Rightarrow>
   (string \<rightharpoonup> pyfloat) \<Rightarrow> pyfloat option \<Rightarrow> build_state \<Rightarrow> Holding list \<Rightarrow> error + build_state" where
  "build_rows_loop provider fx_d fx_m fx_y prices usd_jpy st [] = Inr st"
| "build_rows_loop provider fx_d fx_m fx_y prices usd_jpy st (h # hs) =
     (case build_row provider fx_d fx_m fx_y prices usd_jpy st h of
        Inl e \<Rightarrow> Inl e
      | Inr st' \<Rightarrow> build_rows_loop provider fx_d fx_m fx_y prices usd_jpy st' hs)"

text \<open>The previous FX closes are fetched once, before the loop; a call that raises gives
  \<open>None\<close>. The provider is \<open>None\<close> here when it is not a \<open>YFinanceProvider\<close>.\<close>

definition fx_prev :: "(string \<Rightarrow> pyfloat option option) \<Rightarrow> pyfloat option" where
  "fx_prev f = (case f ''USDJPY=X'' of None \<Rightarrow> None | Some r \<Rightarrow> r)"

definition build_rows ::
  "Holding list \<Rightarrow> (string \<rightharpoonup> pyfloat) \<Rightarrow> pyfloat option \<Rightarrow> YFinanceProvider option \<Rightarrow>
   error + (Row list \<times> pyfloat \<times> pyfloat)" where
  "build_rows holdings prices usd_jpy provider =
     (let fx_d = (case provider of None \<Rightarrow> None | Some p \<Rightarrow> fx_prev (previous_day_close p));
          fx_m = (case provider of None \<Rightarrow> None | Some p \<Rightarrow> fx_prev (previous_month_close p));
          fx_y = (case provider of None \<Rightarrow> None | Some p \<Rightarrow> fx_prev (previous_year_close p))
      in case build_rows_loop provider fx_d fx_m fx_y prices usd_jpy
                \<lparr> rows = [], total_usd = Fin 0, total_jpy = Fin 0, name_cache = Map.empty \<rparr>
                holdings of
           Inl e \<Rightarrow> Inl e
         | Inr st \<Rightarrow> Inr (rows st, total_usd st, total_jpy st))"

text \<open>What one row has to be for one holding: the relation between the input and the
  output of one iteration, used to state the properties of the loop.\<close>

definition row_matches ::
  "(string \<rightharpoonup> pyfloat) \<Rightarrow> pyfloat option \<Rightarrow> Holding \<Rightarrow> Row \<Rightarrow> bool" where
  "row_matches prices usd_jpy h r =
     (Row.symbol r = Holding.symbol h \<and> Row.shares r = Holding.shares h \<and>
      Row.currency r = ccy_of h \<and> (ccy_of h = ''USD'' \<or> ccy_of h = ''JPY'') \<and>
      usd_value r = fmul (Holding.shares h) (usd_price r) \<and>
      jpy_value r = fmul (Holding.shares h) (jpy_price r) \<and>
      (if ccy_of h = ''USD'' then
         usd_price r = (case prices (Holding.symbol h) of None \<Rightarrow> NaN | Some v \<Rightarrow> v) \<and>
         jpy_price r = fmul (usd_price r) (or_nan usd_jpy)
       else
         jpy_price r = (case prices (Holding.symbol h) of None \<Rightarrow> NaN | Some v \<Rightarrow> v) \<and>
         (if in_None_0 usd_jpy then usd_price r = NaN
          else fdiv (jpy_price r) (the usd_jpy) = Inr (usd_price r))))"

text \<open>The scenario of the specification: ten shares of a USD stock at 150, five shares of
  a JPY stock at 3000, and a rate of 150.\<close>

definition example_holdings :: "Holding list" where
  "example_holdings =
     [\<lparr> Holding.symbol = ''AAPL'', Holding.shares = Fin 10, Holding.currency = Some ''USD'' \<rparr>,
      \<lparr> Holding.symbol = ''7203.T'', Holding.shares = Fin 5, Holding.currency = Some ''JPY'' \<rparr>]"

definition example_prices :: "string \<rightharpoonup> pyfloat" where
  "example_prices = [''AAPL'' \<mapsto> Fin 150, ''7203.T'' \<mapsto> Fin 3000]"

definition plain_row :: "string \<Rightarrow> pyfloat \<Rightarrow> string \<Rightarrow> pyfloat \<Rightarrow> pyfloat \<Rightarrow> pyfloat \<Rightarrow> pyfloat \<Rightarrow> Row" where
  "plain_row s n c up uv jp jv =
     \<lparr> Row.symbol = s, Row.shares = n, Row.currency = c, usd_price = up, usd_value = uv,
       jpy_price = jp, jpy_value = jv, per = NaN, usd_mom = NaN, usd_dod = NaN,
       jpy_mom = NaN, jpy_dod = NaN, usd_yoy = NaN, jpy_yoy = NaN, company_name = None \<rparr>"

definition example_rows :: "Row list" where
  "example_rows =
     [plain_row ''AAPL'' (Fin 10) ''USD'' (Fin 150) (Fin 1500) (Fin 22500) (Fin 225000),
      plain_row ''7203.T'' (Fin 5) ''JPY'' (Fin 20) (Fin 100) (Fin 3000) (Fin 15000)]"

text \<open>A list with a holding in euros between two supported ones, and a list that holds
  the same symbol twice, the second time without a currency.\<close>

definition example_eur_holdings :: "Holding list" where
  "example_eur_holdings =
     [\<lparr> Holding.symbol = ''AAPL'', Holding.shares = Fin 10, Holding.currency = Some ''USD'' \<rparr>,
      \<lparr> Holding.symbol = ''SAP.DE'', Holding.shares = Fin 2, Holding.currency = Some ''eur'' \<rparr>,
      \<lparr> Holding.symbol = ''7203.T'', Holding.shares = Fin 5, Holding.currency = Some ''JPY'' \<rparr>]"

definition example_dup_holdings :: "Holding list" where
  "example_dup_holdings =
     [\<lparr> Holding.symbol = ''AAPL'', Holding.shares = Fin 10, Holding.currency = Some ''usd'' \<rparr>,
      \<lparr> Holding.symbol = ''AAPL'', Holding.shares = Fin 3, Holding.currency = None \<rparr>]"

definition example_dup_rows :: "Row list" where
  "example_dup_rows =
     [plain_row ''AAPL'' (Fin 10) ''USD'' (Fin 150) (Fin 1500) (Fin 22500) (Fin 225000),
      plain_row ''AAPL'' (Fin 3) ''USD'' (Fin 150) (Fin 450) (Fin 22500) (Fin 67500)]"

section \<open>Formatting\<close>

text \<open>\<open>round(x)\<close> rounds a half to the even neighbour, and so does the fixed-point
  formatting of a float.\<close>

definition round_half_even :: "real \<Rightarrow> int" where
  "round_half_even x =
     (let f = \<lfloor>x\<rfloor>; d = x - of_int f
      in if d < 1/2 then f else if 1/2 < d then f + 1 else if even f then f else f + 1)"

text \<open>\<open>int(round(x))\<close>: the sentinel cannot be converted.\<close>

definition int_round :: "pyfloat \<Rightarrow> error + int" where
  "int_round x =
     (case x of NaN \<Rightarrow> Inl (ValueError ''cannot convert float NaN to integer'')
      | Fin v \<Rightarrow> Inr (round_half_even v))"

definition digit_char :: "nat \<Rightarrow> char" where
  "digit_char n = ''0123456789'' ! n"

fun nat_digits :: "nat \<Rightarrow> string" where
  "nat_digits n =
     (if n < 10 then [digit_char n]
      else nat_digits (n div 10) @ [digit_char (n mod 10)])"

declare nat_digits.simps [simp del]

text \<open>The thousands separator of the format specifier \<open>,\<close>: a comma before every group
  of three digits, counted from the right.\<close>

fun group3_rev :: "string \<Rightarrow> string" where
  "group3_rev (a # b # c # d # rest) = a # b # c # CHR '','' # group3_rev (d # rest)"
| "group3_rev ds = ds"

definition group3 :: "string \<Rightarrow> string" where
  "group3 ds = rev (group3_rev (rev ds))"

text \<open>\<open>f"{i:,}"\<close> and \<open>str(i)\<close> for an integer.\<close>

definition fmt_int :: "bool \<Rightarrow> int \<Rightarrow> string" where
  "fmt_int comma i =
     (if i < 0 then ''-'' else '''') @
     (if comma then group3 (nat_digits (nat \<bar>i\<bar>)) else nat_digits (nat \<bar>i\<bar>))"

text \<open>\<open>f"{x:.df}"\<close> and, with the separator, \<open>f"{x:,.df}"\<close>: \<open>d\<close> decimals, the sign of a
  negative value kept also when it rounds to zero, and \<open>nan\<close> for the sentinel. The
  digits are those of the absolute value, scaled by \<open>10 ^ d\<close> and rounded.\<close>

definition fmt_scaled :: "nat \<Rightarrow> bool \<Rightarrow> bool \<Rightarrow> nat \<Rightarrow> string" where
  "fmt_scaled d comma neg n =
     (if neg then ''-'' else '''') @
     (if comma then group3 (nat_digits (n div 10 ^ d)) else nat_digits (n div 10 ^ d)) @
     (if d = 0 then ''''
      else ''.'' @ replicate (d - length (nat_digits (n mod 10 ^ d))) (CHR ''0'') @
           nat_digits (n mod 10 ^ d))"

definition fmt_fixed :: "nat \<Rightarrow> bool \<Rightarrow> pyfloat \<Rightarrow> string" where
  "fmt_fixed d comma x =
     (case x of
        NaN \<Rightarrow> ''nan''
      | Fin v \<Rightarrow> fmt_scaled d comma (v < 0) (nat (round_half_even (\<bar>v\<bar> * 10 ^ d))))"

text \<open>\<open>"" if x != x else f"{x:...}"\<close>, the display of a value that may be missing.\<close>

definition disp :: "nat \<Rightarrow> bool \<Rightarrow> pyfloat \<Rightarrow> string" where
  "disp d comma x = (if fne x x then '''' else fmt_fixed d comma x)"

text \<open>\<open>sep.join(parts)\<close>.\<close>

fun join :: "string \<Rightarrow> string list \<Rightarrow> string" where
  "join sep [] = ''''"
| "join sep [x] = x"
| "join sep (x # y # ys) = x @ sep @ join sep (y # ys)"

definition newline :: string where
  "newline = [CHR 0x0A]"

section \<open>Plain-text report: \<open>format_report\<close>\<close>

text \<open>One line of the table. The share count is converted first, and that conversion
  raises for a share count that is not a number.\<close>

definition report_row_line :: "Row \<Rightarrow> error + string" where
  "report_row_line r =
     (case int_round (Row.shares r) of
        Inl e \<Rightarrow> Inl e
      | Inr n \<Rightarrow>
          Inr (''| '' @ Row.symbol r @ '' | '' @ fmt_int True n @ '' | '' @
               disp 2 True (usd_price r) @ '' | '' @ disp 2 True (usd_value r) @ '' | '' @
               disp 0 True (jpy_price r) @ '' | '' @ disp 0 True (jpy_value r) @ '' |''))"

text \<open>The loop over the rows: the state is the list of lines and the two running totals.
  Both totals are increased by the row's values before anything else, without a test.\<close>

fun format_report_loop ::
  "Row list \<Rightarrow> string list \<times> pyfloat \<times> pyfloat \<Rightarrow> error + string list \<times> pyfloat \<times> pyfloat" where
  "format_report_loop [] st = Inr st"
| "format_report_loop (r # rs) (ls, tu, tj) =
     (let tu' = fadd tu (usd_value r);
          tj' = fadd tj (jpy_value r)
      in case report_row_line r of
           Inl e \<Rightarrow> Inl e
         | Inr l \<Rightarrow> format_report_loop rs (ls @ [l], tu', tj'))"

text \<open>The report and the pair of totals. The title line (which carries the time of the
  run) and the label of the FX line are Japanese text in the source: both are parameters.\<close>

definition format_report ::
  "string \<Rightarrow> string \<Rightarrow> Row list \<Rightarrow> pyfloat option \<Rightarrow> error + string \<times> pyfloat \<times> pyfloat" where
  "format_report header fx_label rs usd_jpy =
     (case format_report_loop rs
             ([header, '''',
               ''| SYMBOL | SHARES | USD_PRICE | USD_VALUE | JPY_PRICE | JPY_VALUE |'',
               ''|:------ | -----:| ---------:| ---------:| ---------:| ---------:|''],
              Fin 0, Fin 0) of
        Inl e \<Rightarrow> Inl e
      | Inr (ls, tu, tj) \<Rightarrow>
          (let ls1 = ls @ [''| TOTAL |  |  | '' @ fmt_fixed 2 True tu @ '' |  | '' @
                           fmt_fixed 0 True tj @ '' |''];
               ls2 = (case usd_jpy of
                        None \<Rightarrow> ls1
                      | Some v \<Rightarrow> ls1 @ ['''', fx_label @ fmt_fixed 4 True v])
           in Inr (join newline ls2, tu, tj)))"

section \<open>HTML report: \<open>format_report_html\<close> without a monthly dataset\<close>

text \<open>
  \<open>main\<close> calls the HTML renderer with \<open>monthly_dataset=None\<close> and
  \<open>monthly_csv_text=None\<close>; this is the call modelled here, so the branch over the rows
  is the one taken and no data block is embedded. The document is a fixed template; the
  model keeps the parts of it that depend on the input.
\<close>

record html_state =
  rows_html_jpy :: "string list"
  rows_html_usd :: "string list"
  total_usd_overall :: pyfloat
  total_jpy_overall :: pyfloat
  total_usd_jpy_tbl :: pyfloat
  total_jpy_jpy_tbl :: pyfloat
  total_usd_usd_tbl :: pyfloat
  total_jpy_usd_tbl :: pyfloat

text \<open>The local function \<open>_fmt_pct\<close>.\<close>

definition fmt_pct :: "pyfloat \<Rightarrow> string" where
  "fmt_pct p =
     (if fne p p then ''''
      else (if fgt p (Fin 0) then ''+'' else if feq p (Fin 0) then '''' else ''-'') @
           fmt_fixed 1 False (fmul (case p of Fin v \<Rightarrow> Fin \<bar>v\<bar> | NaN \<Rightarrow> NaN) (Fin 100)) @
           ''%'')"

text \<open>
  The local function \<open>_pct_td\<close>, up to its last \<open>return\<close>. In the source the statements
  that build \<open>name_html\<close> and \<open>row_html\<close> are indented into the body of \<open>_pct_td\<close>, after
  that \<open>return\<close>: they are never executed, and \<open>row_html\<close> is a local name of
  \<open>_pct_td\<close>, not of the loop body. \<open>_pct_td\<close> itself is called only from those
  statements.
\<close>

definition pct_td :: "string \<Rightarrow> pyfloat \<Rightarrow> string" where
  "pct_td label_val numeric_val =
     (if label_val = '''' then ''<td data-value='' @ [CHR 0x27, CHR 0x27] @ ''></td>''
      else ''<td data-value='' @ [CHR 0x27] @ fmt_fixed 6 False numeric_val @ [CHR 0x27] @
           ''><span class='chg'><span class='' @ [CHR 0x27] @
           (if fgt numeric_val (Fin 0) then ''up''
            else if flt numeric_val (Fin 0) then ''down'' else '''') @ [CHR 0x27] @
           ''>'' @ label_val @ ''</span></span></td>'')"

text \<open>Reading the name \<open>row_html\<close> in the loop body: the name is bound neither in
  \<open>format_report_html\<close> nor in the module, so the read raises \<open>NameError\<close>.\<close>

definition read_row_html :: "error + string" where
  "read_row_html = Inl (NameError ''row_html'')"

text \<open>One iteration of the loop over the rows: the overall totals, the display strings
  (of which only the share count can raise), then the append of \<open>row_html\<close> to the table
  of the row's currency.\<close>

definition html_row_step :: "html_state \<Rightarrow> Row \<Rightarrow> error + html_state" where
  "html_row_step st r =
     (let st1 = st \<lparr> total_usd_overall := fadd (total_usd_overall st) (usd_value r),
                     total_jpy_overall := fadd (total_jpy_overall st) (jpy_value r) \<rparr>
      in case int_round (Row.shares r) of
           Inl e \<Rightarrow> Inl e
         | Inr n \<Rightarrow>
             (let shares_disp = fmt_int True n;
                  per_disp = disp 1 False (per r);
                  usd_price_disp = disp 2 True (usd_price r);
                  usd_value_disp = disp 2 True (usd_value r);
                  jpy_price_disp = disp 0 True (jpy_price r);
                  jpy_value_disp = disp 0 True (jpy_value r);
                  usd_yoy_s = fmt_pct (usd_yoy r);
                  usd_mom_s = fmt_pct (usd_mom r);
                  usd_dod_s = fmt_pct (usd_dod r);
                  jpy_yoy_s = fmt_pct (jpy_yoy r);
                  jpy_mom_s = fmt_pct (jpy_mom r);
                  jpy_dod_s = fmt_pct (jpy_dod r)
              in if upper (Row.currency r) = ''JPY'' then
                   (case read_row_html of
                      Inl e \<Rightarrow> Inl e
                    | Inr row_html \<Rightarrow>
                        Inr (st1 \<lparr> rows_html_jpy := rows_html_jpy st1 @ [row_html],
                                   total_usd_jpy_tbl := fadd (total_usd_jpy_tbl st1) (usd_value r),
                                   total_jpy_jpy_tbl := fadd (total_jpy_jpy_tbl st1) (jpy_value r) \<rparr>))
                 else
                   (case read_row_html of
                      Inl e \<Rightarrow> Inl e
                    | Inr row_html \<Rightarrow>
                        Inr (st1 \<lparr> rows_html_usd := rows_html_usd st1 @ [row_html],
                                   total_usd_usd_tbl := fadd (total_usd_usd_tbl st1) (usd_value r),
                                   total_jpy_usd_tbl := fadd (total_jpy_usd_tbl st1) (jpy_value r) \<rparr>))))"

fun html_rows_loop :: "html_state \<Rightarrow> Row list \<Rightarrow> error + html_state" where
  "html_rows_loop st [] = Inr st"
| "html_rows_loop st (r # rs) =
     (case html_row_step st r of Inl e \<Rightarrow> Inl e | Inr st' \<Rightarrow> html_rows_loop st' rs)"

text \<open>The local function \<open>_footer_row\<close>: thirteen cells, the label in the first, the
  totals in the cells of USD_VALUE and JPY_VALUE.\<close>

definition footer_row :: "string \<Rightarrow> pyfloat \<Rightarrow> pyfloat \<Rightarrow> string" where
  "footer_row label usd_total jpy_total =
     ''<tr>'' @
     concat ((replicate 13 ''<td></td>'')
               [0 := ''<td style='text-align:left'>'' @ label @ ''</td>'',
                7 := ''<td>'' @ fmt_fixed 2 True usd_total @ ''</td>'',
                12 := ''<td>'' @ fmt_fixed 0 True jpy_total @ ''</td>'']) @
     ''</tr>''"

text \<open>The parts of the document that depend on the input: the bodies and the totals rows
  of the table of JPY holdings and of the table of USD holdings, the row of the overall
  totals table, and the FX paragraph.\<close>

record html_doc =
  tbody_jpy :: string
  total_row_jpy :: string
  tbody_usd :: string
  total_row_usd :: string
  overall_total_row :: string
  fx_html :: string

definition format_report_html :: "string \<Rightarrow> Row list \<Rightarrow> pyfloat option \<Rightarrow> error + html_doc" where
  "format_report_html fx_label rs usd_jpy =
     (case html_rows_loop
             \<lparr> rows_html_jpy = [], rows_html_usd = [],
               total_usd_overall = Fin 0, total_jpy_overall = Fin 0,
               total_usd_jpy_tbl = Fin 0, total_jpy_jpy_tbl = Fin 0,
               total_usd_usd_tbl = Fin 0, total_jpy_usd_tbl = Fin 0 \<rparr> rs of
        Inl e \<Rightarrow> Inl e
      | Inr st \<Rightarrow>
          Inr \<lparr> tbody_jpy = ''<tbody>'' @ concat (rows_html_jpy st) @ ''</tbody>'',
                total_row_jpy = footer_row ''TOTAL'' (total_usd_jpy_tbl st) (total_jpy_jpy_tbl st),
                tbody_usd = concat (rows_html_usd st),
                total_row_usd = footer_row ''TOTAL'' (total_usd_usd_tbl st) (total_jpy_usd_tbl st),
                overall_total_row =
                  footer_row ''OVERALL TOTAL'' (total_usd_overall st) (total_jpy_overall st),
                fx_html =
                  (case usd_jpy of
                     None \<Rightarrow> ''<p id='fx-rate' class='muted'></p>''
                   | Some v \<Rightarrow> ''<p id='fx-rate' class='muted'>'' @ fx_label @
                               fmt_fixed 4 True v @ ''</p>'') \<rparr>)"

text \<open>Two rows of which the second has no price: its values are the sentinel.\<close>

definition example_nan_rows :: "Row list" where
  "example_nan_rows =
     [plain_row ''AAPL'' (Fin 10) ''USD'' (Fin 150) (Fin 1500) (Fin 22500) (Fin 225000),
      plain_row ''MSFT'' (Fin 1) ''USD'' NaN NaN NaN NaN]"

definition example_nan_holdings :: "Holding list" where
  "example_nan_holdings =
     [\<lparr> Holding.symbol = ''AAPL'', Holding.shares = Fin 10, Holding.currency = Some ''USD'' \<rparr>,
      \<lparr> Holding.symbol = ''MSFT'', Holding.shares = Fin 1, Holding.currency = Some ''USD'' \<rparr>]"

section \<open>Sorting: \<open>list.sort\<close>\<close>

text \<open>
  \<open>rows.sort(key=..., reverse=...)\<close> compares keys with \<open><\<close> only, and with a key that
  is not a number every such comparison is false, so the result depends on the
  comparisons that the algorithm makes. The model follows the sort of CPython
  (\<open>listsort\<close>, \<open>count_run\<close> and \<open>binarysort\<close>) for a list of fewer than 64 elements: the
  longest run at the start of the list is taken (reversed when it is strictly
  descending), and every later element is inserted into it by binary search. For a
  longer list CPython merges several such runs; on keys that are all numbers the result
  is the same, the result of a stable sort being unique.
\<close>

fun count_asc :: "('a \<Rightarrow> 'a \<Rightarrow> bool) \<Rightarrow> 'a \<Rightarrow> 'a list \<Rightarrow> nat" where
  "count_asc lt prev [] = 0"
| "count_asc lt prev (x # xs) = (if lt x prev then 0 else Suc (count_asc lt x xs))"

fun count_desc :: "('a \<Rightarrow> 'a \<Rightarrow> bool) \<Rightarrow> 'a \<Rightarrow> 'a list \<Rightarrow> nat" where
  "count_desc lt prev [] = 0"
| "count_desc lt prev (x # xs) = (if lt x prev then Suc (count_desc lt x xs) else 0)"

text \<open>The length of the run at the start of the list, and whether it is descending.\<close>

fun count_run :: "('a \<Rightarrow> 'a \<Rightarrow> bool) \<Rightarrow> 'a list \<Rightarrow> nat \<times> bool" where
  "count_run lt [] = (0, False)"
| "count_run lt [x] = (1, False)"
| "count_run lt (x # y # zs) =
     (if lt y x then (2 + count_desc lt y zs, True) else (2 + count_asc lt y zs, False))"

text \<open>The binary search of \<open>binarysort\<close> for the place of \<open>pivot\<close> in the sorted slice
  \<open>xs[l:r]\<close>. It is entered with \<open>l < r\<close> only.\<close>

function bsearch :: "('a \<Rightarrow> 'a \<Rightarrow> bool) \<Rightarrow> 'a \<Rightarrow> 'a list \<Rightarrow> nat \<Rightarrow> nat \<Rightarrow> nat" where
  "bsearch lt pivot xs l r =
     (if l < r then
        (if lt pivot (xs ! (l + (r - l) div 2)) then bsearch lt pivot xs l (l + (r - l) div 2)
         else bsearch lt pivot xs (l + (r - l) div 2 + 1) r)
      else l)"
  by pat_completeness auto
termination
  by (relation "measure (\<lambda>(lt, pivot, xs, l, r). r - l)") auto

declare bsearch.simps [simp del]

definition binary_insert :: "('a \<Rightarrow> 'a \<Rightarrow> bool) \<Rightarrow> 'a list \<Rightarrow> 'a \<Rightarrow> 'a list" where
  "binary_insert lt xs pivot =
     take (bsearch lt pivot xs 0 (length xs)) xs @ [pivot] @
     drop (bsearch lt pivot xs 0 (length xs)) xs"

definition listsort :: "('a \<Rightarrow> 'a \<Rightarrow> bool) \<Rightarrow> 'a list \<Rightarrow> 'a list" where
  "listsort lt xs =
     (if length xs < 2 then xs
      else foldl (binary_insert lt)
             (if snd (count_run lt xs) then rev (take (fst (count_run lt xs)) xs)
              else take (fst (count_run lt xs)) xs)
             (drop (fst (count_run lt xs)) xs))"

text \<open>The keys are computed once and compared with \<open><\<close> on floats. A reverse sort
  reverses the list, sorts it, and reverses the result.\<close>

definition key_lt :: "pyfloat \<times> 'a \<Rightarrow> pyfloat \<times> 'a \<Rightarrow> bool" where
  "key_lt a b = flt (fst a) (fst b)"

definition list_sort :: "('a \<Rightarrow> pyfloat) \<Rightarrow> bool \<Rightarrow> 'a list \<Rightarrow> 'a list" where
  "list_sort key reverse xs =
     (if reverse then map snd (rev (listsort key_lt (rev (map (\<lambda>x. (key x, x)) xs))))
      else map snd (listsort key_lt (map (\<lambda>x. (key x, x)) xs)))"

section \<open>The command line program: \<open>main\<close>\<close>

text \<open>\<open>str.lower()\<close>, \<open>str.strip()\<close> and \<open>str.startswith\<close>, on ASCII text. The white
  space that \<open>strip\<close> removes is the space, the characters 0x09 to 0x0D, the
  separators 0x1C to 0x1F and, beyond ASCII, the next-line character 0x85 and the
  no-break space 0xA0: all the 8-bit characters for which \<open>str.isspace\<close> holds.\<close>

definition lower_char :: "char \<Rightarrow> char" where
  "lower_char c =
     (case map_of (zip ''ABCDEFGHIJKLMNOPQRSTUVWXYZ'' ''abcdefghijklmnopqrstuvwxyz'') c of
        None \<Rightarrow> c
      | Some l \<Rightarrow> l)"

definition lower :: "string \<Rightarrow> string" where
  "lower s = map lower_char s"

definition is_space :: "char \<Rightarrow> bool" where
  "is_space c =
     (c \<in> set [CHR '' '', CHR 0x09, CHR 0x0A, CHR 0x0B, CHR 0x0C, CHR 0x0D,
                CHR 0x1C, CHR 0x1D, CHR 0x1E, CHR 0x1F, CHR 0x85, CHR 0xA0])"

definition strip :: "string \<Rightarrow> string" where
  "strip s = rev (dropWhile is_space (rev (dropWhile is_space s)))"

definition startswith :: "string \<Rightarrow> string \<Rightarrow> bool" where
  "startswith s p = (take (length p) s = p)"

record AlphaVantageConfig =
  api_key :: string

record AppConfig =
  price_provider :: AlphaVantageConfig
  price_provider_type :: string
  currency :: "string option"
  quote_currency :: string

text \<open>The fields of the configuration document that \<open>load_config\<close> reads.\<close>

record raw_config =
  raw_type :: "string option"
  raw_api_key :: "string option"
  raw_currency :: "string option"
  raw_quote_currency :: "string option"

text \<open>\<open>x or default\<close> for an optional string: \<open>None\<close> and the empty string are falsy.\<close>

definition str_or :: "string option \<Rightarrow> string \<Rightarrow> string" where
  "str_or x d = (case x of None \<Rightarrow> d | Some s \<Rightarrow> if s = [] then d else s)"

text \<open>
  \<open>load_config\<close>, from the outcome of reading and parsing the file and from the value of
  the environment variable \<open>PN_ALPHA_VANTAGE_KEY\<close>, which comes before the key of the
  document. The messages of the two configuration errors are Japanese text in the source.
\<close>

definition load_config :: "error + raw_config \<Rightarrow> string option \<Rightarrow> error + AppConfig" where
  "load_config file env_key =
     (case file of
        Inl e \<Rightarrow> Inl e
      | Inr raw \<Rightarrow>
          (if lower (str_or (raw_type raw) ''yfinance'') = ''alpha_vantage'' \<and>
              str_or (case env_key of None \<Rightarrow> raw_api_key raw | Some k \<Rightarrow> Some k) [] = []
           then Inl (ValueError ''Alpha Vantage api_key is not set'')
           else if lower (str_or (raw_type raw) ''yfinance'') = ''alpha_vantage'' \<and>
              startswith
                (upper (strip (str_or (case env_key of None \<Rightarrow> raw_api_key raw
                                       | Some k \<Rightarrow> Some k) [])))
                ''YOUR_''
           then Inl (ValueError ''Alpha Vantage api_key is a placeholder'')
           else Inr \<lparr> price_provider =
                        \<lparr> api_key = str_or (case env_key of None \<Rightarrow> raw_api_key raw
                                              | Some k \<Rightarrow> Some k) [] \<rparr>,
                      price_provider_type = lower (str_or (raw_type raw) ''yfinance''),
                      AppConfig.currency = raw_currency raw,
                      quote_currency = upper (str_or (raw_quote_currency raw) ''USD'') \<rparr>))"

text \<open>A provider: its two mandatory calls, which raise when nothing usable is found, and
  the methods of the yfinance variant when it is one.\<close>

record PriceProvider =
  get_price :: "string \<Rightarrow> error + pyfloat"
  get_fx_rate :: "string \<Rightarrow> string \<Rightarrow> error + pyfloat"
  yfinance :: "YFinanceProvider option"

text \<open>\<open>fetch_prices\<close>: every distinct symbol is fetched once, in the order of the
  holdings; the first failing call ends the loop with its error.\<close>

fun fetch_prices_loop ::
  "PriceProvider \<Rightarrow> (string \<rightharpoonup> pyfloat) \<Rightarrow> Holding list \<Rightarrow> error + (string \<rightharpoonup> pyfloat)" where
  "fetch_prices_loop provider prices [] = Inr prices"
| "fetch_prices_loop provider prices (h # hs) =
     (if Holding.symbol h \<in> dom prices then fetch_prices_loop provider prices hs
      else (case get_price provider (Holding.symbol h) of
              Inl e \<Rightarrow> Inl e
            | Inr p \<Rightarrow> fetch_prices_loop provider (prices(Holding.symbol h \<mapsto> p)) hs))"

definition fetch_prices :: "PriceProvider \<Rightarrow> Holding list \<Rightarrow> error + (string \<rightharpoonup> pyfloat)" where
  "fetch_prices provider holdings = fetch_prices_loop provider Map.empty holdings"

text \<open>The parsed command line.\<close>

record args =
  config :: string
  portfolio_url :: string
  sort_by :: string
  sort_order :: string
  save_html :: "string option"

text \<open>
  Everything outside the program that \<open>main\<close> reads or calls: the configuration file, the
  environment variable, the portfolio API (by URL and default currency), the constructors
  of the two providers, the writing of the HTML file (\<open>None\<close> when it succeeds), and the two
  pieces of text that the reports take as parameters here.
\<close>

record world =
  read_config :: "string \<Rightarrow> error + raw_config"
  getenv_key :: "string option"
  load_portfolio_api :: "string \<Rightarrow> string \<Rightarrow> error + Holding list"
  new_YFinanceProvider :: "error + PriceProvider"
  new_AlphaVantageProvider :: "string \<Rightarrow> error + PriceProvider"
  write_html :: "string \<Rightarrow> html_doc \<Rightarrow> error option"
  report_header :: string
  report_fx_label :: string

text \<open>The sort of the rows in \<open>main\<close>. The key is \<open>float(v)\<close> of the chosen value; that
  conversion raises for no float, so the fallback \<open>float("-inf")\<close> of \<open>key_with_nan\<close>
  is never taken and a value that is not a number is the key as it is.\<close>

definition key_with_nan :: "string \<Rightarrow> Row \<Rightarrow> pyfloat" where
  "key_with_nan col r = (if col = ''usd'' then usd_value r else jpy_value r)"

definition sort_rows :: "string \<Rightarrow> string \<Rightarrow> Row list \<Rightarrow> Row list" where
  "sort_rows col order rs =
     (if col \<noteq> ''none'' then list_sort (key_with_nan col) (order = ''desc'') rs else rs)"

text \<open>The end of the \<open>try\<close> statement of \<open>main\<close>, once both reports are rendered: the
  HTML file is written when asked for (a failure to write is reported and ignored), the
  text report is printed, and the status is zero.\<close>

definition main_finish :: "args \<Rightarrow> world \<Rightarrow> string \<Rightarrow> html_doc \<Rightarrow> error + int \<times> string option" where
  "main_finish a w report html_report =
     (case save_html a of
        None \<Rightarrow> Inr (0, Some report)
      | Some path \<Rightarrow>
          (if write_html w path html_report = Some KeyboardInterrupt then Inl KeyboardInterrupt
           else Inr (0, Some report)))"

text \<open>
  The body of the \<open>try\<close> statement of \<open>main\<close>: the exit status and the text printed on the
  standard output, or the exception that leaves the body.
\<close>

definition main_body :: "args \<Rightarrow> world \<Rightarrow> error + int \<times> string option" where
  "main_body a w =
     (case load_config (read_config w (config a)) (getenv_key w) of
        Inl e \<Rightarrow> Inl e
      | Inr cfg \<Rightarrow>
     (case load_portfolio_api w (portfolio_url a) (quote_currency cfg) of
        Inl e \<Rightarrow> Inl e
      | Inr holdings \<Rightarrow>
     if holdings = [] then Inr (2, None)
     else
     (case (if price_provider_type cfg = ''yfinance'' then new_YFinanceProvider w
            else new_AlphaVantageProvider w (api_key (price_provider cfg))) of
        Inl e \<Rightarrow> Inl e
      | Inr provider \<Rightarrow>
     (case fetch_prices provider holdings of
        Inl e \<Rightarrow> Inl e
      | Inr prices \<Rightarrow>
     (case get_fx_rate provider ''USD'' ''JPY'' of
        Inl e \<Rightarrow> Inl e
      | Inr usd_jpy_rate \<Rightarrow>
     (case build_rows holdings prices (Some usd_jpy_rate) (yfinance provider) of
        Inl e \<Rightarrow> Inl e
      | Inr (rs, tu, tj) \<Rightarrow>
     (case format_report (report_header w) (report_fx_label w)
             (sort_rows (sort_by a) (sort_order a) rs) (Some usd_jpy_rate) of
        Inl e \<Rightarrow> Inl e
      | Inr (report, totals) \<Rightarrow>
     (case format_report_html (report_fx_label w)
             (sort_rows (sort_by a) (sort_order a) rs) (Some usd_jpy_rate) of
        Inl e \<Rightarrow> Inl e
      | Inr html_report \<Rightarrow> main_finish a w report html_report))))))))"

text \<open>The two handlers of \<open>main\<close>: an interruption gives 130, every other exception 1,
  and in both cases only a diagnostic line on the standard error is printed.\<close>

definition main :: "args \<Rightarrow> world \<Rightarrow> int \<times> string option" where
  "main a w =
     (case main_body a w of
        Inl e \<Rightarrow> (if e = KeyboardInterrupt then (130, None) else (1, None))
      | Inr res \<Rightarrow> res)"

text \<open>Runs of \<open>main\<close>: a world in which everything succeeds up to the rendering, and its
  variants with an empty portfolio, with the metered provider selected and no key, with a
  provider whose price call fails, and with a price call that is interrupted.\<close>

definition example_args :: args where
  "example_args =
     \<lparr> config = ''config.json'', portfolio_url = ''http://127.0.0.1:8787/api/portfolio'',
       sort_by = ''jpy'', sort_order = ''desc'', save_html = None \<rparr>"

definition example_provider :: "(string \<Rightarrow> error + pyfloat) \<Rightarrow> PriceProvider" where
  "example_provider price =
     \<lparr> get_price = price, get_fx_rate = (\<lambda>f t. Inr (Fin 150)), yfinance = None \<rparr>"

definition example_world :: world where
  "example_world =
     \<lparr> read_config = (\<lambda>path. Inr \<lparr> raw_type = None, raw_api_key = None,
                                       raw_currency = None, raw_quote_currency = None \<rparr>),
       getenv_key = None,
       load_portfolio_api = (\<lambda>url ccy. Inr example_holdings),
       new_YFinanceProvider = Inr (example_provider (\<lambda>s. Inr (Fin 150))),
       new_AlphaVantageProvider = (\<lambda>k. Inr (example_provider (\<lambda>s. Inr (Fin 150)))),
       write_html = (\<lambda>path doc. None),
       report_header = ''Portfolio'',
       report_fx_label = ''USD->JPY = '' \<rparr>"

definition world_empty :: world where
  "world_empty = example_world \<lparr> load_portfolio_api := (\<lambda>url ccy. Inr []) \<rparr>"

definition world_missing_key :: world where
  "world_missing_key =
     example_world \<lparr> read_config := (\<lambda>path. Inr \<lparr> raw_type = Some ''alpha_vantage'',
                          raw_api_key = None, raw_currency = None, raw_quote_currency = None \<rparr>) \<rparr>"

definition world_fetch_failure :: world where
  "world_fetch_failure =
     example_world \<lparr> new_YFinanceProvider :=
                       Inr (example_provider (\<lambda>s. Inl (RuntimeError ''no price''))) \<rparr>"

definition world_interrupted :: world where
  "world_interrupted =
     example_world \<lparr> new_YFinanceProvider :=
                       Inr (example_provider (\<lambda>s. Inl KeyboardInterrupt)) \<rparr>"

text \<open>Three rows whose JPY values are 100, not a number, and 300, and three rows whose
  values are all numbers.\<close>

definition example_sort_rows :: "Row list" where
  "example_sort_rows =
     [plain_row ''A'' (Fin 1) ''JPY'' (Fin 1) (Fin 1) (Fin 100) (Fin 100),
      plain_row ''B'' (Fin 1) ''JPY'' NaN NaN NaN NaN,
      plain_row ''C'' (Fin 1) ''JPY'' (Fin 2) (Fin 2) (Fin 300) (Fin 300)]"

definition example_finite_rows :: "Row list" where
  "example_finite_rows =
     [plain_row ''A'' (Fin 1) ''JPY'' (Fin 1) (Fin 1) (Fin 100) (Fin 100),
      plain_row ''C'' (Fin 1) ''JPY'' (Fin 3) (Fin 3) (Fin 300) (Fin 300),
      plain_row ''B'' (Fin 1) ''JPY'' (Fin 2) (Fin 2) (Fin 200) (Fin 200)]"

definition example_config :: AppConfig where
  "example_config =
     \<lparr> price_provider = \<lparr> api_key = [] \<rparr>, price_provider_type = ''yfinance'',
       AppConfig.currency = None, quote_currency = ''USD'' \<rparr>"

definition example_doc :: html_doc where
  "example_doc =
     \<lparr> tbody_jpy = ''<tbody></tbody>'', total_row_jpy = footer_row ''TOTAL'' (Fin 0) (Fin 0),
       tbody_usd = [], total_row_usd = footer_row ''TOTAL'' (Fin 0) (Fin 0),
       overall_total_row = footer_row ''OVERALL TOTAL'' (Fin 0) (Fin 0),
       fx_html = ''<p id='fx-rate' class='muted'></p>'' \<rparr>"

section \<open>\<open>RateLimiter\<close>\<close>

text \<open>
  The limiter keeps the times of the recent calls. The clock is a real number here:
  \<open>time.time()\<close> reads it, it never goes back, and \<open>time.sleep(s)\<close> returns no earlier
  than \<open>s\<close> seconds later. One call of \<open>acquire\<close> reads the clock up to three times; the
  time that passes on the way to each reading (beyond the requested sleep) is an input.
\<close>

record RateLimiter =
  limit :: int
  per_seconds :: real
  times :: "real list"

record ticks =
  before_now :: real
  after_sleep :: real
  before_append :: real

text \<open>\<open>[t for t in self._times if now - t < self.per_seconds]\<close>.\<close>

definition prune :: "real \<Rightarrow> real \<Rightarrow> real list \<Rightarrow> real list" where
  "prune window now ts = filter (\<lambda>t. now - t < window) ts"

text \<open>\<open>acquire\<close>, from the limiter and the clock to the limiter and the clock after the
  call. \<open>self._times[0]\<close> raises for an empty list, which happens when the limit is not
  positive. The time appended is the last reading of the clock.\<close>

definition acquire :: "RateLimiter \<Rightarrow> real \<Rightarrow> ticks \<Rightarrow> error + RateLimiter \<times> real" where
  "acquire rl clock tk =
     (let now = clock + before_now tk;
          kept = prune (per_seconds rl) now (times rl)
      in if limit rl \<le> int (length kept) then
           (case kept of
              [] \<Rightarrow> Inl (IndexError ''list index out of range'')
            | t0 # rest \<Rightarrow>
                (let sleep_for = per_seconds rl - (now - t0) + 0.05;
                     now2 = now + (if 0 < sleep_for then sleep_for else 0) + after_sleep tk;
                     t3 = now2 + before_append tk
                 in Inr (rl \<lparr> times := prune (per_seconds rl) now2 kept @ [t3] \<rparr>, t3)))
         else
           Inr (rl \<lparr> times := kept @ [now + before_append tk] \<rparr>, now + before_append tk))"

text \<open>A sequence of calls from one thread. The third component lists the times that the
  calls recorded, in the order of the calls.\<close>

fun acquire_all ::
  "RateLimiter \<Rightarrow> real \<Rightarrow> real list \<Rightarrow> ticks list \<Rightarrow> error + RateLimiter \<times> real \<times> real list" where
  "acquire_all rl clock recorded [] = Inr (rl, clock, recorded)"
| "acquire_all rl clock recorded (tk # tks) =
     (case acquire rl clock tk of
        Inl e \<Rightarrow> Inl e
      | Inr (rl', clock') \<Rightarrow> acquire_all rl' clock' (recorded @ [clock']) tks)"

definition ticks_ok :: "ticks \<Rightarrow> bool" where
  "ticks_ok tk = (0 \<le> before_now tk \<and> 0 \<le> after_sleep tk \<and> 0 \<le> before_append tk)"

text \<open>The number of recorded calls in the window of the given length that starts at
  \<open>s\<close>.\<close>

definition calls_in_window :: "real \<Rightarrow> real \<Rightarrow> real list \<Rightarrow> nat" where
  "calls_in_window window s recorded =
     length (filter (\<lambda>t. s \<le> t \<and> t < s + window) recorded)"

text \<open>What holds between the calls: the recorded times are in order and not after the
  clock; the limiter keeps the most recent of them, at most \<open>limit\<close>, and each one it has
  dropped is at least \<open>per_seconds\<close> old; and the call that comes \<open>limit\<close> calls after
  another one is at least \<open>per_seconds\<close> later.\<close>

definition limiter_inv :: "RateLimiter \<Rightarrow> real \<Rightarrow> real list \<Rightarrow> bool" where
  "limiter_inv rl clock recorded =
     (sorted recorded \<and> (\<forall>t\<in>set recorded. t \<le> clock) \<and>
      (\<exists>k\<le>length recorded. times rl = drop k recorded \<and>
          (\<forall>j<k. recorded ! j + per_seconds rl \<le> clock)) \<and>
      int (length (times rl)) \<le> limit rl \<and>
      (\<forall>i. i + nat (limit rl) < length recorded \<longrightarrow>
           recorded ! i + per_seconds rl \<le> recorded ! (i + nat (limit rl))))"

text \<open>The test of the specification: two calls a second, and three calls with no time
  passing between them but the sleep.\<close>

definition example_limiter :: RateLimiter where
  "example_limiter = \<lparr> limit = 2, per_seconds = 1, times = [] \<rparr>"

definition no_delay :: ticks where
  "no_delay = \<lparr> before_now = 0, after_sleep = 0, before_append = 0 \<rparr>"

section \<open>Monthly dataset: \<open>build_monthly_dataset\<close>\<close>

text \<open>
  The dataset is a dictionary with the keys \<open>months\<close>, \<open>rows\<close> and \<open>fx\<close>, and each of its
  rows a dictionary with the keys \<open>symbol\<close>, \<open>shares\<close>, \<open>currency\<close>, \<open>usd_price\<close>,
  \<open>usd_value\<close>, \<open>jpy_price\<close> and \<open>jpy_value\<close>. Both are records here; the fields carry a
  prefix because the names are those of the fields of \<open>Row\<close> and of the loop state above.
\<close>

record MonthlyRow =
  m_symbol :: string
  m_shares :: int
  m_currency :: string
  m_usd_price :: "pyfloat list"
  m_usd_value :: "pyfloat list"
  m_jpy_price :: "pyfloat list"
  m_jpy_value :: "pyfloat list"

record MonthlyDataset =
  ds_months :: "string list"
  ds_rows :: "MonthlyRow list"
  ds_fx :: "pyfloat option list"

text \<open>\<open>{k: v for (k, v) in pairs}\<close>: of two pairs with the same key the later one stays.\<close>

definition dict_of :: "(string \<times> 'a) list \<Rightarrow> (string \<rightharpoonup> 'a)" where
  "dict_of pairs = map_of (rev pairs)"

text \<open>The local function \<open>align\<close>: the series of a holding on the axis of the month
  labels, with the sentinel for a month that the series does not have.\<close>

definition align :: "string list \<Rightarrow> (string \<times> pyfloat) list \<Rightarrow> pyfloat list" where
  "align months_labels series =
     map (\<lambda>lbl. case dict_of series lbl of None \<Rightarrow> NaN | Some v \<Rightarrow> v) months_labels"

text \<open>A list of results in the order of a loop: the first error ends the loop.\<close>

fun all_ok :: "(error + 'a) list \<Rightarrow> error + 'a list" where
  "all_ok [] = Inr []"
| "all_ok (x # xs) =
     (case x of
        Inl e \<Rightarrow> Inl e
      | Inr v \<Rightarrow> (case all_ok xs of Inl e \<Rightarrow> Inl e | Inr vs \<Rightarrow> Inr (v # vs)))"

text \<open>The body of the loop over the months: the pair \<open>(usd_p, jpy_p)\<close> for the month
  label \<open>lbl\<close> and the aligned price \<open>px\<close> of that month.\<close>

definition month_prices ::
  "string \<Rightarrow> (string \<rightharpoonup> pyfloat) \<Rightarrow> string \<Rightarrow> pyfloat \<Rightarrow> error + pyfloat \<times> pyfloat" where
  "month_prices ccy fx_map lbl px =
     (if ccy = ''USD'' then
        Inr (px, if fx_map lbl \<noteq> None \<and> \<not> fne px px then fmul px (the (fx_map lbl)) else NaN)
      else if \<not> in_None_0 (fx_map lbl) \<and> \<not> fne px px then
        (case fdiv px (the (fx_map lbl)) of
           Inl e \<Rightarrow> Inl e
         | Inr u \<Rightarrow> Inr (u, px))
      else Inr (NaN, px))"

text \<open>\<open>[(p * h.shares) if not (p != p) else float("nan") for p in prices]\<close>.\<close>

definition month_values :: "pyfloat \<Rightarrow> pyfloat list \<Rightarrow> pyfloat list" where
  "month_values n ps = map (\<lambda>p. if \<not> fne p p then fmul p n else NaN) ps"

text \<open>The body of the loop over the holdings. The currency is not checked here: every
  currency other than USD is taken as JPY.\<close>

definition monthly_row ::
  "YFinanceProvider \<Rightarrow> int \<Rightarrow> string list \<Rightarrow> (string \<rightharpoonup> pyfloat) \<Rightarrow> Holding \<Rightarrow> error + MonthlyRow" where
  "monthly_row p months months_labels fx_map h =
     (case get_monthly_series p (Holding.symbol h) months of
        Inl e \<Rightarrow> Inl e
      | Inr ser \<Rightarrow>
          (case all_ok (map (\<lambda>(lbl, px). month_prices (ccy_of h) fx_map lbl px)
                          (zip months_labels (align months_labels ser))) of
             Inl e \<Rightarrow> Inl e
           | Inr pairs \<Rightarrow>
               (case int_round (Holding.shares h) of
                  Inl e \<Rightarrow> Inl e
                | Inr n \<Rightarrow>
                    Inr \<lparr> m_symbol = Holding.symbol h, m_shares = n, m_currency = ccy_of h,
                          m_usd_price = map fst pairs,
                          m_usd_value = month_values (Holding.shares h) (map fst pairs),
                          m_jpy_price = map snd pairs,
                          m_jpy_value = month_values (Holding.shares h) (map snd pairs) \<rparr>)))"

text \<open>\<open>build_monthly_dataset\<close>. The provider is \<open>None\<close> when it is not a
  \<open>YFinanceProvider\<close>, and the result is \<open>None\<close> then. The FX series gives the axis of
  the month labels.\<close>

definition build_monthly_dataset ::
  "YFinanceProvider option \<Rightarrow> Holding list \<Rightarrow> int \<Rightarrow> error + MonthlyDataset option" where
  "build_monthly_dataset provider holdings months =
     (case provider of
        None \<Rightarrow> Inr None
      | Some p \<Rightarrow>
          (case get_monthly_series p ''USDJPY=X'' months of
             Inl e \<Rightarrow> Inl e
           | Inr fx_pairs \<Rightarrow>
               (case all_ok (map (monthly_row p months (map fst fx_pairs) (dict_of fx_pairs))
                               holdings) of
                  Inl e \<Rightarrow> Inl e
                | Inr rs \<Rightarrow>
                    Inr (Some \<lparr> ds_months = map fst fx_pairs, ds_rows = rs,
                                ds_fx = map (dict_of fx_pairs) (map fst fx_pairs) \<rparr>))))"

text \<open>A provider with three months of FX history, a USD holding that has no price for
  the second month, and a JPY holding that has all three.\<close>

definition example_series :: "string \<Rightarrow> int \<Rightarrow> error + (string \<times> pyfloat) list" where
  "example_series s n =
     (if s = ''USDJPY=X'' then
        Inr [(''2024-01'', Fin 140), (''2024-02'', Fin 150), (''2024-03'', Fin 160)]
      else if s = ''AAPL'' then Inr [(''2024-01'', Fin 100), (''2024-03'', Fin 120)]
      else Inr [(''2024-01'', Fin 2800), (''2024-02'', Fin 3000), (''2024-03'', Fin 3200)])"

definition example_yf :: YFinanceProvider where
  "example_yf =
     \<lparr> previous_day_close = (\<lambda>s. None), previous_month_close = (\<lambda>s. None),
       previous_year_close = (\<lambda>s. None), get_name = (\<lambda>s. None), get_per = (\<lambda>s. None),
       get_monthly_series = example_series \<rparr>"

definition example_dataset :: MonthlyDataset where
  "example_dataset =
     \<lparr> ds_months = [''2024-01'', ''2024-02'', ''2024-03''],
       ds_rows =
         [\<lparr> m_symbol = ''AAPL'', m_shares = 10, m_currency = ''USD'',
            m_usd_price = [Fin 100, NaN, Fin 120],
            m_usd_value = [Fin 1000, NaN, Fin 1200],
            m_jpy_price = [Fin 14000, NaN, Fin 19200],
            m_jpy_value = [Fin 140000, NaN, Fin 192000] \<rparr>,
          \<lparr> m_symbol = ''7203.T'', m_shares = 5, m_currency = ''JPY'',
            m_usd_price = [Fin 20, Fin 20, Fin 20],
            m_usd_value = [Fin 100, Fin 100, Fin 100],
            m_jpy_price = [Fin 2800, Fin 3000, Fin 3200],
            m_jpy_value = [Fin 14000, Fin 15000, Fin 16000] \<rparr>],
       ds_fx = [Some (Fin 140), Some (Fin 150), Some (Fin 160)] \<rparr>"

text \<open>The price of a holding at a month on the axis: the sentinel when the series of the
  holding has no entry for the month.\<close>

definition aligned_price :: "(string \<times> pyfloat) list \<Rightarrow> string \<Rightarrow> pyfloat" where
  "aligned_price ser lbl = (case dict_of ser lbl of None \<Rightarrow> NaN | Some v \<Rightarrow> v)"

section \<open>CSV export: \<open>dataset_to_csv\<close>\<close>




















text \<open>\<open>prices.get(h.symbol, float("nan"))\<close>: the quoted price of a holding, the sentinel
  when the mapping has none.\<close>

definition quoted_price :: "(string \<rightharpoonup> pyfloat) \<Rightarrow> Holding \<Rightarrow> pyfloat" where
  "quoted_price prices h = (case prices (Holding.symbol h) of None \<Rightarrow> NaN | Some v \<Rightarrow> v)"

text \<open>The rows of the scenario when no rate is available.\<close>

definition example_rows_no_rate :: "Row list" where
  "example_rows_no_rate =
     [plain_row ''AAPL'' (Fin 10) ''USD'' (Fin 150) (Fin 1500) NaN NaN,
      plain_row ''7203.T'' (Fin 5) ''JPY'' NaN NaN (Fin 3000) (Fin 15000)]"

(* DEFINITIONS END *)

section \<open>Properties of the valuation engine\<close>

lemma fdiv_ok: "\<not> feq b (Fin 0) \<Longrightarrow> \<exists>v. fdiv a b = Inr v"
  by (cases b; cases a) auto

lemma build_row_Inr:
  assumes "build_row provider fx_d fx_m fx_y prices usd_jpy st h = Inr st'"
  shows "\<exists>r. rows st' = rows st @ [r] \<and> total_usd st' = fadd (total_usd st) (usd_value r) \<and>
             total_jpy st' = fadd (total_jpy st) (jpy_value r) \<and> row_matches prices usd_jpy h r"
  using assms unfolding build_row_def Let_def row_matches_def
  by (auto split: if_splits sum.splits prod.splits)

lemma build_row_Inl:
  assumes "ccy_of h \<noteq> ''USD''" "ccy_of h \<noteq> ''JPY''"
  shows "build_row provider fx_d fx_m fx_y prices usd_jpy st h =
           Inl (ValueError (Holding.symbol h @ '' currency='' @ ccy_of h))"
  using assms unfolding build_row_def Let_def by simp

lemma build_row_total:
  assumes "ccy_of h = ''USD'' \<or> ccy_of h = ''JPY''"
  shows "\<exists>st'. build_row provider fx_d fx_m fx_y prices usd_jpy st h = Inr st'"
proof (cases "ccy_of h = ''USD''")
  case True
  then show ?thesis unfolding build_row_def Let_def by (simp split: prod.splits)
next
  case False
  with assms have j: "ccy_of h = ''JPY''" by simp
  show ?thesis
  proof (cases "in_None_0 usd_jpy")
    case True
    with j show ?thesis unfolding build_row_def Let_def by (simp split: prod.splits)
  next
    case False
    then obtain v where v: "usd_jpy = Some v" "\<not> feq v (Fin 0)" by (cases usd_jpy) auto
    from fdiv_ok[OF v(2)] obtain u where
      "fdiv (case prices (Holding.symbol h) of None \<Rightarrow> NaN | Some v \<Rightarrow> v) v = Inr u" by blast
    with j v show ?thesis unfolding build_row_def Let_def by (simp split: prod.splits)
  qed
qed

lemma build_rows_loop_Inr:
  "build_rows_loop provider fx_d fx_m fx_y prices usd_jpy st hs = Inr st' \<Longrightarrow>
   \<exists>rs. rows st' = rows st @ rs \<and> list_all2 (row_matches prices usd_jpy) hs rs \<and>
        total_usd st' = foldl fadd (total_usd st) (map usd_value rs) \<and>
        total_jpy st' = foldl fadd (total_jpy st) (map jpy_value rs)"
proof (induction hs arbitrary: st)
  case Nil
  then show ?case by simp
next
  case (Cons h hs)
  from Cons.prems obtain st1 where
    s1: "build_row provider fx_d fx_m fx_y prices usd_jpy st h = Inr st1" and
    s2: "build_rows_loop provider fx_d fx_m fx_y prices usd_jpy st1 hs = Inr st'"
    by (auto split: sum.splits)
  from build_row_Inr[OF s1] obtain r where
    r: "rows st1 = rows st @ [r]" "total_usd st1 = fadd (total_usd st) (usd_value r)"
       "total_jpy st1 = fadd (total_jpy st) (jpy_value r)" "row_matches prices usd_jpy h r"
    by blast
  from Cons.IH[OF s2] obtain rs where
    rs: "rows st' = rows st1 @ rs" "list_all2 (row_matches prices usd_jpy) hs rs"
        "total_usd st' = foldl fadd (total_usd st1) (map usd_value rs)"
        "total_jpy st' = foldl fadd (total_jpy st1) (map jpy_value rs)"
    by blast
  show ?case
    by (rule exI[of _ "r # rs"]) (simp add: r rs)
qed

lemma build_rows_loop_Inl:
  "h \<in> set hs \<Longrightarrow> ccy_of h \<noteq> ''USD'' \<Longrightarrow> ccy_of h \<noteq> ''JPY'' \<Longrightarrow>
   \<exists>msg. build_rows_loop provider fx_d fx_m fx_y prices usd_jpy st hs = Inl (ValueError msg)"
proof (induction hs arbitrary: st)
  case Nil
  then show ?case by simp
next
  case (Cons a hs)
  show ?case
  proof (cases "ccy_of a = ''USD'' \<or> ccy_of a = ''JPY''")
    case True
    with Cons.prems have "h \<in> set hs" by auto
    from build_row_total[OF True] obtain st1 where
      "build_row provider fx_d fx_m fx_y prices usd_jpy st a = Inr st1" by blast
    with Cons.IH[OF \<open>h \<in> set hs\<close> Cons.prems(2,3), of st1] show ?thesis by simp
  next
    case False
    then show ?thesis by (simp add: build_row_Inl)
  qed
qed

lemma build_rows_loop_total:
  "\<forall>h\<in>set hs. ccy_of h = ''USD'' \<or> ccy_of h = ''JPY'' \<Longrightarrow>
   \<exists>st'. build_rows_loop provider fx_d fx_m fx_y prices usd_jpy st hs = Inr st'"
proof (induction hs arbitrary: st)
  case Nil
  then show ?case by simp
next
  case (Cons a hs)
  then have "ccy_of a = ''USD'' \<or> ccy_of a = ''JPY''" by simp
  from build_row_total[OF this] obtain st1 where
    "build_row provider fx_d fx_m fx_y prices usd_jpy st a = Inr st1" by blast
  with Cons show ?case by simp
qed

lemma build_rows_Inr:
  assumes "build_rows holdings prices usd_jpy provider = Inr (rs, tu, tj)"
  shows "list_all2 (row_matches prices usd_jpy) holdings rs \<and>
         tu = foldl fadd (Fin 0) (map usd_value rs) \<and>
         tj = foldl fadd (Fin 0) (map jpy_value rs)"
proof -
  from assms obtain st' fx_d fx_m fx_y where
    l: "build_rows_loop provider fx_d fx_m fx_y prices usd_jpy
          \<lparr> rows = [], total_usd = Fin 0, total_jpy = Fin 0, name_cache = Map.empty \<rparr>
          holdings = Inr st'" and
    e: "rs = rows st'" "tu = total_usd st'" "tj = total_jpy st'"
    unfolding build_rows_def Let_def by (auto split: sum.splits)
  from build_rows_loop_Inr[OF l] e show ?thesis by auto
qed

lemma build_rows_total:
  assumes "\<forall>h\<in>set holdings. ccy_of h = ''USD'' \<or> ccy_of h = ''JPY''"
  shows "\<exists>res. build_rows holdings prices usd_jpy provider = Inr res"
proof -
  have "\<exists>st'. build_rows_loop provider fx_d fx_m fx_y prices usd_jpy st holdings = Inr st'"
    for fx_d fx_m fx_y st
    by (rule build_rows_loop_total[OF assms])
  then show ?thesis unfolding build_rows_def Let_def
    by (metis (mono_tags, lifting) sum.simps(6))
qed

lemma example_build_rows:
  "build_rows example_holdings example_prices (Some (Fin 150)) None =
     Inr (example_rows, Fin 1600, Fin 240000)"
  by code_simp

text \<open>
  Claim C3. For a holding whose currency is USD and a rate \<open>r > 0\<close>, the row has the
  quoted price as \<open>usd_price\<close>, \<open>jpy_price = usd_price * r\<close> and
  \<open>jpy_value = shares * jpy_price\<close>. For a holding whose currency is JPY, the row has the
  quoted price as \<open>jpy_price\<close> and \<open>usd_price = jpy_price / r\<close> when \<open>r > 0\<close>, and when
  the rate is \<open>None\<close> or zero \<open>usd_price\<close> is the not-a-number sentinel, which is not
  zero. The equations are between the values of the row; when the quoted price and the
  share count are numbers both sides are the numbers given, so the equations hold for
  \<open>==\<close> too (a holding without a price has the sentinel on both sides).
\<close>

theorem build_rows_conversion:
  assumes "build_rows holdings prices usd_jpy provider = Inr (rs, tu, tj)"
    and "i < length holdings"
  shows "(ccy_of (holdings ! i) = ''USD'' \<longrightarrow>
            (\<forall>r. 0 < r \<and> usd_jpy = Some (Fin r) \<longrightarrow>
               usd_price (rs ! i) = quoted_price prices (holdings ! i) \<and>
               jpy_price (rs ! i) = fmul (usd_price (rs ! i)) (Fin r) \<and>
               Row.shares (rs ! i) = Holding.shares (holdings ! i) \<and>
               usd_value (rs ! i) = fmul (Row.shares (rs ! i)) (usd_price (rs ! i)) \<and>
               jpy_value (rs ! i) = fmul (Row.shares (rs ! i)) (jpy_price (rs ! i)) \<and>
               (\<forall>p. quoted_price prices (holdings ! i) = Fin p \<longrightarrow>
                  usd_price (rs ! i) = Fin p \<and> jpy_price (rs ! i) = Fin (p * r) \<and>
                  feq (jpy_price (rs ! i)) (fmul (usd_price (rs ! i)) (Fin r)) \<and>
                  (\<forall>n. Holding.shares (holdings ! i) = Fin n \<longrightarrow>
                     usd_value (rs ! i) = Fin (n * p) \<and>
                     jpy_value (rs ! i) = Fin (n * (p * r)) \<and>
                     feq (jpy_value (rs ! i))
                       (fmul (Row.shares (rs ! i)) (jpy_price (rs ! i))))))) \<and>
         (ccy_of (holdings ! i) = ''JPY'' \<longrightarrow>
            jpy_price (rs ! i) = quoted_price prices (holdings ! i) \<and>
            Row.shares (rs ! i) = Holding.shares (holdings ! i) \<and>
            usd_value (rs ! i) = fmul (Row.shares (rs ! i)) (usd_price (rs ! i)) \<and>
            jpy_value (rs ! i) = fmul (Row.shares (rs ! i)) (jpy_price (rs ! i)) \<and>
            (\<forall>r. 0 < r \<and> usd_jpy = Some (Fin r) \<longrightarrow>
               fdiv (jpy_price (rs ! i)) (Fin r) = Inr (usd_price (rs ! i)) \<and>
               (\<forall>p. quoted_price prices (holdings ! i) = Fin p \<longrightarrow>
                  jpy_price (rs ! i) = Fin p \<and> usd_price (rs ! i) = Fin (p / r) \<and>
                  feq (usd_price (rs ! i)) (Fin (p / r)) \<and>
                  (\<forall>n. Holding.shares (holdings ! i) = Fin n \<longrightarrow>
                     jpy_value (rs ! i) = Fin (n * p) \<and>
                     usd_value (rs ! i) = Fin (n * (p / r))))) \<and>
            (usd_jpy = None \<or> usd_jpy = Some (Fin 0) \<longrightarrow>
               usd_price (rs ! i) = NaN \<and> is_nan (usd_price (rs ! i)) \<and>
               \<not> feq (usd_price (rs ! i)) (Fin 0)))"
proof -
  let ?h = "holdings ! i" and ?r = "rs ! i"
  from build_rows_Inr[OF assms(1)] have
    "list_all2 (row_matches prices usd_jpy) holdings rs" by simp
  with assms(2) have "row_matches prices usd_jpy ?h ?r"
    by (simp add: list_all2_nthD)
  then have
    sh: "Row.shares ?r = Holding.shares ?h" and
    uv: "usd_value ?r = fmul (Holding.shares ?h) (usd_price ?r)" and
    jv: "jpy_value ?r = fmul (Holding.shares ?h) (jpy_price ?r)" and
    us: "ccy_of ?h = ''USD'' \<Longrightarrow> usd_price ?r = quoted_price prices ?h"
        "ccy_of ?h = ''USD'' \<Longrightarrow> jpy_price ?r = fmul (usd_price ?r) (or_nan usd_jpy)" and
    jp: "ccy_of ?h \<noteq> ''USD'' \<Longrightarrow> jpy_price ?r = quoted_price prices ?h"
        "ccy_of ?h \<noteq> ''USD'' \<Longrightarrow> in_None_0 usd_jpy \<Longrightarrow> usd_price ?r = NaN"
        "ccy_of ?h \<noteq> ''USD'' \<Longrightarrow> \<not> in_None_0 usd_jpy \<Longrightarrow>
           fdiv (jpy_price ?r) (the usd_jpy) = Inr (usd_price ?r)"
    unfolding row_matches_def quoted_price_def by (auto split: if_splits)
  have A: "usd_price ?r = quoted_price prices ?h \<and>
           jpy_price ?r = fmul (usd_price ?r) (Fin r) \<and>
           Row.shares ?r = Holding.shares ?h \<and>
           usd_value ?r = fmul (Row.shares ?r) (usd_price ?r) \<and>
           jpy_value ?r = fmul (Row.shares ?r) (jpy_price ?r) \<and>
           (\<forall>p. quoted_price prices ?h = Fin p \<longrightarrow>
              usd_price ?r = Fin p \<and> jpy_price ?r = Fin (p * r) \<and>
              feq (jpy_price ?r) (fmul (usd_price ?r) (Fin r)) \<and>
              (\<forall>n. Holding.shares ?h = Fin n \<longrightarrow>
                 usd_value ?r = Fin (n * p) \<and> jpy_value ?r = Fin (n * (p * r)) \<and>
                 feq (jpy_value ?r) (fmul (Row.shares ?r) (jpy_price ?r))))"
    if c: "ccy_of ?h = ''USD''" and r: "0 < r" "usd_jpy = Some (Fin r)" for r
  proof -
    from r have o: "or_nan usd_jpy = Fin r" by simp
    from us[OF c] o have
      u: "usd_price ?r = quoted_price prices ?h" and
      j: "jpy_price ?r = fmul (usd_price ?r) (Fin r)" by simp_all
    have num: "usd_price ?r = Fin p \<and> jpy_price ?r = Fin (p * r) \<and>
               feq (jpy_price ?r) (fmul (usd_price ?r) (Fin r)) \<and>
               (\<forall>n. Holding.shares ?h = Fin n \<longrightarrow>
                 usd_value ?r = Fin (n * p) \<and> jpy_value ?r = Fin (n * (p * r)) \<and>
                 feq (jpy_value ?r) (fmul (Row.shares ?r) (jpy_price ?r)))"
      if q: "quoted_price prices ?h = Fin p" for p
      using u j q uv jv sh by simp
    from u j sh uv jv num show ?thesis by simp
  qed
  have B: "jpy_price ?r = quoted_price prices ?h \<and>
           Row.shares ?r = Holding.shares ?h \<and>
           usd_value ?r = fmul (Row.shares ?r) (usd_price ?r) \<and>
           jpy_value ?r = fmul (Row.shares ?r) (jpy_price ?r) \<and>
           (\<forall>r. 0 < r \<and> usd_jpy = Some (Fin r) \<longrightarrow>
              fdiv (jpy_price ?r) (Fin r) = Inr (usd_price ?r) \<and>
              (\<forall>p. quoted_price prices ?h = Fin p \<longrightarrow>
                 jpy_price ?r = Fin p \<and> usd_price ?r = Fin (p / r) \<and>
                 feq (usd_price ?r) (Fin (p / r)) \<and>
                 (\<forall>n. Holding.shares ?h = Fin n \<longrightarrow>
                    jpy_value ?r = Fin (n * p) \<and> usd_value ?r = Fin (n * (p / r))))) \<and>
           (usd_jpy = None \<or> usd_jpy = Some (Fin 0) \<longrightarrow>
              usd_price ?r = NaN \<and> is_nan (usd_price ?r) \<and> \<not> feq (usd_price ?r) (Fin 0))"
    if c: "ccy_of ?h = ''JPY''"
  proof -
    from c have nu: "ccy_of ?h \<noteq> ''USD''" by simp
    note j = jp(1)[OF nu]
    have rate: "fdiv (jpy_price ?r) (Fin r) = Inr (usd_price ?r) \<and>
              (\<forall>p. quoted_price prices ?h = Fin p \<longrightarrow>
                 jpy_price ?r = Fin p \<and> usd_price ?r = Fin (p / r) \<and>
                 feq (usd_price ?r) (Fin (p / r)) \<and>
                 (\<forall>n. Holding.shares ?h = Fin n \<longrightarrow>
                    jpy_value ?r = Fin (n * p) \<and> usd_value ?r = Fin (n * (p / r))))"
      if r: "0 < r" "usd_jpy = Some (Fin r)" for r
    proof -
      from r have "\<not> in_None_0 usd_jpy" by simp
      from jp(3)[OF nu this] r have d: "fdiv (jpy_price ?r) (Fin r) = Inr (usd_price ?r)" by simp
      have "jpy_price ?r = Fin p \<and> usd_price ?r = Fin (p / r) \<and>
                 feq (usd_price ?r) (Fin (p / r)) \<and>
                 (\<forall>n. Holding.shares ?h = Fin n \<longrightarrow>
                    jpy_value ?r = Fin (n * p) \<and> usd_value ?r = Fin (n * (p / r)))"
        if q: "quoted_price prices ?h = Fin p" for p
      proof -
        from j q have jq: "jpy_price ?r = Fin p" by simp
        with d r(1) have uq: "usd_price ?r = Fin (p / r)" by simp
        from jq uq uv jv show ?thesis by simp
      qed
      with d show ?thesis by blast
    qed
    have norate: "usd_price ?r = NaN \<and> is_nan (usd_price ?r) \<and> \<not> feq (usd_price ?r) (Fin 0)"
      if "usd_jpy = None \<or> usd_jpy = Some (Fin 0)"
    proof -
      from that have "in_None_0 usd_jpy" by auto
      from jp(2)[OF nu this] show ?thesis by simp
    qed
    from j sh uv jv rate norate show ?thesis by simp
  qed
  from A B show ?thesis by blast
qed


lemma example_build_rows_no_rate:
  "build_rows example_holdings example_prices None None =
     Inr (example_rows_no_rate, NaN, NaN)"
  by code_simp

theorem build_rows_conversion_witness:
  "build_rows example_holdings example_prices (Some (Fin 150)) None =
     Inr (example_rows, Fin 1600, Fin 240000) \<and>
   build_rows example_holdings example_prices None None =
     Inr (example_rows_no_rate, NaN, NaN) \<and>
   ccy_of (example_holdings ! 0) = ''USD'' \<and> ccy_of (example_holdings ! 1) = ''JPY'' \<and>
   quoted_price example_prices (example_holdings ! 0) = Fin 150 \<and>
   quoted_price example_prices (example_holdings ! 1) = Fin 3000 \<and>
   usd_price (example_rows ! 0) = Fin 150 \<and>
   jpy_price (example_rows ! 0) = Fin (150 * 150) \<and>
   feq (jpy_price (example_rows ! 0)) (fmul (usd_price (example_rows ! 0)) (Fin 150)) \<and>
   usd_value (example_rows ! 0) = Fin (10 * 150) \<and>
   jpy_value (example_rows ! 0) = Fin (10 * (150 * 150)) \<and>
   jpy_price (example_rows ! 1) = Fin 3000 \<and>
   usd_price (example_rows ! 1) = Fin (3000 / 150) \<and>
   jpy_value (example_rows ! 1) = Fin (5 * 3000) \<and>
   usd_value (example_rows ! 1) = Fin (5 * (3000 / 150)) \<and>
   usd_price (example_rows_no_rate ! 1) = NaN \<and>
   \<not> feq (usd_price (example_rows_no_rate ! 1)) (Fin 0)"
proof -
  have c0: "ccy_of (example_holdings ! 0) = ''USD''" by code_simp
  have c1: "ccy_of (example_holdings ! 1) = ''JPY''" by code_simp
  have l0: "0 < length example_holdings" and l1: "1 < length example_holdings"
    by (simp_all add: example_holdings_def)
  have q0: "quoted_price example_prices (example_holdings ! 0) = Fin 150"
    by (simp add: quoted_price_def example_prices_def example_holdings_def)
  have q1: "quoted_price example_prices (example_holdings ! 1) = Fin 3000"
    by (simp add: quoted_price_def example_prices_def example_holdings_def)
  have s0: "Holding.shares (example_holdings ! 0) = Fin 10"
    and s1: "Holding.shares (example_holdings ! 1) = Fin 5"
    by (simp_all add: example_holdings_def)
  have r: "(0::real) < 150 \<and> Some (Fin 150) = Some (Fin 150)" by simp
  note t0 = build_rows_conversion[OF example_build_rows l0, THEN conjunct1, rule_format, OF c0 r]
  from t0 have n0: "\<forall>p. quoted_price example_prices (example_holdings ! 0) = Fin p \<longrightarrow>
                  usd_price (example_rows ! 0) = Fin p \<and> jpy_price (example_rows ! 0) = Fin (p * 150) \<and>
                  feq (jpy_price (example_rows ! 0)) (fmul (usd_price (example_rows ! 0)) (Fin 150)) \<and>
                  (\<forall>n. Holding.shares (example_holdings ! 0) = Fin n \<longrightarrow>
                     usd_value (example_rows ! 0) = Fin (n * p) \<and>
                     jpy_value (example_rows ! 0) = Fin (n * (p * 150)) \<and>
                     feq (jpy_value (example_rows ! 0))
                       (fmul (Row.shares (example_rows ! 0)) (jpy_price (example_rows ! 0))))"
    by blast
  note a0 = n0[rule_format, OF q0]
  note b0 = a0[THEN conjunct2, THEN conjunct2, THEN conjunct2, rule_format, OF s0]
  note t1 = build_rows_conversion[OF example_build_rows l1, THEN conjunct2, rule_format, OF c1]
  from t1 have n1: "\<forall>r. 0 < r \<and> Some (Fin 150) = Some (Fin r) \<longrightarrow>
               fdiv (jpy_price (example_rows ! 1)) (Fin r) = Inr (usd_price (example_rows ! 1)) \<and>
               (\<forall>p. quoted_price example_prices (example_holdings ! 1) = Fin p \<longrightarrow>
                  jpy_price (example_rows ! 1) = Fin p \<and> usd_price (example_rows ! 1) = Fin (p / r) \<and>
                  feq (usd_price (example_rows ! 1)) (Fin (p / r)) \<and>
                  (\<forall>n. Holding.shares (example_holdings ! 1) = Fin n \<longrightarrow>
                     jpy_value (example_rows ! 1) = Fin (n * p) \<and>
                     usd_value (example_rows ! 1) = Fin (n * (p / r))))"
    by blast
  note a1 = n1[rule_format, OF r, THEN conjunct2, rule_format, OF q1]
  note b1 = a1[THEN conjunct2, THEN conjunct2, THEN conjunct2, rule_format, OF s1]
  note t2 = build_rows_conversion[OF example_build_rows_no_rate l1, THEN conjunct2, rule_format, OF c1]
  from t2 have n2: "usd_price (example_rows_no_rate ! 1) = NaN \<and>
                    \<not> feq (usd_price (example_rows_no_rate ! 1)) (Fin 0)"
    by blast
  show ?thesis
    using example_build_rows example_build_rows_no_rate c0 c1 q0 q1
      a0[THEN conjunct1] a0[THEN conjunct2, THEN conjunct1]
      a0[THEN conjunct2, THEN conjunct2, THEN conjunct1]
      b0[THEN conjunct1] b0[THEN conjunct2, THEN conjunct1]
      a1[THEN conjunct1] a1[THEN conjunct2, THEN conjunct1]
      b1[THEN conjunct1] b1[THEN conjunct2]
      n2[THEN conjunct1] n2[THEN conjunct2]
    by (intro conjI)
qed

text \<open>
  Claim C4. When some holding of the list has a currency that, upper-cased, is neither USD
  nor JPY, \<open>build_rows\<close> raises a \<open>ValueError\<close>: it returns no rows at all, wherever the
  holding stands in the list.
\<close>

theorem build_rows_unsupported_currency:
  assumes "h \<in> set holdings" and "ccy_of h \<noteq> ''USD''" and "ccy_of h \<noteq> ''JPY''"
  shows "\<exists>msg. build_rows holdings prices usd_jpy provider = Inl (ValueError msg)"
proof -
  have "\<exists>msg. build_rows_loop provider fx_d fx_m fx_y prices usd_jpy st holdings =
          Inl (ValueError msg)" for fx_d fx_m fx_y st
    by (rule build_rows_loop_Inl[OF assms])
  then show ?thesis unfolding build_rows_def Let_def
    by (metis (mono_tags, lifting) sum.simps(5))
qed

text \<open>
  Claim C10. When \<open>build_rows\<close> succeeds it returns one row for each holding, in the order
  of the holdings; each row has the symbol and the shares of its holding, and its currency
  is the holding's currency upper-cased, USD when the holding has none. Two holdings of
  the same symbol give two rows.
\<close>

theorem build_rows_one_row_per_holding:
  assumes "build_rows holdings prices usd_jpy provider = Inr (rs, tu, tj)"
  shows "length rs = length holdings \<and>
         map Row.symbol rs = map Holding.symbol holdings \<and>
         map Row.shares rs = map Holding.shares holdings \<and>
         map Row.currency rs = map ccy_of holdings"
proof -
  from build_rows_Inr[OF assms] have
    m: "list_all2 (row_matches prices usd_jpy) holdings rs" by simp
  then have len: "length rs = length holdings" by (simp add: list_all2_lengthD)
  have "\<forall>i<length rs. Row.symbol (rs ! i) = Holding.symbol (holdings ! i) \<and>
          Row.shares (rs ! i) = Holding.shares (holdings ! i) \<and>
          Row.currency (rs ! i) = ccy_of (holdings ! i)"
    using m len by (auto simp: list_all2_conv_all_nth row_matches_def)
  with len show ?thesis by (auto intro: nth_equalityI)
qed

theorem build_rows_unsupported_currency_witness:
  "example_eur_holdings ! 1 \<in> set example_eur_holdings \<and>
   ccy_of (example_eur_holdings ! 1) = ''EUR'' \<and>
   (\<exists>msg. build_rows example_eur_holdings example_prices (Some (Fin 150)) None =
            Inl (ValueError msg))"
proof -
  have m: "example_eur_holdings ! 1 \<in> set example_eur_holdings"
    by (simp add: example_eur_holdings_def)
  have c: "ccy_of (example_eur_holdings ! 1) = ''EUR''" by code_simp
  have n1: "ccy_of (example_eur_holdings ! 1) \<noteq> ''USD''" and
       n2: "ccy_of (example_eur_holdings ! 1) \<noteq> ''JPY''"
    unfolding c by simp_all
  from build_rows_unsupported_currency[OF m n1 n2] m c show ?thesis by blast
qed

lemma example_dup_build_rows:
  "build_rows example_dup_holdings example_prices (Some (Fin 150)) None =
     Inr (example_dup_rows, Fin 1950, Fin 292500)"
  by code_simp

theorem build_rows_one_row_per_holding_witness:
  "build_rows example_dup_holdings example_prices (Some (Fin 150)) None =
     Inr (example_dup_rows, Fin 1950, Fin 292500) \<and>
   length example_dup_rows = 2 \<and>
   map Row.symbol example_dup_rows = [''AAPL'', ''AAPL''] \<and>
   map Row.shares example_dup_rows = [Fin 10, Fin 3] \<and>
   map Row.currency example_dup_rows = [''USD'', ''USD'']"
proof -
  have s: "map Holding.symbol example_dup_holdings = [''AAPL'', ''AAPL'']" and
       n: "map Holding.shares example_dup_holdings = [Fin 10, Fin 3]" and
       l: "length example_dup_holdings = 2"
    by (simp_all add: example_dup_holdings_def)
  have c: "map ccy_of example_dup_holdings = [''USD'', ''USD'']" by code_simp
  from build_rows_one_row_per_holding[OF example_dup_build_rows] s n l c example_dup_build_rows
  show ?thesis by simp
qed

section \<open>Properties of the reports\<close>

lemma replicate_numeral: "replicate (numeral k) x = x # replicate (pred_numeral k) x"
  by (simp add: numeral_eq_Suc)

lemmas fmt_simps = replicate_numeral fmt_fixed_def fmt_scaled_def round_half_even_def
  nat_digits.simps group3_def digit_char_def fmt_int_def disp_def fne_def int_round_def

lemma foldl_fadd_NaN: "foldl fadd NaN vs = NaN"
  by (induction vs) auto

text \<open>A single value that is not a number makes the running sum not a number, whatever
  the other values are: nothing in \<open>build_rows\<close> or \<open>format_report\<close> guards the addition.\<close>

lemma foldl_fadd_poison: "NaN \<in> set vs \<Longrightarrow> foldl fadd a vs = NaN"
proof (induction vs arbitrary: a)
  case Nil
  then show ?case by simp
next
  case (Cons v vs)
  show ?case
  proof (cases "v = NaN")
    case True
    then show ?thesis by (cases a) (simp_all add: foldl_fadd_NaN)
  next
    case False
    with Cons show ?thesis by simp
  qed
qed

lemma format_report_loop_totals:
  "format_report_loop rs (ls, tu, tj) = Inr (ls', tu', tj') \<Longrightarrow>
   tu' = foldl fadd tu (map usd_value rs) \<and> tj' = foldl fadd tj (map jpy_value rs)"
proof (induction rs arbitrary: ls tu tj)
  case Nil
  then show ?case by simp
next
  case (Cons r rs)
  from Cons.prems obtain l where
    "format_report_loop rs (ls @ [l], fadd tu (usd_value r), fadd tj (jpy_value r)) =
       Inr (ls', tu', tj')"
    by (auto simp: Let_def split: sum.splits)
  from Cons.IH[OF this] show ?case by simp
qed

lemma format_report_totals_poisoned:
  assumes "format_report header fx_label rs usd_jpy = Inr (text, tu, tj)"
    and "r \<in> set rs" and "usd_value r = NaN" and "jpy_value r = NaN"
  shows "tu = NaN \<and> tj = NaN"
proof -
  from assms(1) obtain ls where
    "format_report_loop rs
       ([header, '''',
         ''| SYMBOL | SHARES | USD_PRICE | USD_VALUE | JPY_PRICE | JPY_VALUE |'',
         ''|:------ | -----:| ---------:| ---------:| ---------:| ---------:|''],
        Fin 0, Fin 0) = Inr (ls, tu, tj)"
    unfolding format_report_def by (auto simp: Let_def split: sum.splits)
  from format_report_loop_totals[OF this] have
    t: "tu = foldl fadd (Fin 0) (map usd_value rs)" "tj = foldl fadd (Fin 0) (map jpy_value rs)"
    by simp_all
  from assms(2,3) have "NaN \<in> set (map usd_value rs)" by force
  moreover from assms(2,4) have "NaN \<in> set (map jpy_value rs)" by force
  ultimately show ?thesis using t by (simp add: foldl_fadd_poison)
qed

text \<open>
  Claim C2, at a failing input. The claim says that a row whose value is not a number is
  left out of the totals. For ten shares at 150 together with one share of unknown
  price, \<open>build_rows\<close> returns the sentinel for both totals, not 1500 and 225000, and
  the totals line of the text report reads \<open>nan\<close>.
\<close>

theorem totals_poisoned_by_nan:
  "build_rows example_nan_holdings example_prices (Some (Fin 150)) None =
     Inr (example_nan_rows, NaN, NaN) \<and>
   format_report ''Portfolio'' ''USD->JPY = '' example_nan_rows (Some (Fin 150)) =
     Inr (join newline
           [''Portfolio'', '''',
            ''| SYMBOL | SHARES | USD_PRICE | USD_VALUE | JPY_PRICE | JPY_VALUE |'',
            ''|:------ | -----:| ---------:| ---------:| ---------:| ---------:|'',
            ''| AAPL | 10 | 150.00 | 1,500.00 | 22,500 | 225,000 |'',
            ''| MSFT | 1 |  |  |  |  |'',
            ''| TOTAL |  |  | nan |  | nan |'',
            '''',
            ''USD->JPY = 150.0000''],
          NaN, NaN)"
proof -
  have a: "build_rows example_nan_holdings example_prices (Some (Fin 150)) None =
             Inr (example_nan_rows, NaN, NaN)"
    by code_simp
  have b: "format_report ''Portfolio'' ''USD->JPY = '' example_nan_rows (Some (Fin 150)) =
     Inr (join newline
           [''Portfolio'', '''',
            ''| SYMBOL | SHARES | USD_PRICE | USD_VALUE | JPY_PRICE | JPY_VALUE |'',
            ''|:------ | -----:| ---------:| ---------:| ---------:| ---------:|'',
            ''| AAPL | 10 | 150.00 | 1,500.00 | 22,500 | 225,000 |'',
            ''| MSFT | 1 |  |  |  |  |'',
            ''| TOTAL |  |  | nan |  | nan |'',
            '''',
            ''USD->JPY = 150.0000''],
          NaN, NaN)"
    by (simp add: format_report_def example_nan_rows_def plain_row_def report_row_line_def
          fmt_simps newline_def)
  from a b show ?thesis by (rule conjI)
qed

lemma html_row_step_raises: "\<exists>e. html_row_step st r = Inl e"
  unfolding html_row_step_def Let_def read_row_html_def
  by (cases "int_round (Row.shares r)") auto

lemma html_rows_loop_raises: "rs \<noteq> [] \<Longrightarrow> \<exists>e. html_rows_loop st rs = Inl e"
proof (cases rs)
  case Nil
  assume "rs \<noteq> []"
  with Nil show ?thesis by simp
next
  case (Cons r rs')
  from html_row_step_raises obtain e where "html_row_step st r = Inl e" by blast
  with Cons show ?thesis by simp
qed

text \<open>The HTML renderer raises for every list of rows that is not empty.\<close>

lemma format_report_html_raises:
  assumes "rs \<noteq> []"
  shows "\<exists>e. format_report_html fx_label rs usd_jpy = Inl e"
proof -
  from html_rows_loop_raises[OF assms] obtain e where
    "html_rows_loop
       \<lparr> rows_html_jpy = [], rows_html_usd = [],
         total_usd_overall = Fin 0, total_jpy_overall = Fin 0,
         total_usd_jpy_tbl = Fin 0, total_jpy_jpy_tbl = Fin 0,
         total_usd_usd_tbl = Fin 0, total_jpy_usd_tbl = Fin 0 \<rparr> rs = Inl e"
    by blast
  then show ?thesis unfolding format_report_html_def by simp
qed

text \<open>
  Claim C1, at a failing input. The claim says that for a non-empty list of rows and no
  monthly dataset the renderer returns a document holding every row once. For the two
  rows of the scenario it raises \<open>NameError\<close> at the first row instead and returns no
  document.
\<close>

theorem format_report_html_name_error:
  "format_report_html ''USD->JPY = '' example_rows (Some (Fin 150)) =
     Inl (NameError ''row_html'')"
  by (simp add: format_report_html_def example_rows_def plain_row_def html_row_step_def
        read_row_html_def int_round_def Let_def)

section \<open>Properties of \<open>main\<close> and of the sort\<close>

lemmas world_simps = example_world_def world_empty_def world_missing_key_def
  world_fetch_failure_def world_interrupted_def example_args_def example_provider_def
  load_config_def str_or_def lower_def lower_char_def upper_def upper_char_def

lemma length_binary_insert: "length (binary_insert lt xs p) = Suc (length xs)"
  by (simp add: binary_insert_def)

lemma length_foldl_binary_insert:
  "length (foldl (binary_insert lt) acc rest) = length acc + length rest"
  by (induction rest arbitrary: acc) (simp_all add: length_binary_insert)

lemma length_listsort: "length (listsort lt xs) = length xs"
  by (auto simp: listsort_def length_foldl_binary_insert)

lemma length_sort_rows: "length (sort_rows col order rs) = length rs"
  by (simp add: sort_rows_def list_sort_def length_listsort)

text \<open>The body of \<open>main\<close> ends normally only for an empty portfolio: for any other one
  the HTML renderer raises, so the status zero is never returned.\<close>

lemma main_body_status:
  assumes "main_body a w = Inr (s, out)"
  shows "s = 2"
proof (rule ccontr)
  assume ns: "s \<noteq> 2"
  from assms ns obtain holdings prices rate p rs tu tj doc where
    h: "holdings \<noteq> []" and
    b: "build_rows holdings prices (Some rate) p = Inr (rs, tu, tj)" and
    d: "format_report_html (report_fx_label w) (sort_rows (sort_by a) (sort_order a) rs)
          (Some rate) = Inr doc"
    unfolding main_body_def
    by (auto split: sum.splits if_splits prod.splits)
  from build_rows_Inr[OF b] have "length rs = length holdings"
    by (auto dest: list_all2_lengthD)
  with h have "sort_rows (sort_by a) (sort_order a) rs \<noteq> []"
    using length_sort_rows[of "sort_by a" "sort_order a" rs] by auto
  from format_report_html_raises[OF this, of "report_fx_label w" "Some rate"] d
  show False by auto
qed

lemma main_status_nonzero: "fst (main a w) \<noteq> 0"
proof (cases "main_body a w")
  case (Inl e)
  then show ?thesis by (simp add: main_def)
next
  case (Inr res)
  then obtain s out where "main_body a w = Inr (s, out)" by (cases res) auto
  with main_body_status[OF this] Inr show ?thesis by (auto simp: main_def)
qed

text \<open>
  Claim C5, as amended. Every exception that leaves the body of \<open>main\<close>, other than an
  interruption, gives the one generic status 1: so do a failure of the configuration and
  a failure of a price fetch, which are not told apart. An interruption gives 130, which
  differs from 1, and an empty portfolio gives 2.
\<close>

theorem main_exit_status:
  "(\<forall>e. main_body a w = Inl e \<longrightarrow>
        main a w = (if e = KeyboardInterrupt then 130 else 1, None)) \<and>
   (\<forall>e. load_config (read_config w (config a)) (getenv_key w) = Inl e \<longrightarrow>
        main_body a w = Inl e \<and>
        main a w = (if e = KeyboardInterrupt then 130 else 1, None)) \<and>
   (\<forall>cfg. load_config (read_config w (config a)) (getenv_key w) = Inr cfg \<and>
        load_portfolio_api w (portfolio_url a) (quote_currency cfg) = Inr [] \<longrightarrow>
        main a w = (2, None)) \<and>
   (\<forall>cfg hs p e. load_config (read_config w (config a)) (getenv_key w) = Inr cfg \<and>
        load_portfolio_api w (portfolio_url a) (quote_currency cfg) = Inr hs \<and> hs \<noteq> [] \<and>
        (if price_provider_type cfg = ''yfinance'' then new_YFinanceProvider w
         else new_AlphaVantageProvider w (api_key (price_provider cfg))) = Inr p \<and>
        fetch_prices p hs = Inl e \<longrightarrow>
        main_body a w = Inl e \<and>
        main a w = (if e = KeyboardInterrupt then 130 else 1, None)) \<and>
   (130 :: int) \<noteq> 1 \<and> (2 :: int) \<noteq> 1 \<and> (1 :: int) \<noteq> 0"
proof (intro conjI allI impI)
  fix e assume "main_body a w = Inl e"
  then show "main a w = (if e = KeyboardInterrupt then 130 else 1, None)"
    by (simp add: main_def)
next
  fix e assume c: "load_config (read_config w (config a)) (getenv_key w) = Inl e"
  then show b: "main_body a w = Inl e" by (simp add: main_body_def)
  then show "main a w = (if e = KeyboardInterrupt then 130 else 1, None)"
    by (simp add: main_def)
next
  fix cfg assume "load_config (read_config w (config a)) (getenv_key w) = Inr cfg \<and>
        load_portfolio_api w (portfolio_url a) (quote_currency cfg) = Inr []"
  then show "main a w = (2, None)" by (simp add: main_def main_body_def)
next
  fix cfg hs p e
  assume h: "load_config (read_config w (config a)) (getenv_key w) = Inr cfg \<and>
        load_portfolio_api w (portfolio_url a) (quote_currency cfg) = Inr hs \<and> hs \<noteq> [] \<and>
        (if price_provider_type cfg = ''yfinance'' then new_YFinanceProvider w
         else new_AlphaVantageProvider w (api_key (price_provider cfg))) = Inr p \<and>
        fetch_prices p hs = Inl e"
  then show b: "main_body a w = Inl e" by (simp add: main_body_def)
  then show "main a w = (if e = KeyboardInterrupt then 130 else 1, None)"
    by (simp add: main_def)
qed simp_all

text \<open>The run in which no call to the outside fails: the HTML renderer raises.\<close>

lemma example_world_main_body:
  "main_body example_args example_world = Inl (NameError ''row_html'')"
proof -
  have c: "load_config (read_config example_world (config example_args))
             (getenv_key example_world) = Inr example_config"
    by (simp add: world_simps example_config_def)
  have f: "fetch_prices (example_provider (\<lambda>s. Inr (Fin 150))) example_holdings =
             Inr [''AAPL'' \<mapsto> Fin 150, ''7203.T'' \<mapsto> Fin 150]"
    by (simp add: fetch_prices_def example_holdings_def example_provider_def)
  have b: "build_rows example_holdings [''AAPL'' \<mapsto> Fin 150, ''7203.T'' \<mapsto> Fin 150]
             (Some (Fin 150)) None =
           Inr ([plain_row ''AAPL'' (Fin 10) ''USD'' (Fin 150) (Fin 1500) (Fin 22500) (Fin 225000),
                 plain_row ''7203.T'' (Fin 5) ''JPY'' (Fin 1) (Fin 5) (Fin 150) (Fin 750)],
                Fin 1505, Fin 225750)"
    by code_simp
  have s: "sort_rows ''jpy'' ''desc''
             [plain_row ''AAPL'' (Fin 10) ''USD'' (Fin 150) (Fin 1500) (Fin 22500) (Fin 225000),
              plain_row ''7203.T'' (Fin 5) ''JPY'' (Fin 1) (Fin 5) (Fin 150) (Fin 750)] =
             [plain_row ''AAPL'' (Fin 10) ''USD'' (Fin 150) (Fin 1500) (Fin 22500) (Fin 225000),
              plain_row ''7203.T'' (Fin 5) ''JPY'' (Fin 1) (Fin 5) (Fin 150) (Fin 750)]"
    by (simp add: sort_rows_def list_sort_def listsort_def key_lt_def key_with_nan_def
          plain_row_def binary_insert_def bsearch.simps)
  have r: "\<exists>t. format_report ''Portfolio'' ''USD->JPY = ''
             [plain_row ''AAPL'' (Fin 10) ''USD'' (Fin 150) (Fin 1500) (Fin 22500) (Fin 225000),
              plain_row ''7203.T'' (Fin 5) ''JPY'' (Fin 1) (Fin 5) (Fin 150) (Fin 750)]
             (Some (Fin 150)) = Inr t"
    by (simp add: format_report_def plain_row_def report_row_line_def int_round_def Let_def)
  have h: "format_report_html ''USD->JPY = ''
             [plain_row ''AAPL'' (Fin 10) ''USD'' (Fin 150) (Fin 1500) (Fin 22500) (Fin 225000),
              plain_row ''7203.T'' (Fin 5) ''JPY'' (Fin 1) (Fin 5) (Fin 150) (Fin 750)]
             (Some (Fin 150)) = Inl (NameError ''row_html'')"
    by (simp add: format_report_html_def plain_row_def html_row_step_def
        read_row_html_def int_round_def Let_def)
  from r obtain t where r': "format_report ''Portfolio'' ''USD->JPY = ''
             [plain_row ''AAPL'' (Fin 10) ''USD'' (Fin 150) (Fin 1500) (Fin 22500) (Fin 225000),
              plain_row ''7203.T'' (Fin 5) ''JPY'' (Fin 1) (Fin 5) (Fin 150) (Fin 750)]
             (Some (Fin 150)) = Inr t" by blast
  have e1: "load_portfolio_api example_world (portfolio_url example_args) (quote_currency example_config) =
       Inr example_holdings"
    "new_YFinanceProvider example_world = Inr (example_provider (\<lambda>s. Inr (Fin 150)))"
    "get_fx_rate (example_provider (\<lambda>s. Inr (Fin 150))) ''USD'' ''JPY'' = Inr (Fin 150)"
    "yfinance (example_provider (\<lambda>s. Inr (Fin 150))) = None"
    "report_header example_world = ''Portfolio''"
    "report_fx_label example_world = ''USD->JPY = ''"
    "sort_by example_args = ''jpy''" "sort_order example_args = ''desc''"
    "price_provider_type example_config = ''yfinance''"
    "example_holdings \<noteq> []"
    by (simp_all add: example_world_def example_args_def example_provider_def
          example_config_def example_holdings_def)
  show ?thesis
    unfolding main_body_def
    by (cases t) (simp add: c e1 f b s r' h)
qed

text \<open>
  Claim C5, as stated, fails: a missing API key, which is a configuration failure, and a
  failing price call, which is a fetch failure, end with the same status; and the run in
  which nothing outside the program fails ends with the status 1, not 0.
\<close>

theorem exit_status_not_distinct:
  "fst (main example_args world_missing_key) = 1 \<and>
   fst (main example_args world_fetch_failure) = 1 \<and>
   fst (main example_args example_world) = 1"
proof -
  have "fst (main example_args world_missing_key) = 1"
    by (simp add: main_def main_body_def world_simps)
  moreover have "fst (main example_args world_fetch_failure) = 1"
    by (simp add: main_def main_body_def world_simps fetch_prices_def example_holdings_def)
  moreover have "fst (main example_args example_world) = 1"
    by (simp add: main_def example_world_main_body)
  ultimately show ?thesis by (intro conjI)
qed

theorem main_exit_status_witness:
  "main_body example_args example_world = Inl (NameError ''row_html'') \<and>
   main example_args example_world = (1, None) \<and>
   main example_args world_missing_key = (1, None) \<and>
   main example_args world_empty = (2, None) \<and>
   main example_args world_fetch_failure = (1, None) \<and>
   main example_args world_interrupted = (130, None)"
proof -
  have r0: "main example_args example_world = (1, None)"
    using main_exit_status[where w=example_world and a=example_args,
        THEN conjunct1, rule_format, OF example_world_main_body]
    by simp
  have c1: "load_config (read_config world_missing_key (config example_args))
              (getenv_key world_missing_key) = Inl (ValueError ''Alpha Vantage api_key is not set'')"
    by (simp add: world_simps)
  have r1: "main example_args world_missing_key = (1, None)"
    using main_exit_status[where w=world_missing_key and a=example_args,
        THEN conjunct2, THEN conjunct1, rule_format, OF c1, THEN conjunct2]
    by simp
  have c2: "load_config (read_config world_empty (config example_args))
              (getenv_key world_empty) = Inr example_config \<and>
            load_portfolio_api world_empty (portfolio_url example_args)
              (quote_currency example_config) = Inr []"
    by (simp add: world_simps example_config_def)
  have r2: "main example_args world_empty = (2, None)"
    using main_exit_status[where w=world_empty and a=example_args,
        THEN conjunct2, THEN conjunct2, THEN conjunct1, rule_format, OF c2]
    by simp
  have c3: "load_config (read_config world_fetch_failure (config example_args))
              (getenv_key world_fetch_failure) = Inr example_config \<and>
            load_portfolio_api world_fetch_failure (portfolio_url example_args)
              (quote_currency example_config) = Inr example_holdings \<and>
            example_holdings \<noteq> [] \<and>
            (if price_provider_type example_config = ''yfinance''
             then new_YFinanceProvider world_fetch_failure
             else new_AlphaVantageProvider world_fetch_failure
                    (api_key (price_provider example_config))) =
              Inr (example_provider (\<lambda>s. Inl (RuntimeError ''no price''))) \<and>
            fetch_prices (example_provider (\<lambda>s. Inl (RuntimeError ''no price'')))
              example_holdings = Inl (RuntimeError ''no price'')"
    by (simp add: world_simps example_config_def fetch_prices_def example_holdings_def)
  have r3: "main example_args world_fetch_failure = (1, None)"
    using main_exit_status[where w=world_fetch_failure and a=example_args,
        THEN conjunct2, THEN conjunct2, THEN conjunct2, THEN conjunct1, rule_format, OF c3,
        THEN conjunct2]
    by simp
  have c4: "load_config (read_config world_interrupted (config example_args))
              (getenv_key world_interrupted) = Inr example_config \<and>
            load_portfolio_api world_interrupted (portfolio_url example_args)
              (quote_currency example_config) = Inr example_holdings \<and>
            example_holdings \<noteq> [] \<and>
            (if price_provider_type example_config = ''yfinance''
             then new_YFinanceProvider world_interrupted
             else new_AlphaVantageProvider world_interrupted
                    (api_key (price_provider example_config))) =
              Inr (example_provider (\<lambda>s. Inl KeyboardInterrupt)) \<and>
            fetch_prices (example_provider (\<lambda>s. Inl KeyboardInterrupt))
              example_holdings = Inl KeyboardInterrupt"
    by (simp add: world_simps example_config_def fetch_prices_def example_holdings_def)
  have r4: "main example_args world_interrupted = (130, None)"
    using main_exit_status[where w=world_interrupted and a=example_args,
        THEN conjunct2, THEN conjunct2, THEN conjunct2, THEN conjunct1, rule_format, OF c4,
        THEN conjunct2]
    by simp
  from example_world_main_body r0 r1 r2 r3 r4 show ?thesis by (intro conjI)
qed

text \<open>
  Claim C9, at a failing input. The claim says that a row whose JPY value is not a number
  comes last in both directions, so that the values 100, not-a-number, 300 come out as
  300, 100, not-a-number in descending order. The sort of \<open>main\<close> leaves the three rows
  in their order, in both directions.
\<close>

theorem sort_leaves_nan_in_place:
  "map jpy_value (sort_rows ''jpy'' ''desc'' example_sort_rows) = [Fin 100, NaN, Fin 300] \<and>
   map jpy_value (sort_rows ''jpy'' ''asc'' example_sort_rows) = [Fin 100, NaN, Fin 300]"
  by (simp add: sort_rows_def list_sort_def listsort_def key_lt_def key_with_nan_def
        example_sort_rows_def plain_row_def)

section \<open>Properties of the rate limiter\<close>

lemma filter_sorted_suffix:
  fixes xs :: "real list"
  assumes up: "\<And>a b. P a \<Longrightarrow> a \<le> b \<Longrightarrow> P b"
  shows "sorted xs \<Longrightarrow> \<exists>m\<le>length xs. filter P xs = drop m xs \<and> (\<forall>j<m. \<not> P (xs ! j))"
proof (induction xs)
  case Nil
  then show ?case by simp
next
  case (Cons x xs)
  then have sx: "sorted xs" and le: "\<forall>y\<in>set xs. x \<le> y" by simp_all
  show ?case
  proof (cases "P x")
    case True
    with le up have "\<forall>y\<in>set xs. P y" by blast
    then have "filter P (x # xs) = x # xs" using True by simp
    then show ?thesis by (intro exI[of _ 0]) simp
  next
    case False
    from Cons.IH[OF sx] obtain m where
      m: "m \<le> length xs" "filter P xs = drop m xs" "\<forall>j<m. \<not> P (xs ! j)" by blast
    show ?thesis
    proof (intro exI[of _ "Suc m"] conjI allI impI)
      show "Suc m \<le> length (x # xs)" using m(1) by simp
      show "filter P (x # xs) = drop (Suc m) (x # xs)" using False m(2) by simp
      fix j assume "j < Suc m"
      then show "\<not> P ((x # xs) ! j)" using False m(3) by (cases j) auto
    qed
  qed
qed

lemma filter_sorted_prefix:
  fixes xs :: "real list"
  assumes down: "\<And>a b. Q b \<Longrightarrow> a \<le> b \<Longrightarrow> Q a"
  shows "sorted xs \<Longrightarrow> \<exists>n\<le>length xs. filter Q xs = take n xs \<and> (\<forall>j<n. Q (xs ! j))"
proof (induction xs)
  case Nil
  then show ?case by simp
next
  case (Cons x xs)
  then have sx: "sorted xs" and le: "\<forall>y\<in>set xs. x \<le> y" by simp_all
  show ?case
  proof (cases "Q x")
    case True
    from Cons.IH[OF sx] obtain n where
      n: "n \<le> length xs" "filter Q xs = take n xs" "\<forall>j<n. Q (xs ! j)" by blast
    show ?thesis
    proof (intro exI[of _ "Suc n"] conjI allI impI)
      show "Suc n \<le> length (x # xs)" using n(1) by simp
      show "filter Q (x # xs) = take (Suc n) (x # xs)" using True n(2) by simp
      fix j assume "j < Suc n"
      then show "Q ((x # xs) ! j)" using True n(3) by (cases j) auto
    qed
  next
    case False
    with le down have "\<forall>y\<in>set xs. \<not> Q y" by blast
    then have "filter Q (x # xs) = []" using False by simp
    then show ?thesis by (intro exI[of _ 0]) simp
  qed
qed

lemma window_bound:
  fixes xs :: "real list"
  assumes s: "sorted xs"
    and gap: "\<forall>i. i + L < length xs \<longrightarrow> xs ! i + w \<le> xs ! (i + L)"
  shows "calls_in_window w s0 xs \<le> L"
proof (rule ccontr)
  assume "\<not> calls_in_window w s0 xs \<le> L"
  then have big: "L < length (filter (\<lambda>t. s0 \<le> t \<and> t < s0 + w) xs)"
    by (simp add: calls_in_window_def)
  from filter_sorted_suffix[of "\<lambda>t. s0 \<le> t" xs, OF _ s] obtain a where
    a: "a \<le> length xs" "filter (\<lambda>t. s0 \<le> t) xs = drop a xs" by auto
  have sd: "sorted (drop a xs)" using s by (simp add: sorted_wrt_drop)
  from filter_sorted_prefix[of "\<lambda>t. t < s0 + w" "drop a xs", OF _ sd] obtain n where
    n: "n \<le> length (drop a xs)" "filter (\<lambda>t. t < s0 + w) (drop a xs) = take n (drop a xs)"
       "\<forall>j<n. (drop a xs) ! j < s0 + w" by auto
  have "filter (\<lambda>t. s0 \<le> t \<and> t < s0 + w) xs =
        filter (\<lambda>t. t < s0 + w) (filter (\<lambda>t. s0 \<le> t) xs)"
    by (simp add: conj_commute)
  with a(2) n(2) have "filter (\<lambda>t. s0 \<le> t \<and> t < s0 + w) xs = take n (drop a xs)" by simp
  with big n(1) have Ln: "L < n" by simp
  with n(1) have aL: "a + L < length xs" by simp
  from Ln n(3) have "(drop a xs) ! L < s0 + w" by simp
  with aL have up: "xs ! (a + L) < s0 + w" by simp
  from aL have "0 < length (drop a xs)" by simp
  then have "(drop a xs) ! 0 \<in> set (drop a xs)" by (rule nth_mem)
  moreover from aL have "(drop a xs) ! 0 = xs ! a" by simp
  ultimately have "xs ! a \<in> set (drop a xs)" by simp
  with a(2) have "xs ! a \<in> set (filter (\<lambda>t. s0 \<le> t) xs)" by simp
  then have lo: "s0 \<le> xs ! a" by simp
  from gap aL have "xs ! a + w \<le> xs ! (a + L)" by blast
  with lo up show False by simp
qed


lemma prune_suffix:
  assumes "sorted ts"
  shows "\<exists>m\<le>length ts. prune w now ts = drop m ts \<and> (\<forall>j<m. ts ! j + w \<le> now)"
proof -
  from filter_sorted_suffix[of "\<lambda>t. now - t < w" ts, OF _ assms] obtain m where
    "m \<le> length ts" "filter (\<lambda>t. now - t < w) ts = drop m ts"
    "\<forall>j<m. \<not> now - ts ! j < w" by auto
  then show ?thesis unfolding prune_def by (intro exI[of _ m]) auto
qed

lemma prune_mem: "t \<in> set (prune w now ts) \<Longrightarrow> now - t < w"
  by (simp add: prune_def)

lemma acquire_step:
  assumes inv: "limiter_inv rl clock recorded" and lim: "1 \<le> limit rl" and ok: "ticks_ok tk"
  shows "\<exists>rl' clock'. acquire rl clock tk = Inr (rl', clock') \<and>
           limiter_inv rl' clock' (recorded @ [clock']) \<and>
           limit rl' = limit rl \<and> per_seconds rl' = per_seconds rl"
proof -
  define w where "w = per_seconds rl"
  define L where "L = nat (limit rl)"
  define now where "now = clock + before_now tk"
  define kept where "kept = prune w now (times rl)"
  from ok have d: "0 \<le> before_now tk" "0 \<le> after_sleep tk" "0 \<le> before_append tk"
    by (simp_all add: ticks_ok_def)
  from lim have L1: "1 \<le> L" "int L = limit rl" by (simp_all add: L_def)
  from inv obtain k where
    srt: "sorted recorded" and bnd: "\<forall>t\<in>set recorded. t \<le> clock" and
    k: "k \<le> length recorded" "times rl = drop k recorded"
       "\<forall>j<k. recorded ! j + w \<le> clock" and
    len: "int (length (times rl)) \<le> limit rl" and
    gap: "\<forall>i. i + L < length recorded \<longrightarrow> recorded ! i + w \<le> recorded ! (i + L)"
    unfolding limiter_inv_def w_def L_def by blast
  have cn: "clock \<le> now" using d by (simp add: now_def)
  have st: "sorted (times rl)" using srt k(2) by (simp add: sorted_wrt_drop)
  from prune_suffix[OF st, of w now] obtain m where
    m: "m \<le> length (times rl)" "kept = drop m (times rl)"
       "\<forall>j<m. times rl ! j + w \<le> now"
    unfolding kept_def by blast
  define k1 where "k1 = k + m"
  have k1: "k1 \<le> length recorded" "kept = drop k1 recorded"
    using k(1,2) m(1,2) by (simp_all add: k1_def add.commute)
  have old1: "recorded ! j + w \<le> now" if "j < k1" for j
  proof (cases "j < k")
    case True
    with k(3) cn show ?thesis by fastforce
  next
    case False
    then have "j - k < m" using that by (simp add: k1_def)
    with m(3) have "times rl ! (j - k) + w \<le> now" by blast
    moreover have "times rl ! (j - k) = recorded ! j"
      using False k(1,2) that k1(1) by (simp add: k1_def)
    ultimately show ?thesis by simp
  qed
  have lk: "length kept = length recorded - k1" using k1 by simp
  have lkL: "length kept \<le> L" using len m(2) k(2) L1(2) by simp
  show ?thesis
  proof (cases "limit rl \<le> int (length kept)")
    case False
    define t3 where "t3 = now + before_append tk"
    have acq: "acquire rl clock tk = Inr (rl \<lparr> times := kept @ [t3] \<rparr>, t3)"
      using False unfolding acquire_def Let_def kept_def now_def w_def t3_def by simp
    have nt: "now \<le> t3" using d by (simp add: t3_def)
    have short: "length kept < L" using False L1(2) by simp
    have "limiter_inv (rl \<lparr> times := kept @ [t3] \<rparr>) t3 (recorded @ [t3])"
      unfolding limiter_inv_def
    proof (intro conjI)
      show "sorted (recorded @ [t3])"
        using srt bnd cn nt by (auto simp: sorted_append)
      show "\<forall>t\<in>set (recorded @ [t3]). t \<le> t3" using bnd cn nt by auto
      show "\<exists>k\<le>length (recorded @ [t3]).
              times (rl\<lparr>times := kept @ [t3]\<rparr>) = drop k (recorded @ [t3]) \<and>
              (\<forall>j<k. (recorded @ [t3]) ! j + per_seconds (rl\<lparr>times := kept @ [t3]\<rparr>) \<le> t3)"
      proof (intro exI[of _ k1] conjI allI impI)
        show "k1 \<le> length (recorded @ [t3])" using k1(1) by simp
        show "times (rl\<lparr>times := kept @ [t3]\<rparr>) = drop k1 (recorded @ [t3])"
          using k1 by simp
        fix j assume "j < k1"
        with old1[OF this] k1(1) nt
        show "(recorded @ [t3]) ! j + per_seconds (rl\<lparr>times := kept @ [t3]\<rparr>) \<le> t3"
          by (simp add: nth_append w_def)
      qed
      show "int (length (times (rl\<lparr>times := kept @ [t3]\<rparr>))) \<le> limit (rl\<lparr>times := kept @ [t3]\<rparr>)"
        using short L1(2) by simp
      show "\<forall>i. i + nat (limit (rl\<lparr>times := kept @ [t3]\<rparr>)) < length (recorded @ [t3]) \<longrightarrow>
              (recorded @ [t3]) ! i + per_seconds (rl\<lparr>times := kept @ [t3]\<rparr>)
              \<le> (recorded @ [t3]) ! (i + nat (limit (rl\<lparr>times := kept @ [t3]\<rparr>)))"
      proof (intro allI impI)
        fix i assume "i + nat (limit (rl\<lparr>times := kept @ [t3]\<rparr>)) < length (recorded @ [t3])"
        then have iL: "i + L \<le> length recorded" by (simp add: L_def)
        show "(recorded @ [t3]) ! i + per_seconds (rl\<lparr>times := kept @ [t3]\<rparr>)
              \<le> (recorded @ [t3]) ! (i + nat (limit (rl\<lparr>times := kept @ [t3]\<rparr>)))"
        proof (cases "i + L < length recorded")
          case True
          with gap have "recorded ! i + w \<le> recorded ! (i + L)" by blast
          with True show ?thesis by (simp add: nth_append w_def L_def)
        next
          case False
          with iL have e: "i + L = length recorded" by simp
          with short lk have "i < k1" by simp
          from old1[OF this] nt have "recorded ! i + w \<le> t3" by simp
          moreover have "i < length recorded" using e L1(1) by simp
          ultimately show ?thesis using e by (simp add: nth_append w_def L_def)
        qed
      qed
    qed
    with acq show ?thesis by (intro exI[of _ "rl \<lparr> times := kept @ [t3] \<rparr>"] exI[of _ t3]) simp
  next
    case True
    with lkL L1 have full: "length kept = L" by simp
    with L1(1) obtain t0 rest where tr: "kept = t0 # rest" by (cases kept) auto
    have "t0 \<in> set (prune w now (times rl))" using tr by (simp add: kept_def)
    from prune_mem[OF this] have young: "now - t0 < w" .
    define now2 where "now2 = t0 + w + 0.05 + after_sleep tk"
    define t3 where "t3 = now2 + before_append tk"
    define kept2 where "kept2 = prune w now2 kept"
    have sl: "0 < w - (now - t0) + 0.05" using young by simp
    have n2: "now + (if 0 < w - (now - t0) + 0.05 then w - (now - t0) + 0.05 else 0) +
              after_sleep tk = now2"
      using sl by (simp add: now2_def)
    have acq: "acquire rl clock tk = Inr (rl \<lparr> times := kept2 @ [t3] \<rparr>, t3)"
    proof -
      have "acquire rl clock tk =
              Inr (rl \<lparr> times := prune w (now + (if 0 < w - (now - t0) + 0.05
                                                    then w - (now - t0) + 0.05 else 0) +
                                              after_sleep tk) kept @
                                  [now + (if 0 < w - (now - t0) + 0.05
                                          then w - (now - t0) + 0.05 else 0) +
                                   after_sleep tk + before_append tk] \<rparr>,
                   now + (if 0 < w - (now - t0) + 0.05 then w - (now - t0) + 0.05 else 0) +
                   after_sleep tk + before_append tk)"
        using True tr unfolding acquire_def Let_def
        by (simp only: kept_def[symmetric] now_def[symmetric] w_def[symmetric] if_True
              list.case)
      then show ?thesis unfolding n2 kept2_def t3_def .
    qed
    have nn2: "now \<le> now2" using young d by (simp add: now2_def)
    have nt: "now2 \<le> t3" using d by (simp add: t3_def)
    have t0w: "t0 + w \<le> now2" using d by (simp add: now2_def)
    have sk: "sorted kept" using srt k1(2) by (simp add: sorted_wrt_drop)
    from prune_suffix[OF sk, of w now2] obtain m2 where
      m2: "m2 \<le> length kept" "kept2 = drop m2 kept" "\<forall>j<m2. kept ! j + w \<le> now2"
      unfolding kept2_def by blast
    have "t0 \<notin> set kept2" using t0w prune_mem[of t0 w now2 kept] by (auto simp: kept2_def)
    then have "m2 \<noteq> 0" using m2(2) tr by (cases m2) auto
    then have l2: "length kept2 < L" using m2(1,2) full by simp
    have k2: "k1 + m2 \<le> length recorded" "kept2 = drop (k1 + m2) recorded"
      using k1 m2(1,2) lk by (simp_all add: add.commute)
    have old2: "recorded ! j + w \<le> now2" if "j < k1 + m2" for j
    proof (cases "j < k1")
      case True
      from old1[OF this] nn2 show ?thesis by simp
    next
      case False
      then have "j - k1 < m2" using that by simp
      with m2(3) have "kept ! (j - k1) + w \<le> now2" by blast
      moreover have "kept ! (j - k1) = recorded ! j"
        using False k1 that k2(1) by simp
      ultimately show ?thesis by simp
    qed
    have t0r: "recorded ! k1 = t0" "k1 + L = length recorded"
    proof -
      have "k1 < length recorded" using lk full L1(1) by simp
      then have "kept ! 0 = recorded ! k1" using k1(2) by simp
      with tr show "recorded ! k1 = t0" by simp
      show "k1 + L = length recorded" using lk full k1(1) by simp
    qed
    have "limiter_inv (rl \<lparr> times := kept2 @ [t3] \<rparr>) t3 (recorded @ [t3])"
      unfolding limiter_inv_def
    proof (intro conjI)
      show "sorted (recorded @ [t3])"
        using srt bnd cn nn2 nt by (auto simp: sorted_append)
      show "\<forall>t\<in>set (recorded @ [t3]). t \<le> t3" using bnd cn nn2 nt by auto
      show "\<exists>k\<le>length (recorded @ [t3]).
              times (rl\<lparr>times := kept2 @ [t3]\<rparr>) = drop k (recorded @ [t3]) \<and>
              (\<forall>j<k. (recorded @ [t3]) ! j + per_seconds (rl\<lparr>times := kept2 @ [t3]\<rparr>) \<le> t3)"
      proof (intro exI[of _ "k1 + m2"] conjI allI impI)
        show "k1 + m2 \<le> length (recorded @ [t3])" using k2(1) by simp
        show "times (rl\<lparr>times := kept2 @ [t3]\<rparr>) = drop (k1 + m2) (recorded @ [t3])"
          using k2 by simp
        fix j assume "j < k1 + m2"
        with old2[OF this] k2(1) nt
        show "(recorded @ [t3]) ! j + per_seconds (rl\<lparr>times := kept2 @ [t3]\<rparr>) \<le> t3"
          by (simp add: nth_append w_def)
      qed
      show "int (length (times (rl\<lparr>times := kept2 @ [t3]\<rparr>))) \<le> limit (rl\<lparr>times := kept2 @ [t3]\<rparr>)"
        using l2 L1(2) by simp
      show "\<forall>i. i + nat (limit (rl\<lparr>times := kept2 @ [t3]\<rparr>)) < length (recorded @ [t3]) \<longrightarrow>
              (recorded @ [t3]) ! i + per_seconds (rl\<lparr>times := kept2 @ [t3]\<rparr>)
              \<le> (recorded @ [t3]) ! (i + nat (limit (rl\<lparr>times := kept2 @ [t3]\<rparr>)))"
      proof (intro allI impI)
        fix i assume "i + nat (limit (rl\<lparr>times := kept2 @ [t3]\<rparr>)) < length (recorded @ [t3])"
        then have iL: "i + L \<le> length recorded" by (simp add: L_def)
        show "(recorded @ [t3]) ! i + per_seconds (rl\<lparr>times := kept2 @ [t3]\<rparr>)
              \<le> (recorded @ [t3]) ! (i + nat (limit (rl\<lparr>times := kept2 @ [t3]\<rparr>)))"
        proof (cases "i + L < length recorded")
          case True
          with gap have "recorded ! i + w \<le> recorded ! (i + L)" by blast
          with True show ?thesis by (simp add: nth_append w_def L_def)
        next
          case False
          with iL have e: "i + L = length recorded" by simp
          with t0r(2) have "i = k1" by simp
          with t0r(1) t0w nt have "recorded ! i + w \<le> t3" by simp
          moreover have "i < length recorded" using e L1(1) by simp
          ultimately show ?thesis using e by (simp add: nth_append w_def L_def)
        qed
      qed
    qed
    with acq show ?thesis by (intro exI[of _ "rl \<lparr> times := kept2 @ [t3] \<rparr>"] exI[of _ t3]) simp
  qed
qed


lemma acquire_all_inv:
  assumes "limiter_inv rl clock recorded" and "1 \<le> limit rl" and "\<forall>tk\<in>set tks. ticks_ok tk"
  shows "\<exists>rl' clock' rec'. acquire_all rl clock recorded tks = Inr (rl', clock', rec') \<and>
           limiter_inv rl' clock' rec' \<and> length rec' = length recorded + length tks \<and>
           limit rl' = limit rl \<and> per_seconds rl' = per_seconds rl"
  using assms
proof (induction tks arbitrary: rl clock recorded)
  case Nil
  then show ?case by simp
next
  case (Cons tk tks)
  from Cons.prems(3) have ok: "ticks_ok tk" and oks: "\<forall>tk\<in>set tks. ticks_ok tk" by simp_all
  from acquire_step[OF Cons.prems(1,2) ok] obtain rl1 c1 where
    a: "acquire rl clock tk = Inr (rl1, c1)" and
    i: "limiter_inv rl1 c1 (recorded @ [c1])" and
    e: "limit rl1 = limit rl" "per_seconds rl1 = per_seconds rl" by blast
  from Cons.prems(2) e(1) have "1 \<le> limit rl1" by simp
  from Cons.IH[OF i this oks] obtain rl' clock' rec' where
    "acquire_all rl1 c1 (recorded @ [c1]) tks = Inr (rl', clock', rec')"
    "limiter_inv rl' clock' rec'" "length rec' = length (recorded @ [c1]) + length tks"
    "limit rl' = limit rl1" "per_seconds rl' = per_seconds rl1" by blast
  with a e show ?case by simp
qed

lemma limiter_inv_init: "times rl = [] \<Longrightarrow> 0 \<le> limit rl \<Longrightarrow> limiter_inv rl clock []"
  by (simp add: limiter_inv_def)

lemma acquire_waits:
  assumes "ticks_ok tk"
    and "limit rl \<le> int (length (prune (per_seconds rl) (clock + before_now tk) (times rl)))"
    and "prune (per_seconds rl) (clock + before_now tk) (times rl) = t0 # rest"
  shows "\<exists>rl' clock'. acquire rl clock tk = Inr (rl', clock') \<and>
           last (times rl') = clock' \<and> t0 + per_seconds rl + 0.05 \<le> clock'"
proof -
  from assms(1) have d: "0 \<le> before_now tk" "0 \<le> after_sleep tk" "0 \<le> before_append tk"
    by (simp_all add: ticks_ok_def)
  have "t0 \<in> set (prune (per_seconds rl) (clock + before_now tk) (times rl))"
    using assms(3) by simp
  from prune_mem[OF this] have "clock + before_now tk - t0 < per_seconds rl" .
  then show ?thesis
    using assms(2,3) d unfolding acquire_def Let_def by simp
qed

lemma acquire_nonpositive_limit:
  "limit rl \<le> 0 \<Longrightarrow> times rl = [] \<Longrightarrow>
   acquire rl clock tk = Inl (IndexError ''list index out of range'')"
  by (simp add: acquire_def prune_def)

text \<open>
  Claim C6. For a limiter that starts empty and allows at least one call, every sequence
  of calls of \<open>acquire\<close> from one thread returns, and no window of \<open>per_seconds\<close> seconds
  holds more than \<open>limit\<close> of the recorded calls; this holds for every sequence, so after
  every call. And when \<open>limit\<close> times are still in the window, \<open>acquire\<close> records the new
  call only after the oldest of them has left it, 0.05 seconds and more after.
\<close>

theorem rate_limiter_window:
  assumes "1 \<le> limit rl" and "times rl = []" and "\<forall>tk\<in>set tks. ticks_ok tk"
  shows "(\<exists>rl' clock' recorded.
            acquire_all rl clock [] tks = Inr (rl', clock', recorded) \<and>
            length recorded = length tks \<and>
            (\<forall>s. int (calls_in_window (per_seconds rl) s recorded) \<le> limit rl)) \<and>
         (\<forall>rl0 clock0 tk t0 rest.
            ticks_ok tk \<and>
            limit rl0 \<le> int (length (prune (per_seconds rl0) (clock0 + before_now tk) (times rl0))) \<and>
            prune (per_seconds rl0) (clock0 + before_now tk) (times rl0) = t0 # rest \<longrightarrow>
            (\<exists>rl1 clock1. acquire rl0 clock0 tk = Inr (rl1, clock1) \<and>
                last (times rl1) = clock1 \<and> t0 + per_seconds rl0 + 0.05 \<le> clock1))"
proof -
  from assms(1,2) have "limiter_inv rl clock []" by (simp add: limiter_inv_init)
  from acquire_all_inv[OF this assms(1,3)] obtain rl' clock' rec' where
    r: "acquire_all rl clock [] tks = Inr (rl', clock', rec')" and
    i: "limiter_inv rl' clock' rec'" and
    l: "length rec' = length tks" and
    e: "limit rl' = limit rl" "per_seconds rl' = per_seconds rl" by auto
  from i e have s: "sorted rec'" and
    g: "\<forall>i. i + nat (limit rl) < length rec' \<longrightarrow>
           rec' ! i + per_seconds rl \<le> rec' ! (i + nat (limit rl))"
    unfolding limiter_inv_def by simp_all
  have "int (calls_in_window (per_seconds rl) s rec') \<le> limit rl" for s
    using window_bound[OF s g, of s] assms(1) by simp
  with r l have first: "\<exists>rl' clock' recorded.
            acquire_all rl clock [] tks = Inr (rl', clock', recorded) \<and>
            length recorded = length tks \<and>
            (\<forall>s. int (calls_in_window (per_seconds rl) s recorded) \<le> limit rl)" by blast
  have second: "\<forall>rl0 clock0 tk t0 rest.
            ticks_ok tk \<and>
            limit rl0 \<le> int (length (prune (per_seconds rl0) (clock0 + before_now tk) (times rl0))) \<and>
            prune (per_seconds rl0) (clock0 + before_now tk) (times rl0) = t0 # rest \<longrightarrow>
            (\<exists>rl1 clock1. acquire rl0 clock0 tk = Inr (rl1, clock1) \<and>
                last (times rl1) = clock1 \<and> t0 + per_seconds rl0 + 0.05 \<le> clock1)"
    using acquire_waits by blast
  from first second show ?thesis by (rule conjI)
qed

lemma example_acquire_all:
  "acquire_all example_limiter 10 [] [no_delay, no_delay, no_delay] =
     Inr (\<lparr> limit = 2, per_seconds = 1, times = [11.05] \<rparr>, 11.05, [10, 10, 11.05])"
  by (simp add: example_limiter_def no_delay_def acquire_def prune_def Let_def)

theorem rate_limiter_window_witness:
  "acquire_all example_limiter 10 [] [no_delay, no_delay, no_delay] =
     Inr (\<lparr> limit = 2, per_seconds = 1, times = [11.05] \<rparr>, 11.05, [10, 10, 11.05]) \<and>
   (\<forall>s. int (calls_in_window 1 s [10, 10, 11.05]) \<le> 2) \<and>
   calls_in_window 1 10 [10, 10, 11.05] = 2 \<and>
   prune 1 (10 + before_now no_delay) [10, 10] = [10, 10] \<and>
   acquire \<lparr> limit = 2, per_seconds = 1, times = [10, 10] \<rparr> 10 no_delay =
     Inr (\<lparr> limit = 2, per_seconds = 1, times = [11.05] \<rparr>, 11.05) \<and>
   (10 :: real) + 1 + 0.05 \<le> 11.05"
proof -
  have h1: "1 \<le> limit example_limiter" and h2: "times example_limiter = []"
    by (simp_all add: example_limiter_def)
  have h3: "\<forall>tk\<in>set [no_delay, no_delay, no_delay]. ticks_ok tk"
    by (simp add: ticks_ok_def no_delay_def)
  note t = rate_limiter_window[OF h1 h2 h3, of 10]
  from t[THEN conjunct1] example_acquire_all
  have a: "\<forall>s. int (calls_in_window 1 s [10, 10, 11.05]) \<le> 2"
    by (simp add: example_limiter_def)
  have b: "calls_in_window 1 10 [10, 10, 11.05] = 2"
    by (simp add: calls_in_window_def)
  have p: "prune 1 (10 + before_now no_delay) [10, 10] = [10, 10]"
    by (simp add: prune_def no_delay_def)
  have q: "acquire \<lparr> limit = 2, per_seconds = 1, times = [10, 10] \<rparr> 10 no_delay =
             Inr (\<lparr> limit = 2, per_seconds = 1, times = [11.05] \<rparr>, 11.05)"
    by (simp add: acquire_def prune_def no_delay_def Let_def)
  have pre: "ticks_ok no_delay \<and>
       limit \<lparr> limit = 2, per_seconds = 1, times = [10, 10] \<rparr>
         \<le> int (length (prune (per_seconds \<lparr> limit = 2, per_seconds = 1, times = [10, 10] \<rparr>)
                    (10 + before_now no_delay)
                    (times \<lparr> limit = 2, per_seconds = 1, times = [10, 10] \<rparr>))) \<and>
       prune (per_seconds \<lparr> limit = 2, per_seconds = 1, times = [10, 10] \<rparr>)
         (10 + before_now no_delay)
         (times \<lparr> limit = 2, per_seconds = 1, times = [10, 10] \<rparr>) = 10 # [10]"
    by (simp add: ticks_ok_def no_delay_def prune_def)
  from t[THEN conjunct2, rule_format, OF pre] q
  have c: "(10 :: real) + 1 + 0.05 \<le> 11.05" by simp
  from example_acquire_all a b p q c show ?thesis by blast
qed

section \<open>Properties of the monthly dataset\<close>

lemma all_ok_Inr:
  "all_ok xs = Inr ys \<Longrightarrow> length ys = length xs \<and> (\<forall>i<length xs. xs ! i = Inr (ys ! i))"
proof (induction xs arbitrary: ys)
  case Nil
  then show ?case by simp
next
  case (Cons x xs)
  from Cons.prems obtain v vs where
    x: "x = Inr v" and vs: "all_ok xs = Inr vs" and ys: "ys = v # vs"
    by (auto split: sum.splits)
  from Cons.IH[OF vs] have
    ih: "length vs = length xs" "\<forall>i<length xs. xs ! i = Inr (vs ! i)" by simp_all
  show ?case
  proof (intro conjI allI impI)
    show "length ys = length (x # xs)" using ih(1) ys by simp
    fix i assume "i < length (x # xs)"
    then show "(x # xs) ! i = Inr (ys ! i)" using x ys ih(2) by (cases i) auto
  qed
qed

lemma dict_of_None: "dict_of ser lbl = None \<longleftrightarrow> lbl \<notin> fst ` set ser"
  by (simp add: dict_of_def map_of_eq_None_iff)

lemma fne_self: "fne x x = is_nan x"
  by (cases x) (simp_all add: fne_def)

lemma Inr_pair_eq: "Inr (a, b) = Inr (c, d) \<Longrightarrow> a = c \<and> b = d"
  by simp

lemma month_prices_USD:
  "month_prices ''USD'' fx_map lbl px =
     Inr (px, if fx_map lbl \<noteq> None \<and> \<not> is_nan px then fmul px (the (fx_map lbl)) else NaN)"
  by (simp add: month_prices_def fne_self cong: if_cong)

lemma month_prices_other:
  "ccy \<noteq> ''USD'' \<Longrightarrow>
   month_prices ccy fx_map lbl px =
     (if \<not> in_None_0 (fx_map lbl) \<and> \<not> is_nan px then
        (case fdiv px (the (fx_map lbl)) of Inl e \<Rightarrow> Inl e | Inr u \<Rightarrow> Inr (u, px))
      else Inr (NaN, px))"
  by (simp add: month_prices_def fne_self cong: if_cong)

lemma monthly_row_Inr:
  assumes "monthly_row p months labels fx_map h = Inr r"
  shows "\<exists>ser. get_monthly_series p (Holding.symbol h) months = Inr ser \<and>
           length (m_usd_price r) = length labels \<and> length (m_usd_value r) = length labels \<and>
           length (m_jpy_price r) = length labels \<and> length (m_jpy_value r) = length labels \<and>
           (\<forall>j<length labels.
              month_prices (ccy_of h) fx_map (labels ! j) (aligned_price ser (labels ! j)) =
                Inr (m_usd_price r ! j, m_jpy_price r ! j) \<and>
              m_usd_value r ! j =
                (if is_nan (m_usd_price r ! j) then NaN
                 else fmul (m_usd_price r ! j) (Holding.shares h)) \<and>
              m_jpy_value r ! j =
                (if is_nan (m_jpy_price r ! j) then NaN
                 else fmul (m_jpy_price r ! j) (Holding.shares h)))"
proof -
  from assms obtain ser pairs n where
    ser: "get_monthly_series p (Holding.symbol h) months = Inr ser" and
    pairs: "all_ok (map (\<lambda>(lbl, px). month_prices (ccy_of h) fx_map lbl px)
                      (zip labels (align labels ser))) = Inr pairs" and
    r: "r = \<lparr> m_symbol = Holding.symbol h, m_shares = n, m_currency = ccy_of h,
              m_usd_price = map fst pairs,
              m_usd_value = month_values (Holding.shares h) (map fst pairs),
              m_jpy_price = map snd pairs,
              m_jpy_value = month_values (Holding.shares h) (map snd pairs) \<rparr>"
    unfolding monthly_row_def by (auto split: sum.splits)
  have la: "length (align labels ser) = length labels" by (simp add: align_def)
  from all_ok_Inr[OF pairs] la have
    lp: "length pairs = length labels" and
    ep: "\<forall>j<length labels.
           month_prices (ccy_of h) fx_map (labels ! j) (align labels ser ! j) = Inr (pairs ! j)"
    by simp_all
  have al: "align labels ser ! j = aligned_price ser (labels ! j)" if "j < length labels" for j
    using that by (simp add: align_def aligned_price_def)
  show ?thesis
  proof (intro exI[of _ ser] conjI allI impI)
    show "get_monthly_series p (Holding.symbol h) months = Inr ser" by (rule ser)
    show "length (m_usd_price r) = length labels" using r lp by simp
    show "length (m_usd_value r) = length labels" using r lp by (simp add: month_values_def)
    show "length (m_jpy_price r) = length labels" using r lp by simp
    show "length (m_jpy_value r) = length labels" using r lp by (simp add: month_values_def)
  next
    fix j assume j: "j < length labels"
    have "month_prices (ccy_of h) fx_map (labels ! j) (aligned_price ser (labels ! j))
            = Inr (pairs ! j)"
      using ep[rule_format, OF j] al[OF j] by simp
    then show "month_prices (ccy_of h) fx_map (labels ! j) (aligned_price ser (labels ! j)) =
                Inr (m_usd_price r ! j, m_jpy_price r ! j)"
      using r j lp by simp
    show "m_usd_value r ! j =
                (if is_nan (m_usd_price r ! j) then NaN
                 else fmul (m_usd_price r ! j) (Holding.shares h))"
      using r j lp by (simp add: month_values_def fne_self)
    show "m_jpy_value r ! j =
                (if is_nan (m_jpy_price r ! j) then NaN
                 else fmul (m_jpy_price r ! j) (Holding.shares h))"
      using r j lp by (simp add: month_values_def fne_self)
  qed
qed

lemma build_monthly_dataset_Some:
  assumes "build_monthly_dataset (Some p) holdings months = Inr (Some ds)"
  shows "\<exists>fx_pairs. get_monthly_series p ''USDJPY=X'' months = Inr fx_pairs \<and>
           ds_months ds = map fst fx_pairs \<and>
           ds_fx ds = map (dict_of fx_pairs) (ds_months ds) \<and>
           length (ds_rows ds) = length holdings \<and>
           (\<forall>i<length holdings.
              monthly_row p months (ds_months ds) (dict_of fx_pairs) (holdings ! i) =
                Inr (ds_rows ds ! i))"
proof -
  from assms obtain fx_pairs rs where
    fx: "get_monthly_series p ''USDJPY=X'' months = Inr fx_pairs" and
    rs: "all_ok (map (monthly_row p months (map fst fx_pairs) (dict_of fx_pairs)) holdings) = Inr rs" and
    ds: "ds = \<lparr> ds_months = map fst fx_pairs, ds_rows = rs,
               ds_fx = map (dict_of fx_pairs) (map fst fx_pairs) \<rparr>"
    unfolding build_monthly_dataset_def by (auto split: sum.splits)
  from all_ok_Inr[OF rs] have "length rs = length holdings"
    "\<forall>i<length holdings. monthly_row p months (map fst fx_pairs) (dict_of fx_pairs) (holdings ! i) = Inr (rs ! i)"
    by simp_all
  with fx ds show ?thesis by (intro exI[of _ fx_pairs]) simp
qed

lemma monthly_dataset_core:
  assumes "build_monthly_dataset (Some p) holdings months = Inr (Some ds)"
    and "i < length holdings" and "j < length (ds_months ds)"
  shows "length (ds_rows ds) = length holdings \<and>
         length (ds_fx ds) = length (ds_months ds) \<and>
         length (m_usd_price (ds_rows ds ! i)) = length (ds_months ds) \<and>
         length (m_usd_value (ds_rows ds ! i)) = length (ds_months ds) \<and>
         length (m_jpy_price (ds_rows ds ! i)) = length (ds_months ds) \<and>
         length (m_jpy_value (ds_rows ds ! i)) = length (ds_months ds) \<and>
         (\<exists>ser. get_monthly_series p (Holding.symbol (holdings ! i)) months = Inr ser \<and>
            (ds_months ds ! j \<notin> fst ` set ser \<longrightarrow>
               m_usd_price (ds_rows ds ! i) ! j = NaN \<and> m_usd_value (ds_rows ds ! i) ! j = NaN \<and>
               m_jpy_price (ds_rows ds ! i) ! j = NaN \<and> m_jpy_value (ds_rows ds ! i) ! j = NaN)) \<and>
         (ccy_of (holdings ! i) = ''USD'' \<longrightarrow>
            (\<not> is_nan (m_jpy_price (ds_rows ds ! i) ! j) \<or>
             \<not> is_nan (m_jpy_value (ds_rows ds ! i) ! j) \<longrightarrow>
               \<not> is_nan (m_usd_price (ds_rows ds ! i) ! j) \<and>
               (\<exists>v. ds_fx ds ! j = Some v \<and> \<not> is_nan v))) \<and>
         (ccy_of (holdings ! i) \<noteq> ''USD'' \<longrightarrow>
            (\<not> is_nan (m_usd_price (ds_rows ds ! i) ! j) \<or>
             \<not> is_nan (m_usd_value (ds_rows ds ! i) ! j) \<longrightarrow>
               \<not> is_nan (m_jpy_price (ds_rows ds ! i) ! j) \<and>
               (\<exists>v. ds_fx ds ! j = Some v \<and> \<not> is_nan v)))"
proof -
  let ?r = "ds_rows ds ! i"
  from build_monthly_dataset_Some[OF assms(1)] obtain fx_pairs where
    m: "ds_months ds = map fst fx_pairs" and
    f: "ds_fx ds = map (dict_of fx_pairs) (ds_months ds)" and
    l: "length (ds_rows ds) = length holdings" and
    r: "\<forall>i<length holdings.
          monthly_row p months (ds_months ds) (dict_of fx_pairs) (holdings ! i) =
            Inr (ds_rows ds ! i)" by blast
  from r assms(2) have
    "monthly_row p months (ds_months ds) (dict_of fx_pairs) (holdings ! i) = Inr ?r" by blast
  from monthly_row_Inr[OF this] assms(3) obtain ser where
    ser: "get_monthly_series p (Holding.symbol (holdings ! i)) months = Inr ser" and
    len: "length (m_usd_price ?r) = length (ds_months ds)"
         "length (m_usd_value ?r) = length (ds_months ds)"
         "length (m_jpy_price ?r) = length (ds_months ds)"
         "length (m_jpy_value ?r) = length (ds_months ds)" and
    mp: "month_prices (ccy_of (holdings ! i)) (dict_of fx_pairs)
           (ds_months ds ! j) (aligned_price ser (ds_months ds ! j)) =
             Inr (m_usd_price ?r ! j, m_jpy_price ?r ! j)" and
    uv: "m_usd_value ?r ! j =
           (if is_nan (m_usd_price ?r ! j) then NaN
            else fmul (m_usd_price ?r ! j) (Holding.shares (holdings ! i)))" and
    jv: "m_jpy_value ?r ! j =
           (if is_nan (m_jpy_price ?r ! j) then NaN
            else fmul (m_jpy_price ?r ! j) (Holding.shares (holdings ! i)))"
    by blast
  have fxj: "ds_fx ds ! j = dict_of fx_pairs (ds_months ds ! j)"
    using f assms(3) by simp
  have missing: "m_usd_price ?r ! j = NaN \<and> m_usd_value ?r ! j = NaN \<and>
                 m_jpy_price ?r ! j = NaN \<and> m_jpy_value ?r ! j = NaN"
    if "ds_months ds ! j \<notin> fst ` set ser"
  proof -
    from that have an: "aligned_price ser (ds_months ds ! j) = NaN"
      by (simp add: aligned_price_def dict_of_None[symmetric])
    have "Inr (NaN, NaN) =
            (Inr (m_usd_price ?r ! j, m_jpy_price ?r ! j) :: error + pyfloat \<times> pyfloat)"
    proof (cases "ccy_of (holdings ! i) = ''USD''")
      case True
      have "month_prices ''USD'' (dict_of fx_pairs) (ds_months ds ! j) NaN = Inr (NaN, NaN)"
        by (simp add: month_prices_USD)
      with mp an True show ?thesis by simp
    next
      case False
      have "month_prices (ccy_of (holdings ! i)) (dict_of fx_pairs) (ds_months ds ! j) NaN =
              Inr (NaN, NaN)"
        by (simp add: month_prices_other[OF False])
      with mp an show ?thesis by simp
    qed
    then have "NaN = m_usd_price ?r ! j \<and> NaN = m_jpy_price ?r ! j" by (rule Inr_pair_eq)
    then have n: "m_usd_price ?r ! j = NaN" "m_jpy_price ?r ! j = NaN" by simp_all
    from uv jv n show ?thesis by simp
  qed
  have usd: "\<not> is_nan (m_usd_price ?r ! j) \<and> (\<exists>v. ds_fx ds ! j = Some v \<and> \<not> is_nan v)"
    if "ccy_of (holdings ! i) = ''USD''"
       "\<not> is_nan (m_jpy_price ?r ! j) \<or> \<not> is_nan (m_jpy_value ?r ! j)"
  proof -
    from that(2) jv have nj: "\<not> is_nan (m_jpy_price ?r ! j)" by (auto split: if_splits)
    from mp have "Inr (aligned_price ser (ds_months ds ! j),
                       if dict_of fx_pairs (ds_months ds ! j) \<noteq> None \<and>
                          \<not> is_nan (aligned_price ser (ds_months ds ! j))
                       then fmul (aligned_price ser (ds_months ds ! j))
                              (the (dict_of fx_pairs (ds_months ds ! j)))
                       else NaN) =
                  (Inr (m_usd_price ?r ! j, m_jpy_price ?r ! j) :: error + pyfloat \<times> pyfloat)"
      unfolding that(1) month_prices_USD .
    then have
      e0: "aligned_price ser (ds_months ds ! j) = m_usd_price ?r ! j \<and>
         (if dict_of fx_pairs (ds_months ds ! j) \<noteq> None \<and>
                \<not> is_nan (aligned_price ser (ds_months ds ! j))
             then fmul (aligned_price ser (ds_months ds ! j))
                    (the (dict_of fx_pairs (ds_months ds ! j)))
             else NaN) = m_jpy_price ?r ! j"
      by (rule Inr_pair_eq)
    note e = e0[THEN conjunct1] e0[THEN conjunct2]
    have c: "dict_of fx_pairs (ds_months ds ! j) \<noteq> None \<and>
             \<not> is_nan (aligned_price ser (ds_months ds ! j))"
    proof (rule ccontr)
      assume "\<not> (dict_of fx_pairs (ds_months ds ! j) \<noteq> None \<and>
                 \<not> is_nan (aligned_price ser (ds_months ds ! j)))"
      then have "(if dict_of fx_pairs (ds_months ds ! j) \<noteq> None \<and>
                \<not> is_nan (aligned_price ser (ds_months ds ! j))
             then fmul (aligned_price ser (ds_months ds ! j))
                    (the (dict_of fx_pairs (ds_months ds ! j)))
             else NaN) = NaN" by (simp only: if_False)
      with e(2) nj show False by simp
    qed
    then obtain v where v1: "dict_of fx_pairs (ds_months ds ! j) = Some v" by blast
    from c e(2) have "fmul (aligned_price ser (ds_months ds ! j))
                        (the (dict_of fx_pairs (ds_months ds ! j))) = m_jpy_price ?r ! j"
      by (simp only: if_True simp_thms)
    with v1 nj have v3: "\<not> is_nan (fmul (aligned_price ser (ds_months ds ! j)) v)" by simp
    note v = v1 c[THEN conjunct2] v3
    from v(3) have "\<not> is_nan v" by (cases v; cases "aligned_price ser (ds_months ds ! j)") auto
    with v e(1) fxj show ?thesis by simp
  qed
  have jpy: "\<not> is_nan (m_jpy_price ?r ! j) \<and> (\<exists>v. ds_fx ds ! j = Some v \<and> \<not> is_nan v)"
    if "ccy_of (holdings ! i) \<noteq> ''USD''"
       "\<not> is_nan (m_usd_price ?r ! j) \<or> \<not> is_nan (m_usd_value ?r ! j)"
  proof -
    from that(2) uv have nu: "\<not> is_nan (m_usd_price ?r ! j)" by (auto split: if_splits)
    let ?px = "aligned_price ser (ds_months ds ! j)"
    let ?fx = "dict_of fx_pairs (ds_months ds ! j)"
    note mo = mp[unfolded month_prices_other[OF that(1)]]
    have g: "\<not> in_None_0 ?fx \<and> \<not> is_nan ?px"
    proof (rule ccontr)
      assume "\<not> (\<not> in_None_0 ?fx \<and> \<not> is_nan ?px)"
      with mo have "Inr (NaN, ?px) =
        (Inr (m_usd_price ?r ! j, m_jpy_price ?r ! j) :: error + pyfloat \<times> pyfloat)"
        by (simp only: if_False)
      then have "NaN = m_usd_price ?r ! j \<and> ?px = m_jpy_price ?r ! j" by (rule Inr_pair_eq)
      with nu show False by simp
    qed
    then obtain v where v1: "?fx = Some v" by (cases ?fx) simp_all
    from g mo have m2: "(case fdiv ?px (the ?fx) of Inl e \<Rightarrow> Inl e | Inr u \<Rightarrow> Inr (u, ?px)) =
        (Inr (m_usd_price ?r ! j, m_jpy_price ?r ! j) :: error + pyfloat \<times> pyfloat)"
      by (simp only: if_True simp_thms)
    have v34: "fdiv ?px v = Inr (m_usd_price ?r ! j) \<and> m_jpy_price ?r ! j = ?px"
    proof (cases "fdiv ?px v")
      case (Inl e)
      with m2 v1 show ?thesis by simp
    next
      case (Inr u)
      with m2 v1 have "Inr (u, ?px) =
        (Inr (m_usd_price ?r ! j, m_jpy_price ?r ! j) :: error + pyfloat \<times> pyfloat)" by simp
      then have "u = m_usd_price ?r ! j \<and> ?px = m_jpy_price ?r ! j" by (rule Inr_pair_eq)
      with Inr show ?thesis by simp
    qed
    note v = v1 g[THEN conjunct2] v34[THEN conjunct1] v34[THEN conjunct2]
    from v(3) nu have "\<not> is_nan v"
      by (cases v; cases "aligned_price ser (ds_months ds ! j)") (auto split: if_splits)
    with v fxj show ?thesis by simp
  qed
  have lf: "length (ds_fx ds) = length (ds_months ds)" using f by simp
  have c7: "\<exists>ser. get_monthly_series p (Holding.symbol (holdings ! i)) months = Inr ser \<and>
            (ds_months ds ! j \<notin> fst ` set ser \<longrightarrow>
               m_usd_price ?r ! j = NaN \<and> m_usd_value ?r ! j = NaN \<and>
               m_jpy_price ?r ! j = NaN \<and> m_jpy_value ?r ! j = NaN)"
    using ser missing by blast
  have c8: "ccy_of (holdings ! i) = ''USD'' \<longrightarrow>
            (\<not> is_nan (m_jpy_price ?r ! j) \<or> \<not> is_nan (m_jpy_value ?r ! j) \<longrightarrow>
               \<not> is_nan (m_usd_price ?r ! j) \<and>
               (\<exists>v. ds_fx ds ! j = Some v \<and> \<not> is_nan v))"
    using usd by blast
  have c9: "ccy_of (holdings ! i) \<noteq> ''USD'' \<longrightarrow>
            (\<not> is_nan (m_usd_price ?r ! j) \<or> \<not> is_nan (m_usd_value ?r ! j) \<longrightarrow>
               \<not> is_nan (m_jpy_price ?r ! j) \<and>
               (\<exists>v. ds_fx ds ! j = Some v \<and> \<not> is_nan v))"
    using jpy by blast
  show ?thesis
    by (intro conjI) (rule l lf len c7 c8 c9)+
qed

lemma aligned_price_mem:
  assumes "distinct (map fst ser)" and "(lbl, v) \<in> set ser"
  shows "aligned_price ser lbl = v"
proof -
  from assms have "map_of (rev ser) lbl = Some v"
    by (intro map_of_is_SomeI) (simp_all add: rev_map[symmetric])
  then show ?thesis by (simp add: aligned_price_def dict_of_def)
qed

lemma monthly_row_fields:
  assumes "monthly_row p months labels fx_map h = Inr r"
  shows "m_symbol r = Holding.symbol h \<and> m_currency r = ccy_of h \<and>
         int_round (Holding.shares h) = Inr (m_shares r)"
  using assms unfolding monthly_row_def by (auto split: sum.splits)

lemma monthly_dataset_pointwise:
  assumes "build_monthly_dataset (Some p) holdings months = Inr (Some ds)"
    and "i < length holdings" and "j < length (ds_months ds)"
  shows "\<exists>ser fx_pairs.
           get_monthly_series p (Holding.symbol (holdings ! i)) months = Inr ser \<and>
           get_monthly_series p ''USDJPY=X'' months = Inr fx_pairs \<and>
           ds_months ds = map fst fx_pairs \<and>
           ds_fx ds ! j = dict_of fx_pairs (ds_months ds ! j) \<and>
           month_prices (ccy_of (holdings ! i)) (dict_of fx_pairs)
             (ds_months ds ! j) (aligned_price ser (ds_months ds ! j)) =
               Inr (m_usd_price (ds_rows ds ! i) ! j, m_jpy_price (ds_rows ds ! i) ! j) \<and>
           m_usd_value (ds_rows ds ! i) ! j =
             (if is_nan (m_usd_price (ds_rows ds ! i) ! j) then NaN
              else fmul (m_usd_price (ds_rows ds ! i) ! j) (Holding.shares (holdings ! i))) \<and>
           m_jpy_value (ds_rows ds ! i) ! j =
             (if is_nan (m_jpy_price (ds_rows ds ! i) ! j) then NaN
              else fmul (m_jpy_price (ds_rows ds ! i) ! j) (Holding.shares (holdings ! i))) \<and>
           m_symbol (ds_rows ds ! i) = Holding.symbol (holdings ! i) \<and>
           m_currency (ds_rows ds ! i) = ccy_of (holdings ! i) \<and>
           int_round (Holding.shares (holdings ! i)) = Inr (m_shares (ds_rows ds ! i))"
proof -
  let ?r = "ds_rows ds ! i"
  from build_monthly_dataset_Some[OF assms(1)] obtain fx_pairs where
    fx: "get_monthly_series p ''USDJPY=X'' months = Inr fx_pairs" and
    m: "ds_months ds = map fst fx_pairs" and
    f: "ds_fx ds = map (dict_of fx_pairs) (ds_months ds)" and
    r: "\<forall>i<length holdings.
          monthly_row p months (ds_months ds) (dict_of fx_pairs) (holdings ! i) =
            Inr (ds_rows ds ! i)" by blast
  from r assms(2) have
    row: "monthly_row p months (ds_months ds) (dict_of fx_pairs) (holdings ! i) = Inr ?r" by blast
  from monthly_row_Inr[OF row] assms(3) obtain ser where
    ser: "get_monthly_series p (Holding.symbol (holdings ! i)) months = Inr ser" and
    mp: "month_prices (ccy_of (holdings ! i)) (dict_of fx_pairs)
           (ds_months ds ! j) (aligned_price ser (ds_months ds ! j)) =
             Inr (m_usd_price ?r ! j, m_jpy_price ?r ! j)" and
    uv: "m_usd_value ?r ! j =
           (if is_nan (m_usd_price ?r ! j) then NaN
            else fmul (m_usd_price ?r ! j) (Holding.shares (holdings ! i)))" and
    jv: "m_jpy_value ?r ! j =
           (if is_nan (m_jpy_price ?r ! j) then NaN
            else fmul (m_jpy_price ?r ! j) (Holding.shares (holdings ! i)))"
    by blast
  have fxj: "ds_fx ds ! j = dict_of fx_pairs (ds_months ds ! j)"
    using f assms(3) by simp
  note fl = monthly_row_fields[OF row]
  show ?thesis
    by (intro exI[of _ ser] exI[of _ fx_pairs] conjI)
       (rule ser fx m fxj mp uv jv fl[THEN conjunct1] fl[THEN conjunct2, THEN conjunct1]
             fl[THEN conjunct2, THEN conjunct2])+
qed

lemma month_prices_usd_eq:
  assumes "month_prices ''USD'' fx_map lbl px = Inr (u, jp)"
  shows "u = px \<and> jp = (case fx_map lbl of None \<Rightarrow> NaN
                         | Some v \<Rightarrow> if is_nan px then NaN else fmul px v)"
proof -
  from assms have "Inr (px, if fx_map lbl \<noteq> None \<and> \<not> is_nan px
                             then fmul px (the (fx_map lbl)) else NaN) =
                   (Inr (u, jp) :: error + pyfloat \<times> pyfloat)"
    unfolding month_prices_USD .
  then have e: "px = u \<and> (if fx_map lbl \<noteq> None \<and> \<not> is_nan px
                             then fmul px (the (fx_map lbl)) else NaN) = jp"
    by (rule Inr_pair_eq)
  show ?thesis
  proof (cases "fx_map lbl")
    case None
    with e show ?thesis by simp
  next
    case (Some v)
    with e show ?thesis by (cases "is_nan px") auto
  qed
qed

lemma month_prices_other_eq:
  assumes "ccy \<noteq> ''USD''" and "month_prices ccy fx_map lbl px = Inr (u, jp)"
  shows "jp = px \<and> (in_None_0 (fx_map lbl) \<or> is_nan px \<longrightarrow> u = NaN) \<and>
         (\<forall>v. fx_map lbl = Some v \<and> \<not> feq v (Fin 0) \<and> \<not> is_nan px \<longrightarrow>
              fdiv px v = Inr u)"
proof (cases "\<not> in_None_0 (fx_map lbl) \<and> \<not> is_nan px")
  case True
  then obtain v where v: "fx_map lbl = Some v" "\<not> feq v (Fin 0)"
    by (cases "fx_map lbl") simp_all
  from assms(2) True have
    m: "(case fdiv px (the (fx_map lbl)) of Inl e \<Rightarrow> Inl e | Inr w \<Rightarrow> Inr (w, px)) =
          (Inr (u, jp) :: error + pyfloat \<times> pyfloat)"
    unfolding month_prices_other[OF assms(1)] by (simp only: if_True simp_thms)
  have "fdiv px v = Inr u \<and> jp = px"
  proof (cases "fdiv px v")
    case (Inl e)
    with m v show ?thesis by simp
  next
    case (Inr w)
    with m v have "Inr (w, px) = (Inr (u, jp) :: error + pyfloat \<times> pyfloat)" by simp
    then have "w = u \<and> px = jp" by (rule Inr_pair_eq)
    with Inr show ?thesis by simp
  qed
  with True v show ?thesis by auto
next
  case False
  with assms(2) have "Inr (NaN, px) = (Inr (u, jp) :: error + pyfloat \<times> pyfloat)"
    unfolding month_prices_other[OF assms(1)] by (simp only: if_False)
  then have "NaN = u \<and> px = jp" by (rule Inr_pair_eq)
  with False show ?thesis by auto
qed

lemma conj9_append:
  "A1 \<and> A2 \<and> A3 \<and> A4 \<and> A5 \<and> A6 \<and> A7 \<and> A8 \<and> A9 \<Longrightarrow> B \<Longrightarrow>
   A1 \<and> A2 \<and> A3 \<and> A4 \<and> A5 \<and> A6 \<and> A7 \<and> A8 \<and> A9 \<and> B"
  by blast

text \<open>
  Claim C7. In a dataset built from a provider with monthly series, the four series of
  every holding have the length of the list of months. A holding whose series has no
  entry for a month has the sentinel at the index of that month, in all four series. A
  converted value (the JPY price and value of a USD holding, the USD price and value of
  any other holding) is a number at a month only if the raw price of the holding and the
  FX value at that month are both numbers. And the test is made for each month on its
  own: the raw price at a month is the entry of the series of the holding for that month,
  the converted price is computed from that entry and from the FX entry of the same month
  alone, and each value is the price of the month times the shares. So a month that has
  a price \<open>a\<close> and an FX value \<open>b\<close> keeps its numbers, \<open>a * b\<close> for a USD holding and
  \<open>a / b\<close> for any other holding when \<open>b\<close> is not zero, whatever the other months hold.
\<close>

theorem monthly_dataset_aligned:
  assumes "build_monthly_dataset (Some p) holdings months = Inr (Some ds)"
    and "i < length holdings" and "j < length (ds_months ds)"
  shows "length (ds_rows ds) = length holdings \<and>
         length (ds_fx ds) = length (ds_months ds) \<and>
         length (m_usd_price (ds_rows ds ! i)) = length (ds_months ds) \<and>
         length (m_usd_value (ds_rows ds ! i)) = length (ds_months ds) \<and>
         length (m_jpy_price (ds_rows ds ! i)) = length (ds_months ds) \<and>
         length (m_jpy_value (ds_rows ds ! i)) = length (ds_months ds) \<and>
         (\<exists>ser. get_monthly_series p (Holding.symbol (holdings ! i)) months = Inr ser \<and>
            (ds_months ds ! j \<notin> fst ` set ser \<longrightarrow>
               m_usd_price (ds_rows ds ! i) ! j = NaN \<and> m_usd_value (ds_rows ds ! i) ! j = NaN \<and>
               m_jpy_price (ds_rows ds ! i) ! j = NaN \<and> m_jpy_value (ds_rows ds ! i) ! j = NaN)) \<and>
         (ccy_of (holdings ! i) = ''USD'' \<longrightarrow>
            (\<not> is_nan (m_jpy_price (ds_rows ds ! i) ! j) \<or>
             \<not> is_nan (m_jpy_value (ds_rows ds ! i) ! j) \<longrightarrow>
               \<not> is_nan (m_usd_price (ds_rows ds ! i) ! j) \<and>
               (\<exists>v. ds_fx ds ! j = Some v \<and> \<not> is_nan v))) \<and>
         (ccy_of (holdings ! i) \<noteq> ''USD'' \<longrightarrow>
            (\<not> is_nan (m_usd_price (ds_rows ds ! i) ! j) \<or>
             \<not> is_nan (m_usd_value (ds_rows ds ! i) ! j) \<longrightarrow>
               \<not> is_nan (m_jpy_price (ds_rows ds ! i) ! j) \<and>
               (\<exists>v. ds_fx ds ! j = Some v \<and> \<not> is_nan v))) \<and>
         (m_symbol (ds_rows ds ! i) = Holding.symbol (holdings ! i) \<and>
          m_currency (ds_rows ds ! i) = ccy_of (holdings ! i) \<and>
          int_round (Holding.shares (holdings ! i)) = Inr (m_shares (ds_rows ds ! i)) \<and>
          (\<exists>ser fx_pairs.
             get_monthly_series p (Holding.symbol (holdings ! i)) months = Inr ser \<and>
             get_monthly_series p ''USDJPY=X'' months = Inr fx_pairs \<and>
             ds_months ds = map fst fx_pairs \<and>
             ds_fx ds ! j = dict_of fx_pairs (ds_months ds ! j) \<and>
             (ccy_of (holdings ! i) = ''USD'' \<longrightarrow>
                m_usd_price (ds_rows ds ! i) ! j = aligned_price ser (ds_months ds ! j)) \<and>
             (ccy_of (holdings ! i) \<noteq> ''USD'' \<longrightarrow>
                m_jpy_price (ds_rows ds ! i) ! j = aligned_price ser (ds_months ds ! j)) \<and>
             (\<forall>v. dict_of ser (ds_months ds ! j) = Some v \<longrightarrow>
                aligned_price ser (ds_months ds ! j) = v) \<and>
             (\<forall>v. distinct (map fst ser) \<and> (ds_months ds ! j, v) \<in> set ser \<longrightarrow>
                aligned_price ser (ds_months ds ! j) = v)) \<and>
          m_usd_value (ds_rows ds ! i) ! j =
            (if is_nan (m_usd_price (ds_rows ds ! i) ! j) then NaN
             else fmul (m_usd_price (ds_rows ds ! i) ! j) (Holding.shares (holdings ! i))) \<and>
          m_jpy_value (ds_rows ds ! i) ! j =
            (if is_nan (m_jpy_price (ds_rows ds ! i) ! j) then NaN
             else fmul (m_jpy_price (ds_rows ds ! i) ! j) (Holding.shares (holdings ! i))) \<and>
          (ccy_of (holdings ! i) = ''USD'' \<longrightarrow>
             m_jpy_price (ds_rows ds ! i) ! j =
               (case ds_fx ds ! j of
                  None \<Rightarrow> NaN
                | Some v \<Rightarrow> if is_nan (m_usd_price (ds_rows ds ! i) ! j) then NaN
                            else fmul (m_usd_price (ds_rows ds ! i) ! j) v)) \<and>
          (ccy_of (holdings ! i) \<noteq> ''USD'' \<longrightarrow>
             (in_None_0 (ds_fx ds ! j) \<or> is_nan (m_jpy_price (ds_rows ds ! i) ! j) \<longrightarrow>
                m_usd_price (ds_rows ds ! i) ! j = NaN) \<and>
             (\<forall>v. ds_fx ds ! j = Some v \<and> \<not> feq v (Fin 0) \<and>
                   \<not> is_nan (m_jpy_price (ds_rows ds ! i) ! j) \<longrightarrow>
                fdiv (m_jpy_price (ds_rows ds ! i) ! j) v =
                  Inr (m_usd_price (ds_rows ds ! i) ! j))) \<and>
          (\<forall>a b. ccy_of (holdings ! i) = ''USD'' \<and>
                  m_usd_price (ds_rows ds ! i) ! j = Fin a \<and> ds_fx ds ! j = Some (Fin b) \<longrightarrow>
             m_jpy_price (ds_rows ds ! i) ! j = Fin (a * b) \<and>
             (\<forall>n. Holding.shares (holdings ! i) = Fin n \<longrightarrow>
                m_usd_value (ds_rows ds ! i) ! j = Fin (a * n) \<and>
                m_jpy_value (ds_rows ds ! i) ! j = Fin (a * b * n))) \<and>
          (\<forall>a b. ccy_of (holdings ! i) \<noteq> ''USD'' \<and>
                  m_jpy_price (ds_rows ds ! i) ! j = Fin a \<and> ds_fx ds ! j = Some (Fin b) \<and>
                  b \<noteq> 0 \<longrightarrow>
             m_usd_price (ds_rows ds ! i) ! j = Fin (a / b) \<and>
             (\<forall>n. Holding.shares (holdings ! i) = Fin n \<longrightarrow>
                m_usd_value (ds_rows ds ! i) ! j = Fin (a / b * n) \<and>
                m_jpy_value (ds_rows ds ! i) ! j = Fin (a * n))))"
proof -
  let ?r = "ds_rows ds ! i"
  let ?h = "holdings ! i"
  let ?lbl = "ds_months ds ! j"
  note core = monthly_dataset_core[OF assms]
  from monthly_dataset_pointwise[OF assms] obtain ser fx_pairs where
    ser: "get_monthly_series p (Holding.symbol ?h) months = Inr ser" and
    fx: "get_monthly_series p ''USDJPY=X'' months = Inr fx_pairs" and
    m: "ds_months ds = map fst fx_pairs" and
    fxj: "ds_fx ds ! j = dict_of fx_pairs ?lbl" and
    mp: "month_prices (ccy_of ?h) (dict_of fx_pairs) ?lbl (aligned_price ser ?lbl) =
           Inr (m_usd_price ?r ! j, m_jpy_price ?r ! j)" and
    uv: "m_usd_value ?r ! j =
           (if is_nan (m_usd_price ?r ! j) then NaN
            else fmul (m_usd_price ?r ! j) (Holding.shares ?h))" and
    jv: "m_jpy_value ?r ! j =
           (if is_nan (m_jpy_price ?r ! j) then NaN
            else fmul (m_jpy_price ?r ! j) (Holding.shares ?h))" and
    sy: "m_symbol ?r = Holding.symbol ?h" and
    cu: "m_currency ?r = ccy_of ?h" and
    sh: "int_round (Holding.shares ?h) = Inr (m_shares ?r)"
    by blast
  have U: "m_usd_price ?r ! j = aligned_price ser ?lbl \<and>
           m_jpy_price ?r ! j =
             (case ds_fx ds ! j of
                None \<Rightarrow> NaN
              | Some v \<Rightarrow> if is_nan (m_usd_price ?r ! j) then NaN
                          else fmul (m_usd_price ?r ! j) v)"
    if "ccy_of ?h = ''USD''"
  proof -
    from mp have "month_prices ''USD'' (dict_of fx_pairs) ?lbl (aligned_price ser ?lbl) =
                    Inr (m_usd_price ?r ! j, m_jpy_price ?r ! j)"
      unfolding that .
    from month_prices_usd_eq[OF this] have
      a: "m_usd_price ?r ! j = aligned_price ser ?lbl" and
      b: "m_jpy_price ?r ! j =
            (case dict_of fx_pairs ?lbl of
               None \<Rightarrow> NaN
             | Some v \<Rightarrow> if is_nan (aligned_price ser ?lbl) then NaN
                         else fmul (aligned_price ser ?lbl) v)"
      by blast+
    from b show ?thesis unfolding a[symmetric] fxj[symmetric] using a by blast
  qed
  have J: "m_jpy_price ?r ! j = aligned_price ser ?lbl \<and>
           (in_None_0 (ds_fx ds ! j) \<or> is_nan (m_jpy_price ?r ! j) \<longrightarrow>
              m_usd_price ?r ! j = NaN) \<and>
           (\<forall>v. ds_fx ds ! j = Some v \<and> \<not> feq v (Fin 0) \<and> \<not> is_nan (m_jpy_price ?r ! j) \<longrightarrow>
              fdiv (m_jpy_price ?r ! j) v = Inr (m_usd_price ?r ! j))"
    if "ccy_of ?h \<noteq> ''USD''"
  proof -
    from month_prices_other_eq[OF that mp] have
      a: "m_jpy_price ?r ! j = aligned_price ser ?lbl" and
      b: "(in_None_0 (dict_of fx_pairs ?lbl) \<or> is_nan (aligned_price ser ?lbl) \<longrightarrow>
             m_usd_price ?r ! j = NaN) \<and>
          (\<forall>v. dict_of fx_pairs ?lbl = Some v \<and> \<not> feq v (Fin 0) \<and>
                \<not> is_nan (aligned_price ser ?lbl) \<longrightarrow>
             fdiv (aligned_price ser ?lbl) v = Inr (m_usd_price ?r ! j))"
      by blast+
    from b show ?thesis unfolding a[symmetric] fxj[symmetric] using a by blast
  qed
  have n1: "ccy_of ?h = ''USD'' \<longrightarrow> m_usd_price ?r ! j = aligned_price ser ?lbl"
    using U by blast
  have n2: "ccy_of ?h \<noteq> ''USD'' \<longrightarrow> m_jpy_price ?r ! j = aligned_price ser ?lbl"
    using J by blast
  have n3: "\<forall>v. dict_of ser ?lbl = Some v \<longrightarrow> aligned_price ser ?lbl = v"
    by (simp add: aligned_price_def)
  have n4: "\<forall>v. distinct (map fst ser) \<and> (?lbl, v) \<in> set ser \<longrightarrow> aligned_price ser ?lbl = v"
    using aligned_price_mem by blast
  have ex: "\<exists>ser fx_pairs.
             get_monthly_series p (Holding.symbol ?h) months = Inr ser \<and>
             get_monthly_series p ''USDJPY=X'' months = Inr fx_pairs \<and>
             ds_months ds = map fst fx_pairs \<and>
             ds_fx ds ! j = dict_of fx_pairs ?lbl \<and>
             (ccy_of ?h = ''USD'' \<longrightarrow> m_usd_price ?r ! j = aligned_price ser ?lbl) \<and>
             (ccy_of ?h \<noteq> ''USD'' \<longrightarrow> m_jpy_price ?r ! j = aligned_price ser ?lbl) \<and>
             (\<forall>v. dict_of ser ?lbl = Some v \<longrightarrow> aligned_price ser ?lbl = v) \<and>
             (\<forall>v. distinct (map fst ser) \<and> (?lbl, v) \<in> set ser \<longrightarrow>
                aligned_price ser ?lbl = v)"
    by (intro exI[of _ ser] exI[of _ fx_pairs] conjI) (rule ser fx m fxj n1 n2 n3 n4)+
  have n5: "ccy_of ?h = ''USD'' \<longrightarrow>
             m_jpy_price ?r ! j =
               (case ds_fx ds ! j of
                  None \<Rightarrow> NaN
                | Some v \<Rightarrow> if is_nan (m_usd_price ?r ! j) then NaN
                            else fmul (m_usd_price ?r ! j) v)"
    using U by blast
  have n6: "ccy_of ?h \<noteq> ''USD'' \<longrightarrow>
             (in_None_0 (ds_fx ds ! j) \<or> is_nan (m_jpy_price ?r ! j) \<longrightarrow>
                m_usd_price ?r ! j = NaN) \<and>
             (\<forall>v. ds_fx ds ! j = Some v \<and> \<not> feq v (Fin 0) \<and>
                   \<not> is_nan (m_jpy_price ?r ! j) \<longrightarrow>
                fdiv (m_jpy_price ?r ! j) v = Inr (m_usd_price ?r ! j))"
    using J by blast
  have n7: "\<forall>a b. ccy_of ?h = ''USD'' \<and>
                  m_usd_price ?r ! j = Fin a \<and> ds_fx ds ! j = Some (Fin b) \<longrightarrow>
             m_jpy_price ?r ! j = Fin (a * b) \<and>
             (\<forall>n. Holding.shares ?h = Fin n \<longrightarrow>
                m_usd_value ?r ! j = Fin (a * n) \<and>
                m_jpy_value ?r ! j = Fin (a * b * n))"
  proof (intro allI impI)
    fix a b
    assume h: "ccy_of ?h = ''USD'' \<and>
               m_usd_price ?r ! j = Fin a \<and> ds_fx ds ! j = Some (Fin b)"
    then have c: "ccy_of ?h = ''USD''" and pa: "m_usd_price ?r ! j = Fin a"
      and fb: "ds_fx ds ! j = Some (Fin b)" by blast+
    from U[OF c, THEN conjunct2] have jp: "m_jpy_price ?r ! j = Fin (a * b)"
      unfolding pa fb by simp
    have vals: "m_usd_value ?r ! j = Fin (a * n) \<and> m_jpy_value ?r ! j = Fin (a * b * n)"
      if "Holding.shares ?h = Fin n" for n
      using uv jv unfolding pa jp that by simp
    from jp vals
    show "m_jpy_price ?r ! j = Fin (a * b) \<and>
          (\<forall>n. Holding.shares ?h = Fin n \<longrightarrow>
             m_usd_value ?r ! j = Fin (a * n) \<and> m_jpy_value ?r ! j = Fin (a * b * n))"
      by blast
  qed
  have n8: "\<forall>a b. ccy_of ?h \<noteq> ''USD'' \<and>
                  m_jpy_price ?r ! j = Fin a \<and> ds_fx ds ! j = Some (Fin b) \<and> b \<noteq> 0 \<longrightarrow>
             m_usd_price ?r ! j = Fin (a / b) \<and>
             (\<forall>n. Holding.shares ?h = Fin n \<longrightarrow>
                m_usd_value ?r ! j = Fin (a / b * n) \<and>
                m_jpy_value ?r ! j = Fin (a * n))"
  proof (intro allI impI)
    fix a b
    assume h: "ccy_of ?h \<noteq> ''USD'' \<and>
               m_jpy_price ?r ! j = Fin a \<and> ds_fx ds ! j = Some (Fin b) \<and> b \<noteq> 0"
    then have c: "ccy_of ?h \<noteq> ''USD''" and pa: "m_jpy_price ?r ! j = Fin a"
      and fb: "ds_fx ds ! j = Some (Fin b)" and b0: "b \<noteq> 0" by blast+
    have pre: "ds_fx ds ! j = Some (Fin b) \<and> \<not> feq (Fin b) (Fin 0) \<and>
               \<not> is_nan (m_jpy_price ?r ! j)"
      using fb b0 pa by simp
    from J[OF c, THEN conjunct2, THEN conjunct2, rule_format, OF pre]
    have "fdiv (Fin a) (Fin b) = Inr (m_usd_price ?r ! j)" unfolding pa .
    with b0 have up: "m_usd_price ?r ! j = Fin (a / b)" by simp
    have vals: "m_usd_value ?r ! j = Fin (a / b * n) \<and> m_jpy_value ?r ! j = Fin (a * n)"
      if "Holding.shares ?h = Fin n" for n
      using uv jv unfolding pa up that by simp
    from up vals
    show "m_usd_price ?r ! j = Fin (a / b) \<and>
          (\<forall>n. Holding.shares ?h = Fin n \<longrightarrow>
             m_usd_value ?r ! j = Fin (a / b * n) \<and> m_jpy_value ?r ! j = Fin (a * n))"
      by blast
  qed
  have new: "m_symbol ?r = Holding.symbol ?h \<and>
          m_currency ?r = ccy_of ?h \<and>
          int_round (Holding.shares ?h) = Inr (m_shares ?r) \<and>
          (\<exists>ser fx_pairs.
             get_monthly_series p (Holding.symbol ?h) months = Inr ser \<and>
             get_monthly_series p ''USDJPY=X'' months = Inr fx_pairs \<and>
             ds_months ds = map fst fx_pairs \<and>
             ds_fx ds ! j = dict_of fx_pairs ?lbl \<and>
             (ccy_of ?h = ''USD'' \<longrightarrow> m_usd_price ?r ! j = aligned_price ser ?lbl) \<and>
             (ccy_of ?h \<noteq> ''USD'' \<longrightarrow> m_jpy_price ?r ! j = aligned_price ser ?lbl) \<and>
             (\<forall>v. dict_of ser ?lbl = Some v \<longrightarrow> aligned_price ser ?lbl = v) \<and>
             (\<forall>v. distinct (map fst ser) \<and> (?lbl, v) \<in> set ser \<longrightarrow>
                aligned_price ser ?lbl = v)) \<and>
          m_usd_value ?r ! j =
            (if is_nan (m_usd_price ?r ! j) then NaN
             else fmul (m_usd_price ?r ! j) (Holding.shares ?h)) \<and>
          m_jpy_value ?r ! j =
            (if is_nan (m_jpy_price ?r ! j) then NaN
             else fmul (m_jpy_price ?r ! j) (Holding.shares ?h)) \<and>
          (ccy_of ?h = ''USD'' \<longrightarrow>
             m_jpy_price ?r ! j =
               (case ds_fx ds ! j of
                  None \<Rightarrow> NaN
                | Some v \<Rightarrow> if is_nan (m_usd_price ?r ! j) then NaN
                            else fmul (m_usd_price ?r ! j) v)) \<and>
          (ccy_of ?h \<noteq> ''USD'' \<longrightarrow>
             (in_None_0 (ds_fx ds ! j) \<or> is_nan (m_jpy_price ?r ! j) \<longrightarrow>
                m_usd_price ?r ! j = NaN) \<and>
             (\<forall>v. ds_fx ds ! j = Some v \<and> \<not> feq v (Fin 0) \<and>
                   \<not> is_nan (m_jpy_price ?r ! j) \<longrightarrow>
                fdiv (m_jpy_price ?r ! j) v = Inr (m_usd_price ?r ! j))) \<and>
          (\<forall>a b. ccy_of ?h = ''USD'' \<and>
                  m_usd_price ?r ! j = Fin a \<and> ds_fx ds ! j = Some (Fin b) \<longrightarrow>
             m_jpy_price ?r ! j = Fin (a * b) \<and>
             (\<forall>n. Holding.shares ?h = Fin n \<longrightarrow>
                m_usd_value ?r ! j = Fin (a * n) \<and>
                m_jpy_value ?r ! j = Fin (a * b * n))) \<and>
          (\<forall>a b. ccy_of ?h \<noteq> ''USD'' \<and>
                  m_jpy_price ?r ! j = Fin a \<and> ds_fx ds ! j = Some (Fin b) \<and> b \<noteq> 0 \<longrightarrow>
             m_usd_price ?r ! j = Fin (a / b) \<and>
             (\<forall>n. Holding.shares ?h = Fin n \<longrightarrow>
                m_usd_value ?r ! j = Fin (a / b * n) \<and>
                m_jpy_value ?r ! j = Fin (a * n)))"
    by (intro conjI) (rule sy cu sh ex uv jv n5 n6 n7 n8)+
  show ?thesis by (rule conj9_append[OF core new])
qed

lemma example_build_monthly_dataset:
  "build_monthly_dataset (Some example_yf) example_holdings 12 = Inr (Some example_dataset)"
  by (simp add: build_monthly_dataset_def example_yf_def example_series_def example_holdings_def
      monthly_row_def dict_of_def align_def month_prices_def month_values_def ccy_of_def upper_def
      upper_char_def int_round_def round_half_even_def fne_def example_dataset_def)

lemma conj9_take:
  "A1 \<and> A2 \<and> A3 \<and> A4 \<and> A5 \<and> A6 \<and> A7 \<and> A8 \<and> A9 \<and> B \<Longrightarrow>
   A1 \<and> A2 \<and> A3 \<and> A4 \<and> A5 \<and> A6 \<and> A7 \<and> A8 \<and> A9"
  by blast

lemma conj9_drop:
  "A1 \<and> A2 \<and> A3 \<and> A4 \<and> A5 \<and> A6 \<and> A7 \<and> A8 \<and> A9 \<and> B \<Longrightarrow> B"
  by blast

theorem monthly_dataset_aligned_witness:
  "build_monthly_dataset (Some example_yf) example_holdings 12 = Inr (Some example_dataset) \<and>
   length (ds_months example_dataset) = 3 \<and>
   length (m_usd_price (ds_rows example_dataset ! 0)) = length (ds_months example_dataset) \<and>
   length (m_jpy_value (ds_rows example_dataset ! 0)) = length (ds_months example_dataset) \<and>
   m_usd_price (ds_rows example_dataset ! 0) ! 1 = NaN \<and>
   m_usd_value (ds_rows example_dataset ! 0) ! 1 = NaN \<and>
   m_jpy_price (ds_rows example_dataset ! 0) ! 1 = NaN \<and>
   m_jpy_value (ds_rows example_dataset ! 0) ! 1 = NaN \<and>
   \<not> is_nan (m_jpy_price (ds_rows example_dataset ! 0) ! 0) \<and>
   \<not> is_nan (m_usd_price (ds_rows example_dataset ! 0) ! 0) \<and>
   (\<exists>v. ds_fx example_dataset ! 0 = Some v \<and> \<not> is_nan v) \<and>
   m_usd_price (ds_rows example_dataset ! 0) ! 0 = Fin 100 \<and>
   m_jpy_price (ds_rows example_dataset ! 0) ! 0 = Fin (100 * 140) \<and>
   m_usd_value (ds_rows example_dataset ! 0) ! 0 = Fin (100 * 10) \<and>
   m_jpy_value (ds_rows example_dataset ! 0) ! 0 = Fin (100 * 140 * 10) \<and>
   m_jpy_price (ds_rows example_dataset ! 1) ! 0 = Fin 2800 \<and>
   m_usd_price (ds_rows example_dataset ! 1) ! 0 = Fin (2800 / 140) \<and>
   m_usd_value (ds_rows example_dataset ! 1) ! 0 = Fin (2800 / 140 * 5) \<and>
   m_jpy_value (ds_rows example_dataset ! 1) ! 0 = Fin (2800 * 5)"
proof -
  have l0: "0 < length example_holdings" and l1: "1 < length example_holdings"
    by (simp_all add: example_holdings_def)
  have j1: "1 < length (ds_months example_dataset)" and j0: "0 < length (ds_months example_dataset)"
    and l3: "length (ds_months example_dataset) = 3"
    by (simp_all add: example_dataset_def)
  note t1 = monthly_dataset_aligned[OF example_build_monthly_dataset l0 j1]
  note t0 = monthly_dataset_aligned[OF example_build_monthly_dataset l0 j0]
  note s0 = monthly_dataset_aligned[OF example_build_monthly_dataset l1 j0]
  note c1 = conj9_take[OF t1]
  note c0 = conj9_take[OF t0]
  note n0 = conj9_drop[OF t0]
  note m0 = conj9_drop[OF s0]
  from c1 have len:
    "length (m_usd_price (ds_rows example_dataset ! 0)) = length (ds_months example_dataset)"
    "length (m_jpy_value (ds_rows example_dataset ! 0)) = length (ds_months example_dataset)"
    by blast+
  from c1 obtain ser where
    s: "get_monthly_series example_yf (Holding.symbol (example_holdings ! 0)) 12 = Inr ser" and
    imp: "ds_months example_dataset ! 1 \<notin> fst ` set ser \<longrightarrow>
            m_usd_price (ds_rows example_dataset ! 0) ! 1 = NaN \<and>
            m_usd_value (ds_rows example_dataset ! 0) ! 1 = NaN \<and>
            m_jpy_price (ds_rows example_dataset ! 0) ! 1 = NaN \<and>
            m_jpy_value (ds_rows example_dataset ! 0) ! 1 = NaN"
    by blast
  from s have "ser = [(''2024-01'', Fin 100), (''2024-03'', Fin 120)]"
    by (simp add: example_yf_def example_series_def example_holdings_def)
  then have "ds_months example_dataset ! 1 \<notin> fst ` set ser"
    by (simp add: example_dataset_def)
  with imp have nans:
    "m_usd_price (ds_rows example_dataset ! 0) ! 1 = NaN \<and>
     m_usd_value (ds_rows example_dataset ! 0) ! 1 = NaN \<and>
     m_jpy_price (ds_rows example_dataset ! 0) ! 1 = NaN \<and>
     m_jpy_value (ds_rows example_dataset ! 0) ! 1 = NaN" by blast
  have u: "ccy_of (example_holdings ! 0) = ''USD''"
    by (simp add: example_holdings_def ccy_of_def upper_def upper_char_def)
  have n: "\<not> is_nan (m_jpy_price (ds_rows example_dataset ! 0) ! 0)"
    by (simp add: example_dataset_def)
  from c0 u n have both:
    "\<not> is_nan (m_usd_price (ds_rows example_dataset ! 0) ! 0) \<and>
     (\<exists>v. ds_fx example_dataset ! 0 = Some v \<and> \<not> is_nan v)" by blast
  have fx0: "ds_fx example_dataset ! 0 = Some (Fin 140)"
    by (simp add: example_dataset_def)
  have sh0: "Holding.shares (example_holdings ! 0) = Fin 10"
    and sh1: "Holding.shares (example_holdings ! 1) = Fin 5"
    by (simp_all add: example_holdings_def)
  have lbl0: "ds_months example_dataset ! 0 = ''2024-01''"
    by (simp add: example_dataset_def)
  note ex0 = n0[THEN conjunct2, THEN conjunct2, THEN conjunct2, THEN conjunct1]
  from ex0 obtain ser0 where
    a1: "get_monthly_series example_yf (Holding.symbol (example_holdings ! 0)) 12 = Inr ser0" and
    a2: "ccy_of (example_holdings ! 0) = ''USD'' \<longrightarrow>
           m_usd_price (ds_rows example_dataset ! 0) ! 0 =
             aligned_price ser0 (ds_months example_dataset ! 0)" and
    a3: "\<forall>v. distinct (map fst ser0) \<and> (ds_months example_dataset ! 0, v) \<in> set ser0 \<longrightarrow>
           aligned_price ser0 (ds_months example_dataset ! 0) = v"
    by blast
  from a1 have ser0: "ser0 = [(''2024-01'', Fin 100), (''2024-03'', Fin 120)]"
    by (simp add: example_yf_def example_series_def example_holdings_def)
  have "distinct (map fst ser0) \<and> (ds_months example_dataset ! 0, Fin 100) \<in> set ser0"
    unfolding ser0 lbl0 by simp
  with a3 have "aligned_price ser0 (ds_months example_dataset ! 0) = Fin 100" by blast
  with a2 u have up0: "m_usd_price (ds_rows example_dataset ! 0) ! 0 = Fin 100" by simp
  note val0 = n0[THEN conjunct2, THEN conjunct2, THEN conjunct2, THEN conjunct2]
  note conv0 = val0[THEN conjunct2, THEN conjunct2, THEN conjunct2, THEN conjunct2]
  note num0 = conv0[THEN conjunct1, rule_format, of 100 140]
  from num0 u up0 fx0 have
    jp0: "m_jpy_price (ds_rows example_dataset ! 0) ! 0 = Fin (100 * 140)" and
    q0: "\<forall>n. Holding.shares (example_holdings ! 0) = Fin n \<longrightarrow>
           m_usd_value (ds_rows example_dataset ! 0) ! 0 = Fin (100 * n) \<and>
           m_jpy_value (ds_rows example_dataset ! 0) ! 0 = Fin (100 * 140 * n)"
    by blast+
  from q0 sh0 have
    v0: "m_usd_value (ds_rows example_dataset ! 0) ! 0 = Fin (100 * 10) \<and>
         m_jpy_value (ds_rows example_dataset ! 0) ! 0 = Fin (100 * 140 * 10)"
    by blast
  have nu: "ccy_of (example_holdings ! 1) \<noteq> ''USD''"
    by (simp add: example_holdings_def ccy_of_def upper_def upper_char_def)
  note ex1 = m0[THEN conjunct2, THEN conjunct2, THEN conjunct2, THEN conjunct1]
  from ex1 obtain ser1 where
    b1: "get_monthly_series example_yf (Holding.symbol (example_holdings ! 1)) 12 = Inr ser1" and
    b2: "ccy_of (example_holdings ! 1) \<noteq> ''USD'' \<longrightarrow>
           m_jpy_price (ds_rows example_dataset ! 1) ! 0 =
             aligned_price ser1 (ds_months example_dataset ! 0)" and
    b3: "\<forall>v. distinct (map fst ser1) \<and> (ds_months example_dataset ! 0, v) \<in> set ser1 \<longrightarrow>
           aligned_price ser1 (ds_months example_dataset ! 0) = v"
    by blast
  from b1 have ser1:
    "ser1 = [(''2024-01'', Fin 2800), (''2024-02'', Fin 3000), (''2024-03'', Fin 3200)]"
    by (simp add: example_yf_def example_series_def example_holdings_def)
  have "distinct (map fst ser1) \<and> (ds_months example_dataset ! 0, Fin 2800) \<in> set ser1"
    unfolding ser1 lbl0 by simp
  with b3 have "aligned_price ser1 (ds_months example_dataset ! 0) = Fin 2800" by blast
  with b2 nu have jp1: "m_jpy_price (ds_rows example_dataset ! 1) ! 0 = Fin 2800" by simp
  note val1 = m0[THEN conjunct2, THEN conjunct2, THEN conjunct2, THEN conjunct2]
  note conv1 = val1[THEN conjunct2, THEN conjunct2, THEN conjunct2, THEN conjunct2]
  note num1 = conv1[THEN conjunct2, rule_format, of 2800 140]
  have nz: "(140 :: real) \<noteq> 0" by simp
  from num1 nu jp1 fx0 nz have
    up1: "m_usd_price (ds_rows example_dataset ! 1) ! 0 = Fin (2800 / 140)" and
    q1: "\<forall>n. Holding.shares (example_holdings ! 1) = Fin n \<longrightarrow>
           m_usd_value (ds_rows example_dataset ! 1) ! 0 = Fin (2800 / 140 * n) \<and>
           m_jpy_value (ds_rows example_dataset ! 1) ! 0 = Fin (2800 * n)"
    by blast+
  from q1 sh1 have
    v1: "m_usd_value (ds_rows example_dataset ! 1) ! 0 = Fin (2800 / 140 * 5) \<and>
         m_jpy_value (ds_rows example_dataset ! 1) ! 0 = Fin (2800 * 5)"
    by blast
  show ?thesis
    by (intro conjI)
       (rule example_build_monthly_dataset l3 len nans[THEN conjunct1]
             nans[THEN conjunct2, THEN conjunct1]
             nans[THEN conjunct2, THEN conjunct2, THEN conjunct1]
             nans[THEN conjunct2, THEN conjunct2, THEN conjunct2]
             n both[THEN conjunct1] both[THEN conjunct2] up0 jp0
             v0[THEN conjunct1] v0[THEN conjunct2] jp1 up1
             v1[THEN conjunct1] v1[THEN conjunct2])+
qed

section \<open>Properties of the CSV export\<close>

lemma digit_cases: "n < (10::nat) \<Longrightarrow> n \<in> {0, 1, 2, 3, 4, 5, 6, 7, 8, 9}"
  by simp arith


lemma digit_char_mem: "n < 10 \<Longrightarrow> digit_char n \<in> set ''0123456789''"
  by (drule digit_cases) (auto simp: digit_char_def)

lemma nat_digits_set: "set (nat_digits n) \<subseteq> set ''0123456789''"
proof (induction n rule: nat_digits.induct)
  case (1 n)
  show ?case
  proof (cases "n < 10")
    case True
    then show ?thesis using digit_char_mem[of n] by (subst nat_digits.simps) simp
  next
    case False
    have "n mod 10 < 10" by simp
    from digit_char_mem[OF this] 1[OF False] False
    show ?thesis by (subst nat_digits.simps) simp
  qed
qed











lemma nat_digits_no_minus: "CHR ''-'' \<notin> set (nat_digits n)"
  using nat_digits_set[of n] by auto


















































end
